theory Spec2Isabelle
  imports Main "HOL-Library.Sublist"
begin

section \<open>Data model\<close>

text \<open>
  Errors of the dataworker loop. \<open>TypeError\<close> is JavaScript's own error for a property
  read on \<open>undefined\<close>; \<open>NumericFault\<close> is what \<open>BigNumber.toNumber()\<close> throws outside the
  safe integer range; \<open>Thrown\<close> is any error raised by a collaborator.
\<close>

datatype error = TypeError | NumericFault | Thrown string

text \<open>
  An object \<open>{ [chainId: number]: number }\<close>, given by its entries (\<open>Object.entries\<close>).
\<close>

type_synonym blockMap = "(int \<times> int) list"

text \<open>
  The fields of \<open>DataworkerConfig\<close> that \<open>runDataworker\<close> reads. JavaScript numbers are
  modelled as \<open>int\<close>.
\<close>

record DataworkerConfig =
  dataworkerFastLookbackCount :: int
  dataworkerFastLookbackRetryCount :: int
  dataworkerFastLookbackRetryMultiplier :: int
  disputerEnabled :: bool
  sendingDisputesEnabled :: bool
  proposerEnabled :: bool
  rootBundleExecutionThreshold :: int
  sendingProposalsEnabled :: bool
  executorEnabled :: bool
  sendingExecutionsEnabled :: bool
  pollingDelay :: int

text \<open>
  The part of the result of \<open>getSpokePoolClientEventSearchConfigsForFastDataworker\<close> that
  is passed on (\<open>fromBundle\<close> and \<open>toBundle\<close> are only logged).
\<close>

record EventSearchConfigs =
  fromBlocks :: blockMap
  toBlocks :: blockMap

text \<open>
  The calls that \<open>runDataworker\<close> makes on its collaborators, in the order they are made,
  with the arguments the claims are about. A balance allocator is named by its reference
  in the store of allocator objects.
\<close>

datatype event =
    EvConstructDataworkerClients
  | EvUpdateDataworkerClients
  | EvGetEventSearchConfigs nat int
  | EvConstructSpokePoolClients nat int blockMap blockMap
  | EvValidatePendingRootBundle bool blockMap
  | EvProposeRootBundle int bool blockMap
  | EvNewBalanceAllocator nat
  | EvExecutePoolRebalanceLeaves nat bool blockMap
  | EvExecuteSlowRelayLeaves nat bool blockMap
  | EvExecuteRelayerRefundLeaves nat bool blockMap
  | EvExecuteTransactionQueue
  | EvProcessEndPollingLoop int
  | EvRedisDisconnect

text \<open>
  The state \<open>runDataworker\<close> runs in: the world of the collaborators (clients, chains,
  the transaction queue), the store of \<open>BalanceAllocator\<close> objects created so far, and
  the calls made so far.
\<close>

record ('w, 'ba) pstate =
  world :: 'w
  heap :: "'ba list"
  trace :: "event list"

text \<open>
  The collaborators of \<open>runDataworker\<close>, none of which is part of the modelled source.
  A call that is awaited takes the world and returns the new world with either the
  error it rejects with or its value; a synchronous read returns an error or a value.
  The collaborators are taken not to write to the \<open>config\<close> object, and the calls of the
  logger are left out: they return nothing that \<open>runDataworker\<close> uses.
\<close>

record ('w, 'sp, 'pv, 'ba) collaborators =
  newDataworkerConfig :: "error + DataworkerConfig"
  constructDataworkerClients :: "'w \<Rightarrow> DataworkerConfig \<Rightarrow> (error + unit) \<times> 'w"
  chainIdListForBundleEvaluationBlockNumbers :: "int list"
  updateDataworkerClients :: "'w \<Rightarrow> (error + unit) \<times> 'w"
  getLatestFullyExecutedRootBundle :: "'w \<Rightarrow> error + int list option"
  getSpokePoolClientEventSearchConfigsForFastDataworker ::
    "'w \<Rightarrow> DataworkerConfig \<Rightarrow> error + EventSearchConfigs"
  constructSpokePoolClientsForFastDataworker ::
    "'w \<Rightarrow> DataworkerConfig \<Rightarrow> blockMap \<Rightarrow> blockMap \<Rightarrow> (error + 'sp) \<times> 'w"
  getLatestInvalidBundleStartBlocks :: "'sp \<Rightarrow> error + blockMap"
  validatePendingRootBundle ::
    "'w \<Rightarrow> 'sp option \<Rightarrow> bool \<Rightarrow> blockMap \<Rightarrow> (error + unit) \<times> 'w"
  proposeRootBundle ::
    "'w \<Rightarrow> 'sp option \<Rightarrow> int \<Rightarrow> bool \<Rightarrow> blockMap \<Rightarrow> (error + unit) \<times> 'w"
  spokePoolClientsToProviders :: "'sp option \<Rightarrow> error + 'pv"
  newBalanceAllocator :: "'pv \<Rightarrow> 'ba"
  executePoolRebalanceLeaves ::
    "'w \<Rightarrow> 'sp option \<Rightarrow> 'ba \<Rightarrow> bool \<Rightarrow> blockMap \<Rightarrow> (error + unit) \<times> 'w \<times> 'ba"
  executeSlowRelayLeaves ::
    "'w \<Rightarrow> 'sp option \<Rightarrow> 'ba \<Rightarrow> bool \<Rightarrow> blockMap \<Rightarrow> (error + unit) \<times> 'w \<times> 'ba"
  executeRelayerRefundLeaves ::
    "'w \<Rightarrow> 'sp option \<Rightarrow> 'ba \<Rightarrow> bool \<Rightarrow> blockMap \<Rightarrow> (error + unit) \<times> 'w \<times> 'ba"
  executeTransactionQueue :: "'w \<Rightarrow> (error + unit) \<times> 'w"
  processEndPollingLoop :: "'w \<Rightarrow> int \<Rightarrow> (error + bool) \<times> 'w"
  redisClientDefined :: "'w \<Rightarrow> bool"
  redisDisconnect :: "'w \<Rightarrow> 'w"

section \<open>Sequencing\<close>

text \<open>
  \<open>await\<close> of a collaborator's call: the call is recorded, the world is replaced by the
  one the call leaves, and the call's error or value is the result.
\<close>

definition call ::
  "event \<Rightarrow> ('w \<Rightarrow> (error + 'a) \<times> 'w) \<Rightarrow> ('w, 'ba) pstate \<Rightarrow> (error + 'a) \<times> ('w, 'ba) pstate" where
  "call ev f st =
     (case f (world st) of (r, w) \<Rightarrow> (r, st\<lparr>world := w, trace := trace st @ [ev]\<rparr>))"

text \<open>
  A call on a balance allocator object: the callee reads and mutates the object the
  reference names.
\<close>

definition callWithAllocator ::
  "event \<Rightarrow> nat \<Rightarrow> ('w \<Rightarrow> 'ba \<Rightarrow> (error + 'a) \<times> 'w \<times> 'ba) \<Rightarrow> ('w, 'ba) pstate
     \<Rightarrow> (error + 'a) \<times> ('w, 'ba) pstate" where
  "callWithAllocator ev ref f st =
     (case f (world st) (heap st ! ref) of
        (r, w, b) \<Rightarrow> (r, st\<lparr>world := w, heap := (heap st)[ref := b], trace := trace st @ [ev]\<rparr>))"

text \<open>Statement sequencing: an error of the first statement skips the rest.\<close>

definition andThen ::
  "(error + 'a) \<times> 's \<Rightarrow> ('a \<Rightarrow> 's \<Rightarrow> (error + 'b) \<times> 's) \<Rightarrow> (error + 'b) \<times> 's" where
  "andThen m f = (case m of (Inl e, st) \<Rightarrow> (Inl e, st) | (Inr a, st) \<Rightarrow> f a st)"

text \<open>A synchronous expression, which may throw and leaves the state as it is.\<close>

definition sync :: "error + 'a \<Rightarrow> 's \<Rightarrow> (error + 'a) \<times> 's" where
  "sync r st = (r, st)"

section \<open>The bundle end blocks of the latest fully executed bundle\<close>

text \<open>
  \<open>BigNumber.toNumber()\<close> throws when the value needs more than 53 bits.
\<close>

definition toNumber :: "int \<Rightarrow> error + int" where
  "toNumber x = (if \<bar>x\<bar> < 2 ^ 53 then Inr x else Inl NumericFault)"

text \<open>
  \<open>chainIdList.map((chainId, index) => [chainId, ends[index].toNumber()])\<close>: reading
  \<open>ends[index]\<close> beyond the array gives \<open>undefined\<close>, whose \<open>toNumber\<close> is a TypeError.
\<close>

fun bundleEndBlockEntries :: "int list \<Rightarrow> int list \<Rightarrow> nat \<Rightarrow> error + (int \<times> int) list" where
  "bundleEndBlockEntries [] ends index = Inr []"
| "bundleEndBlockEntries (chainId # rest) ends index =
     (if index < length ends then
        (case toNumber (ends ! index) of
           Inl e \<Rightarrow> Inl e
         | Inr n \<Rightarrow>
             (case bundleEndBlockEntries rest ends (Suc index) of
                Inl e \<Rightarrow> Inl e
              | Inr entries \<Rightarrow> Inr ((chainId, n) # entries)))
      else Inl TypeError)"

text \<open>\<open>Object.fromEntries\<close>: a later entry of the same key replaces an earlier one.\<close>

definition fromEntries :: "('k \<times> 'v) list \<Rightarrow> ('k \<rightharpoonup> 'v)" where
  "fromEntries entries = foldl (\<lambda>m (k, v). m(k \<mapsto> v)) Map.empty entries"

text \<open>
  Lines 61-68 of \<open>runDataworker\<close>: \<open>getLatestFullyExecutedRootBundle\<close> may return
  \<open>undefined\<close>, whose \<open>bundleEvaluationBlockNumbers\<close> is a TypeError.
\<close>

definition bundleEndBlockMapping ::
  "('w, 'sp, 'pv, 'ba) collaborators \<Rightarrow> 'w \<Rightarrow> error + (int \<rightharpoonup> int)" where
  "bundleEndBlockMapping E w =
     (case getLatestFullyExecutedRootBundle E w of
        Inl e \<Rightarrow> Inl e
      | Inr None \<Rightarrow> Inl TypeError
      | Inr (Some latestFullyExecutedBundleEndBlocks) \<Rightarrow>
          (case bundleEndBlockEntries (chainIdListForBundleEvaluationBlockNumbers E)
                  latestFullyExecutedBundleEndBlocks 0 of
             Inl e \<Rightarrow> Inl e
           | Inr entries \<Rightarrow> Inr (fromEntries entries)))"

section \<open>The adaptive-retry loop\<close>

text \<open>
  Lines 134-138: some entry of the invalid bundle start blocks is greater than the end
  block of its chain. A chain with no end block compares with \<open>undefined\<close>, which is false.
\<close>

definition lookbackInsufficient :: "blockMap \<Rightarrow> (int \<rightharpoonup> int) \<Rightarrow> bool" where
  "lookbackInsufficient latestInvalidBundleStartBlocks endBlocks =
     list_ex (\<lambda>(chainId, invalidBundleStartBlock).
        case endBlocks chainId of
          None \<Rightarrow> False
        | Some endBlock \<Rightarrow> invalidBundleStartBlock > endBlock)
       latestInvalidBundleStartBlocks"

text \<open>
  How one round of the loop ends: at the end of the body, with the lookback count of
  \<open>customConfig\<close> overwritten, or at \<open>break\<close>. Both have assigned \<open>spokePoolClients\<close> and
  \<open>latestInvalidBundleStartBlocks\<close>.
\<close>

datatype 'sp roundResult =
    Widened DataworkerConfig 'sp blockMap
  | Break 'sp blockMap

text \<open>
  The body of the loop, lines 101-168, at \<open>retriesMade = i\<close>. The lookback count and
  the retry multiplier are integers here and their product is exact; the code's \<open>*=\<close>
  multiplies IEEE doubles, which gives the same number as long as the product is below
  \<open>2 ^ 53\<close> and a rounded one beyond.
\<close>

definition retryRound ::
  "('w, 'sp, 'pv, 'ba) collaborators \<Rightarrow> DataworkerConfig \<Rightarrow> (int \<rightharpoonup> int) \<Rightarrow> nat
     \<Rightarrow> DataworkerConfig \<Rightarrow> ('w, 'ba) pstate \<Rightarrow> (error + 'sp roundResult) \<times> ('w, 'ba) pstate" where
  "retryRound E config endBlocks i customConfig st =
     andThen
       (call (EvGetEventSearchConfigs i (dataworkerFastLookbackCount customConfig))
          (\<lambda>w. (getSpokePoolClientEventSearchConfigsForFastDataworker E w customConfig, w)) st)
       (\<lambda>searchConfigs st.
     andThen
       (call (EvConstructSpokePoolClients i (dataworkerFastLookbackCount customConfig)
                (fromBlocks searchConfigs) (toBlocks searchConfigs))
          (\<lambda>w. constructSpokePoolClientsForFastDataworker E w customConfig
                  (fromBlocks searchConfigs) (toBlocks searchConfigs)) st)
       (\<lambda>spokePoolClients st.
     andThen (sync (getLatestInvalidBundleStartBlocks E spokePoolClients) st)
       (\<lambda>latestInvalidBundleStartBlocks st.
          if lookbackInsufficient latestInvalidBundleStartBlocks endBlocks then
            (Inr (Widened
                    (customConfig\<lparr>dataworkerFastLookbackCount :=
                       dataworkerFastLookbackCount customConfig
                         * dataworkerFastLookbackRetryMultiplier config\<rparr>)
                    spokePoolClients latestInvalidBundleStartBlocks), st)
          else (Inr (Break spokePoolClients latestInvalidBundleStartBlocks), st))))"

text \<open>
  The loop of line 100, \<open>for (let i = 0; i <= config.dataworkerFastLookbackRetryCount; i++)\<close>,
  from \<open>i\<close> on, with the variables the body assigns: \<open>customConfig\<close>, \<open>spokePoolClients\<close>
  (\<open>None\<close> while unassigned) and \<open>latestInvalidBundleStartBlocks\<close>.
\<close>

function retryLoop ::
  "('w, 'sp, 'pv, 'ba) collaborators \<Rightarrow> DataworkerConfig \<Rightarrow> (int \<rightharpoonup> int) \<Rightarrow> nat
     \<Rightarrow> DataworkerConfig \<Rightarrow> 'sp option \<Rightarrow> blockMap \<Rightarrow> ('w, 'ba) pstate
     \<Rightarrow> (error + 'sp option \<times> blockMap) \<times> ('w, 'ba) pstate" where
  "retryLoop E config endBlocks i customConfig spokePoolClients latestInvalidBundleStartBlocks st =
     (if int i \<le> dataworkerFastLookbackRetryCount config then
        (case retryRound E config endBlocks i customConfig st of
           (Inl e, st') \<Rightarrow> (Inl e, st')
         | (Inr (Widened customConfig' spokePoolClients' latestInvalidBundleStartBlocks'), st') \<Rightarrow>
             retryLoop E config endBlocks (Suc i) customConfig'
               (Some spokePoolClients') latestInvalidBundleStartBlocks' st'
         | (Inr (Break spokePoolClients' latestInvalidBundleStartBlocks'), st') \<Rightarrow>
             (Inr (Some spokePoolClients', latestInvalidBundleStartBlocks'), st'))
      else (Inr (spokePoolClients, latestInvalidBundleStartBlocks), st))"
  by pat_completeness auto
termination
  by (relation "measure (\<lambda>(E, config, endBlocks, i, rest).
        nat (dataworkerFastLookbackRetryCount config + 1 - int i))") auto

section \<open>One iteration of the top-level loop\<close>

text \<open>Lines 172-178: validate and dispute the pending proposal.\<close>

definition disputerStep ::
  "('w, 'sp, 'pv, 'ba) collaborators \<Rightarrow> DataworkerConfig \<Rightarrow> 'sp option \<Rightarrow> blockMap
     \<Rightarrow> ('w, 'ba) pstate \<Rightarrow> (error + unit) \<times> ('w, 'ba) pstate" where
  "disputerStep E config spokePoolClients latestInvalidBundleStartBlocks st =
     (if disputerEnabled config then
        call (EvValidatePendingRootBundle (sendingDisputesEnabled config)
                latestInvalidBundleStartBlocks)
          (\<lambda>w. validatePendingRootBundle E w spokePoolClients (sendingDisputesEnabled config)
                  latestInvalidBundleStartBlocks) st
      else (Inr (), st))"

text \<open>Lines 180-187: propose a new bundle.\<close>

definition proposerStep ::
  "('w, 'sp, 'pv, 'ba) collaborators \<Rightarrow> DataworkerConfig \<Rightarrow> 'sp option \<Rightarrow> blockMap
     \<Rightarrow> ('w, 'ba) pstate \<Rightarrow> (error + unit) \<times> ('w, 'ba) pstate" where
  "proposerStep E config spokePoolClients latestInvalidBundleStartBlocks st =
     (if proposerEnabled config then
        call (EvProposeRootBundle (rootBundleExecutionThreshold config)
                (sendingProposalsEnabled config) latestInvalidBundleStartBlocks)
          (\<lambda>w. proposeRootBundle E w spokePoolClients (rootBundleExecutionThreshold config)
                  (sendingProposalsEnabled config) latestInvalidBundleStartBlocks) st
      else (Inr (), st))"

text \<open>
  Line 190, \<open>new BalanceAllocator(spokePoolClientsToProviders(spokePoolClients))\<close>: a new
  object is added to the store and its reference is the value.
\<close>

definition allocateBalanceAllocator ::
  "('w, 'sp, 'pv, 'ba) collaborators \<Rightarrow> 'sp option \<Rightarrow> ('w, 'ba) pstate
     \<Rightarrow> (error + nat) \<times> ('w, 'ba) pstate" where
  "allocateBalanceAllocator E spokePoolClients st =
     (case spokePoolClientsToProviders E spokePoolClients of
        Inl e \<Rightarrow> (Inl e, st)
      | Inr providers \<Rightarrow>
          (Inr (length (heap st)),
           st\<lparr>heap := heap st @ [newBalanceAllocator E providers],
              trace := trace st @ [EvNewBalanceAllocator (length (heap st))]\<rparr>))"

text \<open>Lines 189-212: execute the leaves of the three kinds.\<close>

definition executorStep ::
  "('w, 'sp, 'pv, 'ba) collaborators \<Rightarrow> DataworkerConfig \<Rightarrow> 'sp option \<Rightarrow> blockMap
     \<Rightarrow> ('w, 'ba) pstate \<Rightarrow> (error + unit) \<times> ('w, 'ba) pstate" where
  "executorStep E config spokePoolClients latestInvalidBundleStartBlocks st =
     (if executorEnabled config then
        andThen (allocateBalanceAllocator E spokePoolClients st)
          (\<lambda>balanceAllocator st.
        andThen
          (callWithAllocator
             (EvExecutePoolRebalanceLeaves balanceAllocator (sendingExecutionsEnabled config)
                latestInvalidBundleStartBlocks)
             balanceAllocator
             (\<lambda>w b. executePoolRebalanceLeaves E w spokePoolClients b
                      (sendingExecutionsEnabled config) latestInvalidBundleStartBlocks) st)
          (\<lambda>_ st.
        andThen
          (callWithAllocator
             (EvExecuteSlowRelayLeaves balanceAllocator (sendingExecutionsEnabled config)
                latestInvalidBundleStartBlocks)
             balanceAllocator
             (\<lambda>w b. executeSlowRelayLeaves E w spokePoolClients b
                      (sendingExecutionsEnabled config) latestInvalidBundleStartBlocks) st)
          (\<lambda>_ st.
        callWithAllocator
          (EvExecuteRelayerRefundLeaves balanceAllocator (sendingExecutionsEnabled config)
             latestInvalidBundleStartBlocks)
          balanceAllocator
          (\<lambda>w b. executeRelayerRefundLeaves E w spokePoolClients b
                   (sendingExecutionsEnabled config) latestInvalidBundleStartBlocks) st)))
      else (Inr (), st))"

text \<open>
  Lines 171-218: everything after the retry loop. The value is that of
  \<open>processEndPollingLoop\<close>, on which the top-level loop breaks.
\<close>

definition afterResolve ::
  "('w, 'sp, 'pv, 'ba) collaborators \<Rightarrow> DataworkerConfig \<Rightarrow> 'sp option \<Rightarrow> blockMap
     \<Rightarrow> ('w, 'ba) pstate \<Rightarrow> (error + bool) \<times> ('w, 'ba) pstate" where
  "afterResolve E config spokePoolClients latestInvalidBundleStartBlocks st =
     andThen (disputerStep E config spokePoolClients latestInvalidBundleStartBlocks st)
       (\<lambda>_ st.
     andThen (proposerStep E config spokePoolClients latestInvalidBundleStartBlocks st)
       (\<lambda>_ st.
     andThen (executorStep E config spokePoolClients latestInvalidBundleStartBlocks st)
       (\<lambda>_ st.
     andThen (call EvExecuteTransactionQueue (executeTransactionQueue E) st)
       (\<lambda>_ st.
     call (EvProcessEndPollingLoop (pollingDelay config))
       (\<lambda>w. processEndPollingLoop E w (pollingDelay config)) st))))"

text \<open>
  The rest of an iteration from the head of the retry loop at \<open>retriesMade = i\<close>
  (lines 100-218): the loop, then everything after it with the \<open>spokePoolClients\<close> and
  \<open>latestInvalidBundleStartBlocks\<close> the loop leaves.
\<close>

definition iterationFromRound ::
  "('w, 'sp, 'pv, 'ba) collaborators \<Rightarrow> DataworkerConfig \<Rightarrow> (int \<rightharpoonup> int) \<Rightarrow> nat
     \<Rightarrow> DataworkerConfig \<Rightarrow> 'sp option \<Rightarrow> blockMap \<Rightarrow> ('w, 'ba) pstate
     \<Rightarrow> (error + bool) \<times> ('w, 'ba) pstate" where
  "iterationFromRound E config endBlocks i customConfig spokePoolClients
       latestInvalidBundleStartBlocks st =
     andThen
       (retryLoop E config endBlocks i customConfig spokePoolClients
          latestInvalidBundleStartBlocks st)
       (\<lambda>(spokePoolClients, latestInvalidBundleStartBlocks) st.
          afterResolve E config spokePoolClients latestInvalidBundleStartBlocks st)"

text \<open>
  The body of \<open>for (;;)\<close>, lines 53-218: refresh the clients, read the end blocks of the
  latest fully executed bundle, and enter the retry loop at \<open>i = 0\<close> with
  \<open>customConfig = { ...config }\<close>, \<open>spokePoolClients\<close> unassigned and
  \<open>latestInvalidBundleStartBlocks = {}\<close>.
\<close>

definition loopIteration ::
  "('w, 'sp, 'pv, 'ba) collaborators \<Rightarrow> DataworkerConfig \<Rightarrow> ('w, 'ba) pstate
     \<Rightarrow> (error + bool) \<times> ('w, 'ba) pstate" where
  "loopIteration E config st =
     andThen (call EvUpdateDataworkerClients (updateDataworkerClients E) st)
       (\<lambda>_ st.
     andThen (sync (bundleEndBlockMapping E (world st)) st)
       (\<lambda>endBlocks st. iterationFromRound E config endBlocks 0 config None [] st))"

text \<open>
  The first part of the body alone, lines 53-169: the Bundle Block Range Resolver, whose
  value is what the retry loop leaves in \<open>spokePoolClients\<close> and
  \<open>latestInvalidBundleStartBlocks\<close>.
\<close>

definition resolveBlockRanges ::
  "('w, 'sp, 'pv, 'ba) collaborators \<Rightarrow> DataworkerConfig \<Rightarrow> ('w, 'ba) pstate
     \<Rightarrow> (error + 'sp option \<times> blockMap) \<times> ('w, 'ba) pstate" where
  "resolveBlockRanges E config st =
     andThen (call EvUpdateDataworkerClients (updateDataworkerClients E) st)
       (\<lambda>_ st.
     andThen (sync (bundleEndBlockMapping E (world st)) st)
       (\<lambda>endBlocks st. retryLoop E config endBlocks 0 config None [] st))"

section \<open>The top-level loop\<close>

text \<open>
  \<open>for (;;)\<close> of line 52 runs until \<open>processEndPollingLoop\<close> is true or an error is
  raised, which may be never: the loop takes fuel, one unit for each iteration, and
  \<open>None\<close> is the loop still running when the fuel is spent.
\<close>

fun pollingLoop ::
  "('w, 'sp, 'pv, 'ba) collaborators \<Rightarrow> DataworkerConfig \<Rightarrow> nat \<Rightarrow> ('w, 'ba) pstate
     \<Rightarrow> (error + unit) option \<times> ('w, 'ba) pstate" where
  "pollingLoop E config 0 st = (None, st)"
| "pollingLoop E config (Suc fuel) st =
     (case loopIteration E config st of
        (Inl e, st') \<Rightarrow> (Some (Inl e), st')
      | (Inr True, st') \<Rightarrow> (Some (Inr ()), st')
      | (Inr False, st') \<Rightarrow> pollingLoop E config fuel st')"

text \<open>Lines 24-45; \<open>new Dataworker\<close> only stores its arguments.\<close>

definition createDataworker ::
  "('w, 'sp, 'pv, 'ba) collaborators \<Rightarrow> ('w, 'ba) pstate
     \<Rightarrow> (error + DataworkerConfig) \<times> ('w, 'ba) pstate" where
  "createDataworker E st =
     andThen (sync (newDataworkerConfig E) st)
       (\<lambda>config st.
     andThen (call EvConstructDataworkerClients (\<lambda>w. constructDataworkerClients E w config) st)
       (\<lambda>_ st. (Inr config, st)))"

text \<open>
  Lines 220-228, the \<open>catch\<close> block: the redis client, when there is one, is
  disconnected (the call is not awaited), and the error is thrown again.
\<close>

definition catchBlock ::
  "('w, 'sp, 'pv, 'ba) collaborators \<Rightarrow> error \<Rightarrow> ('w, 'ba) pstate
     \<Rightarrow> (error + unit) option \<times> ('w, 'ba) pstate" where
  "catchBlock E err st =
     (if redisClientDefined E (world st) then
        (Some (Inl err),
         st\<lparr>world := redisDisconnect E (world st), trace := trace st @ [EvRedisDisconnect]\<rparr>)
      else (Some (Inl err), st))"

text \<open>Lines 46-229. \<open>createDataworker\<close> is called outside the \<open>try\<close> block.\<close>

definition runDataworker ::
  "('w, 'sp, 'pv, 'ba) collaborators \<Rightarrow> nat \<Rightarrow> ('w, 'ba) pstate
     \<Rightarrow> (error + unit) option \<times> ('w, 'ba) pstate" where
  "runDataworker E fuel st =
     (case createDataworker E st of
        (Inl e, st') \<Rightarrow> (Some (Inl e), st')
      | (Inr config, st') \<Rightarrow>
          (case pollingLoop E config fuel st' of
             (Some (Inl err), st'') \<Rightarrow> catchBlock E err st''
           | (r, st'') \<Rightarrow> (r, st'')))"

section \<open>The Scroll WETH bridge adapter\<close>

text \<open>An entry of \<open>CONTRACT_ADDRESSES\<close>, and an ethers \<open>Contract\<close> made from one.\<close>

record ContractEntry =
  address :: string
  abi :: string

record 's Contract =
  contractAddress :: string
  contractAbi :: string
  signerOrProvider :: 's

text \<open>
  \<open>CONTRACT_ADDRESSES[chainId].name\<close>, destructured: a chain or a contract that the
  table does not have is a TypeError.
\<close>

type_synonym contractAddresses = "int \<Rightarrow> (string \<Rightarrow> ContractEntry option) option"

definition lookupContract :: "contractAddresses \<Rightarrow> int \<Rightarrow> string \<Rightarrow> error + ContractEntry" where
  "lookupContract CONTRACT_ADDRESSES chainId name =
     (case CONTRACT_ADDRESSES chainId of
        None \<Rightarrow> Inl TypeError
      | Some contracts \<Rightarrow>
          (case contracts name of None \<Rightarrow> Inl TypeError | Some entry \<Rightarrow> Inr entry))"

definition newContract :: "ContractEntry \<Rightarrow> 's \<Rightarrow> 's Contract" where
  "newContract entry signer =
     \<lparr>contractAddress = address entry, contractAbi = abi entry, signerOrProvider = signer\<rparr>"

record 's ScrollWethBridge =
  l2chainId :: int
  hubChainId :: int
  l1Gateways :: "string list"
  l1Bridge :: "'s Contract"
  l2Bridge :: "'s Contract"
  atomicDepositor :: "'s Contract"
  l2Gas :: int

text \<open>
  The constructor, lines 10-27, with the field initialiser of line 8. The constructor of
  \<open>BaseBridgeAdapter\<close> is taken to store its arguments.
\<close>

definition newScrollWethBridge ::
  "contractAddresses \<Rightarrow> int \<Rightarrow> int \<Rightarrow> 's \<Rightarrow> 's \<Rightarrow> string \<Rightarrow> error + 's ScrollWethBridge" where
  "newScrollWethBridge CONTRACT_ADDRESSES l2chain hubChain l1Signer l2SignerOrProvider l1Token =
     (case lookupContract CONTRACT_ADDRESSES hubChain ''scrollGatewayRouter'' of
        Inl e \<Rightarrow> Inl e
      | Inr l1 \<Rightarrow>
     (case lookupContract CONTRACT_ADDRESSES l2chain ''scrollGatewayRouter'' of
        Inl e \<Rightarrow> Inl e
      | Inr l2 \<Rightarrow>
     (case lookupContract CONTRACT_ADDRESSES hubChain ''atomicDepositor'' of
        Inl e \<Rightarrow> Inl e
      | Inr depositor \<Rightarrow>
          Inr \<lparr>l2chainId = l2chain, hubChainId = hubChain, l1Gateways = [address depositor],
               l1Bridge = newContract l1 l1Signer,
               l2Bridge = newContract l2 l2SignerOrProvider,
               atomicDepositor = newContract depositor l1Signer,
               l2Gas = 20000\<rparr>)))"

datatype txnArg = ArgAddress string | ArgAmount int | ArgNumber int

text \<open>
  \<open>BridgeTransactionDetails\<close>; its field \<open>method\<close> is named \<open>methodName\<close> here.
\<close>

record 's BridgeTransactionDetails =
  contract :: "'s Contract"
  methodName :: string
  args :: "txnArg list"

text \<open>Lines 29-40. The promise is made by \<open>Promise.resolve\<close> and never rejects.\<close>

definition constructL1ToL2Txn ::
  "'s ScrollWethBridge \<Rightarrow> string \<Rightarrow> string \<Rightarrow> string \<Rightarrow> int \<Rightarrow> 's BridgeTransactionDetails" where
  "constructL1ToL2Txn this toAddress l1Token l2Token amount =
     \<lparr>contract = atomicDepositor this,
      methodName = ''bridgeWethToScroll'',
      args = [ArgAddress toAddress, ArgAmount amount, ArgNumber (l2Gas this)]\<rparr>"

section \<open>The relayer configuration\<close>

datatype json =
    JNull
  | JBool bool
  | JNumber int
  | JString string
  | JArray "json list"
  | JObject "(string \<times> json) list"

type_synonym ProcessEnv = "string \<rightharpoonup> string"

record 'c RelayerConfig =
  commonConfig :: 'c
  maxRelayerLookBack :: json
  repaymentChainIdForToken :: json
  sendingRelaysEnabled :: bool

text \<open>
  \<open>VARIABLE ? JSON.parse(VARIABLE) : {}\<close>: an absent variable is \<open>undefined\<close>, and both
  \<open>undefined\<close> and the empty string are falsy. \<open>JSON.parse\<close> throws on malformed text.
\<close>

definition parseOrEmpty :: "(string \<Rightarrow> error + json) \<Rightarrow> string option \<Rightarrow> error + json" where
  "parseOrEmpty JSON_parse variable =
     (case variable of
        None \<Rightarrow> Inr (JObject [])
      | Some text \<Rightarrow> if text = [] then Inr (JObject []) else JSON_parse text)"

text \<open>
  The constructor of \<open>RelayerConfig\<close>, lines 83-89 of the second part of the file. The
  constructor of \<open>CommonConfig\<close> and \<open>JSON.parse\<close> are parameters.
\<close>

definition newRelayerConfig ::
  "(ProcessEnv \<Rightarrow> error + 'c) \<Rightarrow> (string \<Rightarrow> error + json) \<Rightarrow> ProcessEnv
     \<Rightarrow> error + 'c RelayerConfig" where
  "newRelayerConfig newCommonConfig JSON_parse env =
     (case newCommonConfig env of
        Inl e \<Rightarrow> Inl e
      | Inr common \<Rightarrow>
     (case parseOrEmpty JSON_parse (env ''MAX_RELAYER_DEPOSIT_LOOK_BACK'') of
        Inl e \<Rightarrow> Inl e
      | Inr lookBack \<Rightarrow>
     (case parseOrEmpty JSON_parse (env ''REPAYMENT_CHAIN_FOR_TOKEN'') of
        Inl e \<Rightarrow> Inl e
      | Inr repayment \<Rightarrow>
          Inr \<lparr>commonConfig = common,
               maxRelayerLookBack = lookBack,
               repaymentChainIdForToken = repayment,
               sendingRelaysEnabled = (env ''SEND_RELAYS'' = Some ''true'')\<rparr>)))"

section \<open>Observing a run\<close>

text \<open>The calls made between two states of a run.\<close>

definition newEvents :: "('w, 'ba) pstate \<Rightarrow> ('w, 'ba) pstate \<Rightarrow> event list" where
  "newEvents st st' = drop (length (trace st)) (trace st')"

text \<open>A fetch round is a call of \<open>constructSpokePoolClientsForFastDataworker\<close>.\<close>

fun isFetchRound :: "event \<Rightarrow> bool" where
  "isFetchRound (EvConstructSpokePoolClients i lookback fromB toB) = True"
| "isFetchRound ev = False"

text \<open>
  The round and the lookback count of \<open>customConfig\<close> of a call made by the retry loop;
  \<open>None\<close> for the other calls.
\<close>

fun roundOf :: "event \<Rightarrow> (nat \<times> int) option" where
  "roundOf (EvGetEventSearchConfigs i lookback) = Some (i, lookback)"
| "roundOf (EvConstructSpokePoolClients i lookback fromB toB) = Some (i, lookback)"
| "roundOf ev = None"

text \<open>
  The calls an iteration makes after the retry loop when none of them raises, given the
  reference of the balance allocator it creates and the invalid bundle start blocks.
\<close>

definition disputerCalls :: "DataworkerConfig \<Rightarrow> blockMap \<Rightarrow> event list" where
  "disputerCalls config latestInvalidBundleStartBlocks =
     (if disputerEnabled config
      then [EvValidatePendingRootBundle (sendingDisputesEnabled config)
              latestInvalidBundleStartBlocks]
      else [])"

definition proposerCalls :: "DataworkerConfig \<Rightarrow> blockMap \<Rightarrow> event list" where
  "proposerCalls config latestInvalidBundleStartBlocks =
     (if proposerEnabled config
      then [EvProposeRootBundle (rootBundleExecutionThreshold config)
              (sendingProposalsEnabled config) latestInvalidBundleStartBlocks]
      else [])"

definition executorCalls :: "DataworkerConfig \<Rightarrow> nat \<Rightarrow> blockMap \<Rightarrow> event list" where
  "executorCalls config balanceAllocator latestInvalidBundleStartBlocks =
     (if executorEnabled config
      then [EvNewBalanceAllocator balanceAllocator,
            EvExecutePoolRebalanceLeaves balanceAllocator (sendingExecutionsEnabled config)
              latestInvalidBundleStartBlocks,
            EvExecuteSlowRelayLeaves balanceAllocator (sendingExecutionsEnabled config)
              latestInvalidBundleStartBlocks,
            EvExecuteRelayerRefundLeaves balanceAllocator (sendingExecutionsEnabled config)
              latestInvalidBundleStartBlocks]
      else [])"

definition plannedCalls :: "DataworkerConfig \<Rightarrow> nat \<Rightarrow> blockMap \<Rightarrow> event list" where
  "plannedCalls config balanceAllocator latestInvalidBundleStartBlocks =
     disputerCalls config latestInvalidBundleStartBlocks
     @ proposerCalls config latestInvalidBundleStartBlocks
     @ executorCalls config balanceAllocator latestInvalidBundleStartBlocks
     @ [EvExecuteTransactionQueue, EvProcessEndPollingLoop (pollingDelay config)]"

section \<open>What the collaborators receive\<close>

text \<open>
  A call as its callee sees it: the callee and the arguments it is given. The balance
  allocator given to an execution call is the ledger the callee reads.
\<close>

datatype ('sp, 'ba) request =
    ConstructDataworkerClients DataworkerConfig
  | UpdateDataworkerClients
  | ConstructSpokePoolClients DataworkerConfig blockMap blockMap
  | ValidatePendingRootBundle "'sp option" bool blockMap
  | ProposeRootBundle "'sp option" int bool blockMap
  | ExecutePoolRebalanceLeaves "'sp option" 'ba bool blockMap
  | ExecuteSlowRelayLeaves "'sp option" 'ba bool blockMap
  | ExecuteRelayerRefundLeaves "'sp option" 'ba bool blockMap
  | ExecuteTransactionQueue
  | ProcessEndPollingLoop int
  | RedisDisconnect

text \<open>
  What the callee gives back: the error it rejects with, nothing, the spoke pool clients
  it constructed, the ledger it leaves in the balance allocator, or its answer.
\<close>

datatype ('sp, 'ba) reply =
    Rejected error
  | Fulfilled
  | Constructed 'sp
  | Executed 'ba
  | Answered bool

type_synonym ('sp, 'ba) received = "('sp, 'ba) request \<times> ('sp, 'ba) reply"

definition fulfilled :: "error + unit \<Rightarrow> ('sp, 'ba) reply" where
  "fulfilled r = (case r of Inl e \<Rightarrow> Rejected e | Inr u \<Rightarrow> Fulfilled)"

definition constructed :: "error + 'sp \<Rightarrow> ('sp, 'ba) reply" where
  "constructed r = (case r of Inl e \<Rightarrow> Rejected e | Inr clients \<Rightarrow> Constructed clients)"

definition executed :: "error + unit \<Rightarrow> 'ba \<Rightarrow> ('sp, 'ba) reply" where
  "executed r ledger = (case r of Inl e \<Rightarrow> Rejected e | Inr u \<Rightarrow> Executed ledger)"

definition answered :: "error + bool \<Rightarrow> ('sp, 'ba) reply" where
  "answered r = (case r of Inl e \<Rightarrow> Rejected e | Inr stop \<Rightarrow> Answered stop)"

text \<open>
  Collaborators that keep a record of what they receive. Their world is the world of
  the given collaborators with the list of the calls received so far; every awaited call
  does what the given collaborator does and adds to the list, on the callee's side, the
  arguments it was really given and what it gave back. The synchronous reads are those
  of the given collaborators. What \<open>runDataworker\<close> does with collaborators does not
  depend on their keeping a record (\<open>loopIteration_logged\<close>, \<open>runDataworker_logged\<close>).
\<close>

definition logged ::
  "('w, 'sp, 'pv, 'ba) collaborators
     \<Rightarrow> ('w \<times> ('sp, 'ba) received list, 'sp, 'pv, 'ba) collaborators" where
  "logged E =
     \<lparr>newDataworkerConfig = newDataworkerConfig E,
      constructDataworkerClients =
        (\<lambda>wl config.
           case constructDataworkerClients E (fst wl) config of
             (r, w) \<Rightarrow> (r, (w, snd wl @ [(ConstructDataworkerClients config, fulfilled r)]))),
      chainIdListForBundleEvaluationBlockNumbers = chainIdListForBundleEvaluationBlockNumbers E,
      updateDataworkerClients =
        (\<lambda>wl.
           case updateDataworkerClients E (fst wl) of
             (r, w) \<Rightarrow> (r, (w, snd wl @ [(UpdateDataworkerClients, fulfilled r)]))),
      getLatestFullyExecutedRootBundle = (\<lambda>wl. getLatestFullyExecutedRootBundle E (fst wl)),
      getSpokePoolClientEventSearchConfigsForFastDataworker =
        (\<lambda>wl config. getSpokePoolClientEventSearchConfigsForFastDataworker E (fst wl) config),
      constructSpokePoolClientsForFastDataworker =
        (\<lambda>wl config fromB toB.
           case constructSpokePoolClientsForFastDataworker E (fst wl) config fromB toB of
             (r, w) \<Rightarrow>
               (r, (w, snd wl @ [(ConstructSpokePoolClients config fromB toB, constructed r)]))),
      getLatestInvalidBundleStartBlocks = getLatestInvalidBundleStartBlocks E,
      validatePendingRootBundle =
        (\<lambda>wl clients sending blocks.
           case validatePendingRootBundle E (fst wl) clients sending blocks of
             (r, w) \<Rightarrow>
               (r, (w, snd wl
                      @ [(ValidatePendingRootBundle clients sending blocks, fulfilled r)]))),
      proposeRootBundle =
        (\<lambda>wl clients threshold sending blocks.
           case proposeRootBundle E (fst wl) clients threshold sending blocks of
             (r, w) \<Rightarrow>
               (r, (w, snd wl
                      @ [(ProposeRootBundle clients threshold sending blocks, fulfilled r)]))),
      spokePoolClientsToProviders = spokePoolClientsToProviders E,
      newBalanceAllocator = newBalanceAllocator E,
      executePoolRebalanceLeaves =
        (\<lambda>wl clients ledger sending blocks.
           case executePoolRebalanceLeaves E (fst wl) clients ledger sending blocks of
             (r, w, ledger') \<Rightarrow>
               (r, (w, snd wl
                      @ [(ExecutePoolRebalanceLeaves clients ledger sending blocks,
                          executed r ledger')]),
                ledger')),
      executeSlowRelayLeaves =
        (\<lambda>wl clients ledger sending blocks.
           case executeSlowRelayLeaves E (fst wl) clients ledger sending blocks of
             (r, w, ledger') \<Rightarrow>
               (r, (w, snd wl
                      @ [(ExecuteSlowRelayLeaves clients ledger sending blocks,
                          executed r ledger')]),
                ledger')),
      executeRelayerRefundLeaves =
        (\<lambda>wl clients ledger sending blocks.
           case executeRelayerRefundLeaves E (fst wl) clients ledger sending blocks of
             (r, w, ledger') \<Rightarrow>
               (r, (w, snd wl
                      @ [(ExecuteRelayerRefundLeaves clients ledger sending blocks,
                          executed r ledger')]),
                ledger')),
      executeTransactionQueue =
        (\<lambda>wl.
           case executeTransactionQueue E (fst wl) of
             (r, w) \<Rightarrow> (r, (w, snd wl @ [(ExecuteTransactionQueue, fulfilled r)]))),
      processEndPollingLoop =
        (\<lambda>wl delay.
           case processEndPollingLoop E (fst wl) delay of
             (r, w) \<Rightarrow> (r, (w, snd wl @ [(ProcessEndPollingLoop delay, answered r)]))),
      redisClientDefined = (\<lambda>wl. redisClientDefined E (fst wl)),
      redisDisconnect =
        (\<lambda>wl. (redisDisconnect E (fst wl), snd wl @ [(RedisDisconnect, Fulfilled)]))\<rparr>"

text \<open>The calls the collaborators received between two states of a run.\<close>

definition callsReceived ::
  "('w \<times> ('sp, 'ba) received list, 'ba) pstate \<Rightarrow> ('w \<times> ('sp, 'ba) received list, 'ba) pstate
     \<Rightarrow> ('sp, 'ba) received list" where
  "callsReceived st st' = drop (length (snd (world st))) (snd (world st'))"

text \<open>A state without the record of the calls received.\<close>

definition withoutRecord :: "('w \<times> 'l, 'ba) pstate \<Rightarrow> ('w, 'ba) pstate" where
  "withoutRecord st = \<lparr>world = fst (world st), heap = heap st, trace = trace st\<rparr>"

fun isFetch :: "('sp, 'ba) request \<Rightarrow> bool" where
  "isFetch (ConstructSpokePoolClients customConfig fromB toB) = True"
| "isFetch q = False"

fun isStopCheck :: "('sp, 'ba) request \<Rightarrow> bool" where
  "isStopCheck (ProcessEndPollingLoop delay) = True"
| "isStopCheck q = False"

fun isRejected :: "('sp, 'ba) reply \<Rightarrow> bool" where
  "isRejected (Rejected e) = True"
| "isRejected rep = False"

text \<open>The calls received after the first call that was rejected.\<close>

fun callsAfterRejection :: "('sp, 'ba) received list \<Rightarrow> ('sp, 'ba) received list" where
  "callsAfterRejection [] = []"
| "callsAfterRejection (c # calls) =
     (if isRejected (snd c) then calls else callsAfterRejection calls)"

text \<open>The place of a callee in the order of the steps of an iteration.\<close>

fun stepOrder :: "('sp, 'ba) request \<Rightarrow> nat" where
  "stepOrder (ConstructDataworkerClients config) = 0"
| "stepOrder UpdateDataworkerClients = 1"
| "stepOrder (ConstructSpokePoolClients customConfig fromB toB) = 2"
| "stepOrder (ValidatePendingRootBundle clients sending blocks) = 3"
| "stepOrder (ProposeRootBundle clients threshold sending blocks) = 4"
| "stepOrder (ExecutePoolRebalanceLeaves clients ledger sending blocks) = 5"
| "stepOrder (ExecuteSlowRelayLeaves clients ledger sending blocks) = 6"
| "stepOrder (ExecuteRelayerRefundLeaves clients ledger sending blocks) = 7"
| "stepOrder ExecuteTransactionQueue = 8"
| "stepOrder (ProcessEndPollingLoop delay) = 9"
| "stepOrder RedisDisconnect = 10"

text \<open>
  The calls that follow the retry loop in an iteration in which none of them raises,
  with the arguments they are to be given: the spoke pool clients and the invalid bundle
  start blocks the loop left, the flags of the configuration, and the ledgers that the
  three executions find in the balance allocator.
\<close>

definition disputerRequests ::
  "DataworkerConfig \<Rightarrow> 'sp option \<Rightarrow> blockMap \<Rightarrow> ('sp, 'ba) request list" where
  "disputerRequests config spokePoolClients latestInvalidBundleStartBlocks =
     (if disputerEnabled config
      then [ValidatePendingRootBundle spokePoolClients (sendingDisputesEnabled config)
              latestInvalidBundleStartBlocks]
      else [])"

definition proposerRequests ::
  "DataworkerConfig \<Rightarrow> 'sp option \<Rightarrow> blockMap \<Rightarrow> ('sp, 'ba) request list" where
  "proposerRequests config spokePoolClients latestInvalidBundleStartBlocks =
     (if proposerEnabled config
      then [ProposeRootBundle spokePoolClients (rootBundleExecutionThreshold config)
              (sendingProposalsEnabled config) latestInvalidBundleStartBlocks]
      else [])"

definition executorRequests ::
  "DataworkerConfig \<Rightarrow> 'sp option \<Rightarrow> blockMap \<Rightarrow> 'ba \<Rightarrow> 'ba \<Rightarrow> 'ba \<Rightarrow> ('sp, 'ba) request list" where
  "executorRequests config spokePoolClients latestInvalidBundleStartBlocks
       ledger ledger' ledger'' =
     (if executorEnabled config
      then [ExecutePoolRebalanceLeaves spokePoolClients ledger
              (sendingExecutionsEnabled config) latestInvalidBundleStartBlocks,
            ExecuteSlowRelayLeaves spokePoolClients ledger'
              (sendingExecutionsEnabled config) latestInvalidBundleStartBlocks,
            ExecuteRelayerRefundLeaves spokePoolClients ledger''
              (sendingExecutionsEnabled config) latestInvalidBundleStartBlocks]
      else [])"

definition plannedRequests ::
  "DataworkerConfig \<Rightarrow> 'sp option \<Rightarrow> blockMap \<Rightarrow> 'ba \<Rightarrow> 'ba \<Rightarrow> 'ba \<Rightarrow> ('sp, 'ba) request list" where
  "plannedRequests config spokePoolClients latestInvalidBundleStartBlocks
       ledger ledger' ledger'' =
     disputerRequests config spokePoolClients latestInvalidBundleStartBlocks
     @ proposerRequests config spokePoolClients latestInvalidBundleStartBlocks
     @ executorRequests config spokePoolClients latestInvalidBundleStartBlocks
         ledger ledger' ledger''
     @ [ExecuteTransactionQueue, ProcessEndPollingLoop (pollingDelay config)]"

text \<open>
  A monitor of the ledgers the execution calls of a run are given. Its state is the
  ledger in the balance allocator of the iteration under way, if the iteration has one;
  \<open>None\<close> is a violation. An iteration starts (at the refresh of the clients) with no
  allocator. The pool rebalance execution must come when the iteration has none, and be
  given the ledger of a new allocator, \<open>new BalanceAllocator(spokePoolClientsToProviders(...))\<close>
  on the clients it is given itself. The slow relay and relayer refund executions must
  be given the ledger that the execution before them left in the allocator.
\<close>

fun ledgerStep ::
  "('w, 'sp, 'pv, 'ba) collaborators \<Rightarrow> 'ba option option \<Rightarrow> ('sp, 'ba) received
     \<Rightarrow> 'ba option option" where
  "ledgerStep E None c = None"
| "ledgerStep E (Some current) (UpdateDataworkerClients, rep) = Some None"
| "ledgerStep E (Some current) (ExecutePoolRebalanceLeaves clients ledger sending blocks, rep) =
     (if current = None
         \<and> (case spokePoolClientsToProviders E clients of
               Inl e \<Rightarrow> False
             | Inr providers \<Rightarrow> ledger = newBalanceAllocator E providers)
      then (case rep of Executed ledger' \<Rightarrow> Some (Some ledger') | other \<Rightarrow> Some None)
      else None)"
| "ledgerStep E (Some current) (ExecuteSlowRelayLeaves clients ledger sending blocks, rep) =
     (if current = Some ledger
      then (case rep of Executed ledger' \<Rightarrow> Some (Some ledger') | other \<Rightarrow> Some None)
      else None)"
| "ledgerStep E (Some current) (ExecuteRelayerRefundLeaves clients ledger sending blocks, rep) =
     (if current = Some ledger
      then (case rep of Executed ledger' \<Rightarrow> Some (Some ledger') | other \<Rightarrow> Some None)
      else None)"
| "ledgerStep E (Some current) c = Some current"

definition ledgerMonitor ::
  "('w, 'sp, 'pv, 'ba) collaborators \<Rightarrow> 'ba option option \<Rightarrow> ('sp, 'ba) received list
     \<Rightarrow> 'ba option option" where
  "ledgerMonitor E s calls = foldl (ledgerStep E) s calls"

text \<open>
  A monitor of the spoke pool clients and invalid bundle start blocks that the calls of
  a run are given. Its state is the clients constructed by the last fetch of the
  iteration under way, if a fetch of the iteration has constructed any; \<open>None\<close> is a
  violation. An iteration starts with none. A fetch made while the iteration has none
  must be given the configuration itself. A call that takes the clients and the start
  blocks must be given the clients of the state and the value of
  \<open>getLatestInvalidBundleStartBlocks\<close> on them, or no clients and the empty map when
  the iteration has constructed none.
\<close>

definition fromLastFetch ::
  "('w, 'sp, 'pv, 'ba) collaborators \<Rightarrow> 'sp option \<Rightarrow> 'sp option \<Rightarrow> blockMap \<Rightarrow> bool" where
  "fromLastFetch E current clients blocks =
     (clients = current
      \<and> (case current of
            None \<Rightarrow> blocks = []
          | Some constructedClients \<Rightarrow>
              getLatestInvalidBundleStartBlocks E constructedClients = Inr blocks))"

fun resolverStep ::
  "('w, 'sp, 'pv, 'ba) collaborators \<Rightarrow> DataworkerConfig \<Rightarrow> 'sp option option
     \<Rightarrow> ('sp, 'ba) received \<Rightarrow> 'sp option option" where
  "resolverStep E config None c = None"
| "resolverStep E config (Some current) (UpdateDataworkerClients, rep) = Some None"
| "resolverStep E config (Some current) (ConstructSpokePoolClients customConfig fromB toB, rep) =
     (if current = None \<and> customConfig \<noteq> config then None
      else (case rep of Constructed clients \<Rightarrow> Some (Some clients) | other \<Rightarrow> Some current))"
| "resolverStep E config (Some current) (ValidatePendingRootBundle clients sending blocks, rep) =
     (if fromLastFetch E current clients blocks then Some current else None)"
| "resolverStep E config (Some current) (ProposeRootBundle clients threshold sending blocks, rep) =
     (if fromLastFetch E current clients blocks then Some current else None)"
| "resolverStep E config (Some current)
       (ExecutePoolRebalanceLeaves clients ledger sending blocks, rep) =
     (if fromLastFetch E current clients blocks then Some current else None)"
| "resolverStep E config (Some current)
       (ExecuteSlowRelayLeaves clients ledger sending blocks, rep) =
     (if fromLastFetch E current clients blocks then Some current else None)"
| "resolverStep E config (Some current)
       (ExecuteRelayerRefundLeaves clients ledger sending blocks, rep) =
     (if fromLastFetch E current clients blocks then Some current else None)"
| "resolverStep E config (Some current) c = Some current"

definition resolverMonitor ::
  "('w, 'sp, 'pv, 'ba) collaborators \<Rightarrow> DataworkerConfig \<Rightarrow> 'sp option option
     \<Rightarrow> ('sp, 'ba) received list \<Rightarrow> 'sp option option" where
  "resolverMonitor E config s calls = foldl (resolverStep E config) s calls"

section \<open>Example collaborators\<close>

text \<open>
  A world that counts the fetches made. The spoke pool clients of a fetch are named by
  the lookback count they were built with; chain 1 has its invalid bundle start block at
  \<open>120 - lookback\<close>, and the latest fully executed bundle ended at blocks 50 and 60 of
  chains 1 and 10. A balance allocator is a ledger of one balance. The configuration is
  given its polling delay (\<open>processEndPollingLoop\<close> is true when the delay is zero)
  and the collaborators the answer of \<open>proposeRootBundle\<close>.
\<close>

definition exampleConfig :: "int \<Rightarrow> DataworkerConfig" where
  "exampleConfig delay =
     \<lparr>dataworkerFastLookbackCount = 16,
      dataworkerFastLookbackRetryCount = 2,
      dataworkerFastLookbackRetryMultiplier = 2,
      disputerEnabled = True,
      sendingDisputesEnabled = False,
      proposerEnabled = True,
      rootBundleExecutionThreshold = 7,
      sendingProposalsEnabled = True,
      executorEnabled = True,
      sendingExecutionsEnabled = True,
      pollingDelay = delay\<rparr>"

definition exampleCollaborators :: "error + unit \<Rightarrow> (nat, int, unit, int) collaborators" where
  "exampleCollaborators proposerAnswer =
     \<lparr>newDataworkerConfig = Inr (exampleConfig 0),
      constructDataworkerClients = (\<lambda>w config. (Inr (), w)),
      chainIdListForBundleEvaluationBlockNumbers = [1, 10],
      updateDataworkerClients = (\<lambda>w. (Inr (), w)),
      getLatestFullyExecutedRootBundle = (\<lambda>w. Inr (Some [50, 60])),
      getSpokePoolClientEventSearchConfigsForFastDataworker =
        (\<lambda>w config. Inr \<lparr>fromBlocks = [(1, 100 - dataworkerFastLookbackCount config)],
                          toBlocks = [(1, 100)]\<rparr>),
      constructSpokePoolClientsForFastDataworker =
        (\<lambda>w config fromB toB. (Inr (dataworkerFastLookbackCount config), Suc w)),
      getLatestInvalidBundleStartBlocks = (\<lambda>lookback. Inr [(1, 120 - lookback)]),
      validatePendingRootBundle = (\<lambda>w clients sending blocks. (Inr (), w)),
      proposeRootBundle = (\<lambda>w clients threshold sending blocks. (proposerAnswer, w)),
      spokePoolClientsToProviders =
        (\<lambda>clients. case clients of None \<Rightarrow> Inl TypeError | Some c \<Rightarrow> Inr ()),
      newBalanceAllocator = (\<lambda>providers. 1000),
      executePoolRebalanceLeaves = (\<lambda>w clients b sending blocks. (Inr (), w, b - 100)),
      executeSlowRelayLeaves = (\<lambda>w clients b sending blocks. (Inr (), w, b - 10)),
      executeRelayerRefundLeaves = (\<lambda>w clients b sending blocks. (Inr (), w, b - 1)),
      executeTransactionQueue = (\<lambda>w. (Inr (), w)),
      processEndPollingLoop = (\<lambda>w delay. (Inr (delay = 0), w)),
      redisClientDefined = (\<lambda>w. True),
      redisDisconnect = (\<lambda>w. w)\<rparr>"

definition initialState :: "(nat, int) pstate" where
  "initialState = \<lparr>world = 0, heap = [], trace = []\<rparr>"

text \<open>The initial state for collaborators that keep a record.\<close>

definition recordingState :: "(nat \<times> (int, int) received list, int) pstate" where
  "recordingState = \<lparr>world = (0, []), heap = [], trace = []\<rparr>"

text \<open>
  What the example collaborators receive in one iteration with the example configuration:
  three fetches, with lookback counts 16, 32 and 64, of which the last still leaves the
  invalid start block of chain 1 at 56, above the end block 50; then the calls after the
  retry loop, all of them when \<open>proposeRootBundle\<close> is fulfilled and none after it when
  it is rejected.
\<close>

definition exampleFetches :: "int \<Rightarrow> (int, int) received list" where
  "exampleFetches delay =
     [(ConstructSpokePoolClients (exampleConfig delay) [(1, 84)] [(1, 100)], Constructed 16),
      (ConstructSpokePoolClients ((exampleConfig delay)\<lparr>dataworkerFastLookbackCount := 32\<rparr>)
         [(1, 68)] [(1, 100)], Constructed 32),
      (ConstructSpokePoolClients ((exampleConfig delay)\<lparr>dataworkerFastLookbackCount := 64\<rparr>)
         [(1, 36)] [(1, 100)], Constructed 64)]"

definition exampleIterationCalls :: "int \<Rightarrow> (int, int) received list" where
  "exampleIterationCalls delay =
     (UpdateDataworkerClients, Fulfilled) # exampleFetches delay
     @ [(ValidatePendingRootBundle (Some 64) False [(1, 56)], Fulfilled),
        (ProposeRootBundle (Some 64) 7 True [(1, 56)], Fulfilled),
        (ExecutePoolRebalanceLeaves (Some 64) 1000 True [(1, 56)], Executed 900),
        (ExecuteSlowRelayLeaves (Some 64) 900 True [(1, 56)], Executed 890),
        (ExecuteRelayerRefundLeaves (Some 64) 890 True [(1, 56)], Executed 889),
        (ExecuteTransactionQueue, Fulfilled),
        (ProcessEndPollingLoop delay, Answered (delay = 0))]"

definition exampleRejectedCalls :: "error \<Rightarrow> int \<Rightarrow> (int, int) received list" where
  "exampleRejectedCalls e delay =
     (UpdateDataworkerClients, Fulfilled) # exampleFetches delay
     @ [(ValidatePendingRootBundle (Some 64) False [(1, 56)], Fulfilled),
        (ProposeRootBundle (Some 64) 7 True [(1, 56)], Rejected e)]"

text \<open>
  Collaborators whose synchronous reads throw: the latest fully executed bundle cannot be
  read, the search configurations cannot be computed for a lookback count of zero, and
  the invalid bundle start blocks of no clients can be computed.
\<close>

definition faultyCollaborators :: "error \<Rightarrow> (nat, int, unit, int) collaborators" where
  "faultyCollaborators e =
     (exampleCollaborators (Inr ()))
       \<lparr>getLatestFullyExecutedRootBundle := (\<lambda>w. Inl e),
        getSpokePoolClientEventSearchConfigsForFastDataworker :=
          (\<lambda>w config.
             if dataworkerFastLookbackCount config = 0 then Inl e
             else Inr \<lparr>fromBlocks = [(1, 100 - dataworkerFastLookbackCount config)],
                       toBlocks = [(1, 100)]\<rparr>),
        getLatestInvalidBundleStartBlocks := (\<lambda>lookback. Inl e)\<rparr>"

definition exampleContracts :: contractAddresses where
  "exampleContracts =
     (\<lambda>chainId.
        if chainId = 1 then
          Some (\<lambda>name.
            if name = ''scrollGatewayRouter'' then Some \<lparr>address = ''0xF8B1'', abi = ''router''\<rparr>
            else if name = ''atomicDepositor'' then Some \<lparr>address = ''0xA70d'', abi = ''depositor''\<rparr>
            else None)
        else if chainId = 534352 then
          Some (\<lambda>name.
            if name = ''scrollGatewayRouter'' then Some \<lparr>address = ''0x4C0a'', abi = ''router''\<rparr>
            else None)
        else None)"

definition exampleEnv :: ProcessEnv where
  "exampleEnv =
     [''SEND_RELAYS'' \<mapsto> ''true'', ''MAX_RELAYER_DEPOSIT_LOOK_BACK'' \<mapsto> '''']"

section \<open>Properties\<close>

declare retryLoop.simps [simp del]

subsection \<open>Sequencing and single calls\<close>

lemma andThenE:
  assumes "andThen m f = (r, st')"
  obtains (fails) e where "m = (Inl e, st')" "r = Inl e"
        | (continues) a st1 where "m = (Inr a, st1)" "f a st1 = (r, st')"
  using assms by (auto simp: andThen_def split: prod.splits sum.splits)

lemma call_trace:
  "call ev f st = (r, st') \<Longrightarrow> trace st' = trace st @ [ev] \<and> heap st' = heap st"
  by (auto simp: call_def split: prod.splits)

lemma callWithAllocator_trace:
  "callWithAllocator ev ref f st = (r, st') \<Longrightarrow>
     trace st' = trace st @ [ev] \<and> length (heap st') = length (heap st)"
  by (auto simp: callWithAllocator_def split: prod.splits)

lemma newEvents_append: "trace st' = trace st @ evs \<Longrightarrow> newEvents st st' = evs"
  by (simp add: newEvents_def)

subsection \<open>The retry loop\<close>

lemma retryRound_trace:
  assumes "retryRound E config endBlocks i customConfig st = (r, st')"
  shows "heap st' = heap st"
    and "\<exists>evs. trace st' = trace st @ evs
           \<and> length (filter isFetchRound evs) \<le> 1
           \<and> (\<forall>ev \<in> set evs. roundOf ev = Some (i, dataworkerFastLookbackCount customConfig))"
  using assms
  by (auto simp: retryRound_def andThen_def sync_def call_def
           split: prod.splits sum.splits if_splits)

lemma retryRound_result:
  assumes "retryRound E config endBlocks i customConfig st = (Inr res, st')"
  obtains searchConfigs sp ivb w' where
    "getSpokePoolClientEventSearchConfigsForFastDataworker E (world st) customConfig
       = Inr searchConfigs"
    "constructSpokePoolClientsForFastDataworker E (world st) customConfig
       (fromBlocks searchConfigs) (toBlocks searchConfigs) = (Inr sp, w')"
    "getLatestInvalidBundleStartBlocks E sp = Inr ivb"
    "res = (if lookbackInsufficient ivb endBlocks
            then Widened
                   (customConfig\<lparr>dataworkerFastLookbackCount :=
                      dataworkerFastLookbackCount customConfig
                        * dataworkerFastLookbackRetryMultiplier config\<rparr>) sp ivb
            else Break sp ivb)"
proof -
  from assms obtain searchConfigs where
    s: "getSpokePoolClientEventSearchConfigsForFastDataworker E (world st) customConfig
          = Inr searchConfigs"
    by (cases "getSpokePoolClientEventSearchConfigsForFastDataworker E (world st) customConfig")
       (auto simp: retryRound_def andThen_def call_def)
  obtain x w' where
    c: "constructSpokePoolClientsForFastDataworker E (world st) customConfig
          (fromBlocks searchConfigs) (toBlocks searchConfigs) = (x, w')"
    by (cases "constructSpokePoolClientsForFastDataworker E (world st) customConfig
          (fromBlocks searchConfigs) (toBlocks searchConfigs)")
  from assms s c obtain sp where sp: "x = Inr sp"
    by (cases x) (auto simp: retryRound_def andThen_def call_def)
  from assms s c sp obtain ivb where g: "getLatestInvalidBundleStartBlocks E sp = Inr ivb"
    by (cases "getLatestInvalidBundleStartBlocks E sp")
       (auto simp: retryRound_def andThen_def call_def sync_def)
  from assms s c sp g have
    "res = (if lookbackInsufficient ivb endBlocks
            then Widened
                   (customConfig\<lparr>dataworkerFastLookbackCount :=
                      dataworkerFastLookbackCount customConfig
                        * dataworkerFastLookbackRetryMultiplier config\<rparr>) sp ivb
            else Break sp ivb)"
    by (auto simp: retryRound_def andThen_def call_def sync_def split: if_splits)
  with s c [unfolded sp] g show thesis by (rule that)
qed

lemma retryLoop_trace:
  "retryLoop E config endBlocks i customConfig spc ivb st = (r, st') \<Longrightarrow>
     heap st' = heap st
     \<and> (\<exists>evs. trace st' = trace st @ evs
          \<and> length (filter isFetchRound evs)
               \<le> nat (dataworkerFastLookbackRetryCount config + 1 - int i)
          \<and> (\<forall>ev \<in> set evs. \<exists>j. i \<le> j \<and> int j \<le> dataworkerFastLookbackRetryCount config
                \<and> roundOf ev = Some (j, dataworkerFastLookbackCount customConfig
                      * dataworkerFastLookbackRetryMultiplier config ^ (j - i))))"
proof (induction E config endBlocks i customConfig spc ivb st arbitrary: r st'
       rule: retryLoop.induct)
  case (1 E config endBlocks i customConfig spc ivb st)
  let ?rc = "dataworkerFastLookbackRetryCount config"
  let ?m = "dataworkerFastLookbackRetryMultiplier config"
  let ?lb = "dataworkerFastLookbackCount customConfig"
  show ?case
  proof (cases "int i \<le> ?rc")
    case False
    with "1.prems" show ?thesis by (simp add: retryLoop.simps)
  next
    case True
    obtain x st1 where rr: "retryRound E config endBlocks i customConfig st = (x, st1)"
      by (cases "retryRound E config endBlocks i customConfig st")
    from retryRound_trace [OF rr] obtain evs1 where
      h1: "heap st1 = heap st" and t1: "trace st1 = trace st @ evs1"
      and f1: "length (filter isFetchRound evs1) \<le> 1"
      and r1: "\<forall>ev \<in> set evs1. roundOf ev = Some (i, ?lb)" by blast
    from r1 True have r1': "\<forall>ev \<in> set evs1. \<exists>j. i \<le> j \<and> int j \<le> ?rc
        \<and> roundOf ev = Some (j, ?lb * ?m ^ (j - i))"
      by (intro ballI exI [of _ i]) simp
    show ?thesis
    proof (cases x)
      case (Inl e)
      with "1.prems" True rr have "st' = st1" by (simp add: retryLoop.simps [of _ _ _ i])
      with h1 t1 f1 r1' True show ?thesis by (intro conjI exI [of _ evs1]) auto
    next
      case (Inr res)
      show ?thesis
      proof (cases res)
        case (Break sp ivb')
        with "1.prems" True rr Inr have "st' = st1" by (simp add: retryLoop.simps [of _ _ _ i])
        with h1 t1 f1 r1' True show ?thesis by (intro conjI exI [of _ evs1]) auto
      next
        case (Widened cc' sp' ivb')
        with "1.prems" True rr Inr have
          rec: "retryLoop E config endBlocks (Suc i) cc' (Some sp') ivb' st1 = (r, st')"
          by (simp add: retryLoop.simps [of _ _ _ i])
        from rr [unfolded Inr] Widened have
          cc': "dataworkerFastLookbackCount cc' = ?lb * ?m"
          by (elim retryRound_result) (auto split: if_splits)
        from "1.IH" [OF True rr [symmetric] Inr Widened rec] obtain evs2 where
          h2: "heap st' = heap st1" and t2: "trace st' = trace st1 @ evs2"
          and f2: "length (filter isFetchRound evs2) \<le> nat (?rc + 1 - int (Suc i))"
          and r2: "\<forall>ev \<in> set evs2. \<exists>j. Suc i \<le> j \<and> int j \<le> ?rc
                \<and> roundOf ev = Some (j, dataworkerFastLookbackCount cc' * ?m ^ (j - Suc i))"
          by blast
        have r2': "\<forall>ev \<in> set evs2. \<exists>j. i \<le> j \<and> int j \<le> ?rc
                \<and> roundOf ev = Some (j, ?lb * ?m ^ (j - i))"
        proof
          fix ev assume "ev \<in> set evs2"
          with r2 obtain j where j: "Suc i \<le> j" "int j \<le> ?rc"
            "roundOf ev = Some (j, dataworkerFastLookbackCount cc' * ?m ^ (j - Suc i))" by blast
          from j(1) have "j - i = Suc (j - Suc i)" by simp
          then have "?lb * ?m ^ (j - i) = dataworkerFastLookbackCount cc' * ?m ^ (j - Suc i)"
            by (simp add: cc')
          with j show "\<exists>j. i \<le> j \<and> int j \<le> ?rc \<and> roundOf ev = Some (j, ?lb * ?m ^ (j - i))"
            by (intro exI [of _ j]) simp
        qed
        from f1 f2 True have
          "length (filter isFetchRound (evs1 @ evs2)) \<le> nat (?rc + 1 - int i)" by simp
        with h1 h2 t1 t2 r1' r2' show ?thesis
          by (intro conjI exI [of _ "evs1 @ evs2"]) auto
      qed
    qed
  qed
qed

lemma retryLoop_result:
  "retryLoop E config endBlocks i customConfig spc ivb st = (Inr (spc', ivb'), st') \<Longrightarrow>
     (\<not> int i \<le> dataworkerFastLookbackRetryCount config \<and> spc' = spc \<and> ivb' = ivb \<and> st' = st)
     \<or> (int i \<le> dataworkerFastLookbackRetryCount config
         \<and> (\<exists>sp w cc fromB toB w'. spc' = Some sp
              \<and> constructSpokePoolClientsForFastDataworker E w cc fromB toB = (Inr sp, w')
              \<and> getLatestInvalidBundleStartBlocks E sp = Inr ivb'))"
proof (induction E config endBlocks i customConfig spc ivb st arbitrary: st'
       rule: retryLoop.induct)
  case (1 E config endBlocks i customConfig spc ivb st)
  let ?rc = "dataworkerFastLookbackRetryCount config"
  show ?case
  proof (cases "int i \<le> ?rc")
    case False
    with "1.prems" show ?thesis by (simp add: retryLoop.simps)
  next
    case True
    obtain x st1 where rr: "retryRound E config endBlocks i customConfig st = (x, st1)"
      by (cases "retryRound E config endBlocks i customConfig st")
    show ?thesis
    proof (cases x)
      case (Inl e)
      with "1.prems" True rr show ?thesis by (simp add: retryLoop.simps [of _ _ _ i])
    next
      case (Inr res)
      from rr [unfolded Inr] obtain sp b w fromB toB w' where
        c: "constructSpokePoolClientsForFastDataworker E w customConfig fromB toB = (Inr sp, w')"
        and g: "getLatestInvalidBundleStartBlocks E sp = Inr b"
        and res: "res = Break sp b \<or> (\<exists>cc'. res = Widened cc' sp b)"
        by (elim retryRound_result) (auto split: if_splits)
      from res show ?thesis
      proof
        assume "res = Break sp b"
        with "1.prems" True rr Inr have "spc' = Some sp" "ivb' = b"
          by (simp_all add: retryLoop.simps [of _ _ _ i])
        with True c g show ?thesis by blast
      next
        assume "\<exists>cc'. res = Widened cc' sp b"
        then obtain cc' where w: "res = Widened cc' sp b" ..
        with "1.prems" True rr Inr have
          rec: "retryLoop E config endBlocks (Suc i) cc' (Some sp) b st1 = (Inr (spc', ivb'), st')"
          by (simp add: retryLoop.simps [of _ _ _ i])
        from "1.IH" [OF True rr [symmetric] Inr w rec] True c g show ?thesis by blast
      qed
    qed
  qed
qed

subsection \<open>The calls after the retry loop\<close>

lemma disputerStep_trace:
  "disputerStep E config spc ivb st = (r, st') \<Longrightarrow>
     trace st' = trace st @ disputerCalls config ivb \<and> heap st' = heap st"
  by (auto simp: disputerStep_def disputerCalls_def dest: call_trace split: if_splits)

lemma proposerStep_trace:
  "proposerStep E config spc ivb st = (r, st') \<Longrightarrow>
     trace st' = trace st @ proposerCalls config ivb \<and> heap st' = heap st"
  by (auto simp: proposerStep_def proposerCalls_def dest: call_trace split: if_splits)

lemma allocateBalanceAllocator_trace:
  "allocateBalanceAllocator E spc st = (r, st') \<Longrightarrow>
     (\<exists>e. r = Inl e \<and> st' = st)
     \<or> (r = Inr (length (heap st))
         \<and> trace st' = trace st @ [EvNewBalanceAllocator (length (heap st))]
         \<and> length (heap st') = Suc (length (heap st)))"
  by (auto simp: allocateBalanceAllocator_def split: sum.splits)

lemma executorStep_trace:
  assumes "executorStep E config spc ivb st = (r, st')"
  shows "\<exists>evs. trace st' = trace st @ evs
           \<and> prefix evs (executorCalls config (length (heap st)) ivb)
           \<and> (\<forall>u. r = Inr u \<longrightarrow> evs = executorCalls config (length (heap st)) ivb)
           \<and> length (heap st') = (if evs = [] then length (heap st) else Suc (length (heap st)))"
proof (cases "executorEnabled config")
  case False
  with assms show ?thesis by (simp add: executorStep_def executorCalls_def)
next
  case True
  let ?ref = "length (heap st)"
  let ?sending = "sendingExecutionsEnabled config"
  from assms True have
    "andThen (allocateBalanceAllocator E spc st)
       (\<lambda>balanceAllocator st.
     andThen
       (callWithAllocator (EvExecutePoolRebalanceLeaves balanceAllocator ?sending ivb)
          balanceAllocator (\<lambda>w b. executePoolRebalanceLeaves E w spc b ?sending ivb) st)
       (\<lambda>_ st.
     andThen
       (callWithAllocator (EvExecuteSlowRelayLeaves balanceAllocator ?sending ivb)
          balanceAllocator (\<lambda>w b. executeSlowRelayLeaves E w spc b ?sending ivb) st)
       (\<lambda>_ st.
     callWithAllocator (EvExecuteRelayerRefundLeaves balanceAllocator ?sending ivb)
       balanceAllocator (\<lambda>w b. executeRelayerRefundLeaves E w spc b ?sending ivb) st)))
     = (r, st')"
    by (simp add: executorStep_def)
  then show ?thesis
  proof (cases rule: andThenE)
    case (fails e)
    with allocateBalanceAllocator_trace [OF fails(1)] show ?thesis by auto
  next
    case (continues ref st1)
    from allocateBalanceAllocator_trace [OF continues(1)] have
      ref: "ref = ?ref" and t1: "trace st1 = trace st @ [EvNewBalanceAllocator ?ref]"
      and h1: "length (heap st1) = Suc ?ref" by auto
    from continues(2) show ?thesis
    proof (cases rule: andThenE)
      case (fails e)
      with callWithAllocator_trace [OF fails(1)] t1 h1 ref True show ?thesis
        by (simp add: executorCalls_def)
    next
      case (continues u st2)
      note c2 = this
      from callWithAllocator_trace [OF c2(1)] t1 h1 ref have
        t2: "trace st2 = trace st @ [EvNewBalanceAllocator ?ref,
               EvExecutePoolRebalanceLeaves ?ref ?sending ivb]"
        and h2: "length (heap st2) = Suc ?ref" by simp_all
      from c2(2) show ?thesis
      proof (cases rule: andThenE)
        case (fails e)
        with callWithAllocator_trace [OF fails(1)] t2 h2 ref True show ?thesis
          by (simp add: executorCalls_def)
      next
        case (continues u' st3)
        from callWithAllocator_trace [OF continues(1)] callWithAllocator_trace [OF continues(2)]
          t2 h2 ref True
        show ?thesis by (simp add: executorCalls_def)
      qed
    qed
  qed
qed

lemma afterResolve_trace:
  assumes "afterResolve E config spc ivb st = (r, st')"
  shows "\<exists>evs. trace st' = trace st @ evs
           \<and> prefix evs (plannedCalls config (length (heap st)) ivb)
           \<and> (\<forall>b. r = Inr b \<longrightarrow> evs = plannedCalls config (length (heap st)) ivb)
           \<and> length (heap st')
               = (if EvNewBalanceAllocator (length (heap st)) \<in> set evs
                  then Suc (length (heap st)) else length (heap st))"
  using assms unfolding afterResolve_def
proof (cases rule: andThenE)
  case (fails e)
  with disputerStep_trace [OF fails(1)] show ?thesis
    by (auto simp: plannedCalls_def disputerCalls_def)
next
  case (continues u1 st1)
  note c1 = this
  note d = disputerStep_trace [OF c1(1)]
  from c1(2) show ?thesis
  proof (cases rule: andThenE)
    case (fails e)
    with proposerStep_trace [OF fails(1)] d show ?thesis
      by (auto simp: plannedCalls_def disputerCalls_def proposerCalls_def)
  next
    case (continues u2 st2)
    note c2 = this
    note p = proposerStep_trace [OF c2(1)]
    from d p have h2: "heap st2 = heap st"
      and t2: "trace st2 = trace st @ disputerCalls config ivb @ proposerCalls config ivb"
      by simp_all
    have none: "EvNewBalanceAllocator n \<notin> set (disputerCalls config ivb)"
      "EvNewBalanceAllocator n \<notin> set (proposerCalls config ivb)" for n
      by (simp_all add: disputerCalls_def proposerCalls_def)
    from c2(2) show ?thesis
    proof (cases rule: andThenE)
      case (fails e)
      from executorStep_trace [OF fails(1)] h2 obtain evs where
        x: "trace st' = trace st2 @ evs" "prefix evs (executorCalls config (length (heap st)) ivb)"
           "length (heap st') = (if evs = [] then length (heap st) else Suc (length (heap st)))"
        by auto
      from x(2) have "evs \<noteq> [] \<longleftrightarrow> EvNewBalanceAllocator (length (heap st)) \<in> set evs"
        by (auto simp: executorCalls_def prefix_Cons split: if_splits)
      with x t2 fails(2) none show ?thesis
        by (intro exI [of _ "disputerCalls config ivb @ proposerCalls config ivb @ evs"])
           (auto simp: plannedCalls_def)
    next
      case (continues u3 st3)
      note c3 = this
      from executorStep_trace [OF c3(1)] h2 t2 have
        t3: "trace st3 = trace st @ disputerCalls config ivb @ proposerCalls config ivb
              @ executorCalls config (length (heap st)) ivb"
        and h3: "length (heap st3) = (if executorCalls config (length (heap st)) ivb = []
                   then length (heap st) else Suc (length (heap st)))" by auto
      have "executorCalls config (length (heap st)) ivb \<noteq> []
              \<longleftrightarrow> EvNewBalanceAllocator (length (heap st))
                    \<in> set (executorCalls config (length (heap st)) ivb)"
        by (simp add: executorCalls_def)
      from c3(2) show ?thesis
      proof (cases rule: andThenE)
        case (fails e)
        with call_trace [OF fails(1)] t3 h3 none show ?thesis
          by (intro exI [of _ "disputerCalls config ivb @ proposerCalls config ivb
                @ executorCalls config (length (heap st)) ivb @ [EvExecuteTransactionQueue]"])
             (auto simp: plannedCalls_def executorCalls_def)
      next
        case (continues u4 st4)
        with call_trace [OF continues(1)] call_trace [OF continues(2)] t3 h3 none show ?thesis
          by (intro exI [of _ "plannedCalls config (length (heap st)) ivb"])
             (auto simp: plannedCalls_def executorCalls_def)
      qed
    qed
  qed
qed

subsection \<open>One iteration\<close>

lemma resolveBlockRanges_trace:
  assumes "resolveBlockRanges E config st = (r, st')"
  shows "heap st' = heap st
     \<and> (\<exists>evs. trace st' = trace st @ EvUpdateDataworkerClients # evs
          \<and> length (filter isFetchRound evs) \<le> nat (dataworkerFastLookbackRetryCount config + 1)
          \<and> (\<forall>ev \<in> set evs. \<exists>j. int j \<le> dataworkerFastLookbackRetryCount config
                \<and> roundOf ev = Some (j, dataworkerFastLookbackCount config
                      * dataworkerFastLookbackRetryMultiplier config ^ j)))"
  using assms unfolding resolveBlockRanges_def
proof (cases rule: andThenE)
  case (fails e)
  with call_trace [OF fails(1)] show ?thesis by simp
next
  case (continues u st1)
  note c1 = this
  note u = call_trace [OF c1(1)]
  from c1(2) show ?thesis
  proof (cases rule: andThenE)
    case (fails e)
    with u show ?thesis by (simp add: sync_def)
  next
    case (continues endBlocks st2)
    then have "st2 = st1" by (simp add: sync_def)
    with retryLoop_trace [OF continues(2)] u show ?thesis by auto
  qed
qed

lemma loopIteration_resolve:
  "loopIteration E config st =
     andThen (resolveBlockRanges E config st)
       (\<lambda>(spc, ivb) st. afterResolve E config spc ivb st)"
  by (simp add: loopIteration_def resolveBlockRanges_def iterationFromRound_def andThen_def
           split: prod.splits sum.splits)

lemma loopIteration_trace:
  assumes "loopIteration E config st = (r, st')"
  shows "\<exists>evs calls ivb.
           trace st' = trace st @ EvUpdateDataworkerClients # evs @ calls
           \<and> length (filter isFetchRound evs) \<le> nat (dataworkerFastLookbackRetryCount config + 1)
           \<and> (\<forall>ev \<in> set evs. \<exists>j. int j \<le> dataworkerFastLookbackRetryCount config
                \<and> roundOf ev = Some (j, dataworkerFastLookbackCount config
                      * dataworkerFastLookbackRetryMultiplier config ^ j))
           \<and> prefix calls (plannedCalls config (length (heap st)) ivb)
           \<and> (\<forall>b. r = Inr b \<longrightarrow> calls = plannedCalls config (length (heap st)) ivb)
           \<and> length (heap st')
               = (if EvNewBalanceAllocator (length (heap st)) \<in> set calls
                  then Suc (length (heap st)) else length (heap st))"
  using assms unfolding loopIteration_resolve
proof (cases rule: andThenE)
  case (fails e)
  from resolveBlockRanges_trace [OF fails(1)] obtain evs where
    e: "heap st' = heap st" "trace st' = trace st @ EvUpdateDataworkerClients # evs"
       "length (filter isFetchRound evs) \<le> nat (dataworkerFastLookbackRetryCount config + 1)"
       "\<forall>ev \<in> set evs. \<exists>j. int j \<le> dataworkerFastLookbackRetryCount config
                \<and> roundOf ev = Some (j, dataworkerFastLookbackCount config
                      * dataworkerFastLookbackRetryMultiplier config ^ j)" by blast
  with fails(2) show ?thesis
    by (intro exI [of _ evs] exI [of _ "[]"]) simp
next
  case (continues a st1)
  obtain spc ivb where a: "a = (spc, ivb)" by (cases a)
  from resolveBlockRanges_trace [OF continues(1)] obtain evs where
    e: "heap st1 = heap st" "trace st1 = trace st @ EvUpdateDataworkerClients # evs"
       "length (filter isFetchRound evs) \<le> nat (dataworkerFastLookbackRetryCount config + 1)"
       "\<forall>ev \<in> set evs. \<exists>j. int j \<le> dataworkerFastLookbackRetryCount config
                \<and> roundOf ev = Some (j, dataworkerFastLookbackCount config
                      * dataworkerFastLookbackRetryMultiplier config ^ j)" by blast
  from continues(2) a have "afterResolve E config spc ivb st1 = (r, st')" by simp
  from afterResolve_trace [OF this] e(1) obtain calls where
    c: "trace st' = trace st1 @ calls"
       "prefix calls (plannedCalls config (length (heap st)) ivb)"
       "\<forall>b. r = Inr b \<longrightarrow> calls = plannedCalls config (length (heap st)) ivb"
       "length (heap st')
               = (if EvNewBalanceAllocator (length (heap st)) \<in> set calls
                  then Suc (length (heap st)) else length (heap st))" by auto
  from e c show ?thesis
    by (intro exI [of _ evs] exI [of _ calls] exI [of _ ivb]) simp
qed

subsection \<open>The example collaborators, evaluated\<close>

lemma andThen_Inl: "andThen (Inl e, st) f = (Inl e, st)"
  by (simp add: andThen_def)

lemma andThen_Inr: "andThen (Inr a, st) f = f a st"
  by (simp add: andThen_def)

lemma example_config:
  "dataworkerFastLookbackCount (exampleConfig d) = 16"
  "dataworkerFastLookbackRetryCount (exampleConfig d) = 2"
  "dataworkerFastLookbackRetryMultiplier (exampleConfig d) = 2"
  "disputerEnabled (exampleConfig d)"
  "\<not> sendingDisputesEnabled (exampleConfig d)"
  "proposerEnabled (exampleConfig d)"
  "rootBundleExecutionThreshold (exampleConfig d) = 7"
  "sendingProposalsEnabled (exampleConfig d)"
  "executorEnabled (exampleConfig d)"
  "sendingExecutionsEnabled (exampleConfig d)"
  "pollingDelay (exampleConfig d) = d"
  by (simp_all add: exampleConfig_def)

lemma example_calls:
  "newDataworkerConfig (exampleCollaborators a) = Inr (exampleConfig 0)"
  "constructDataworkerClients (exampleCollaborators a) w config = (Inr (), w)"
  "updateDataworkerClients (exampleCollaborators a) w = (Inr (), w)"
  "validatePendingRootBundle (exampleCollaborators a) w clients sending blocks = (Inr (), w)"
  "proposeRootBundle (exampleCollaborators a) w clients threshold sending blocks = (a, w)"
  "spokePoolClientsToProviders (exampleCollaborators a) (Some c) = Inr ()"
  "newBalanceAllocator (exampleCollaborators a) providers = 1000"
  "executePoolRebalanceLeaves (exampleCollaborators a) w clients b sending blocks
     = (Inr (), w, b - 100)"
  "executeSlowRelayLeaves (exampleCollaborators a) w clients b sending blocks
     = (Inr (), w, b - 10)"
  "executeRelayerRefundLeaves (exampleCollaborators a) w clients b sending blocks
     = (Inr (), w, b - 1)"
  "executeTransactionQueue (exampleCollaborators a) w = (Inr (), w)"
  "processEndPollingLoop (exampleCollaborators a) w delay = (Inr (delay = 0), w)"
  "redisClientDefined (exampleCollaborators a) w"
  "redisDisconnect (exampleCollaborators a) w = w"
  by (simp_all add: exampleCollaborators_def)

lemma example_fetch:
  "getSpokePoolClientEventSearchConfigsForFastDataworker (exampleCollaborators a) w cc
     = Inr \<lparr>fromBlocks = [(1, 100 - dataworkerFastLookbackCount cc)], toBlocks = [(1, 100)]\<rparr>"
  "constructSpokePoolClientsForFastDataworker (exampleCollaborators a) w cc fromB toB
     = (Inr (dataworkerFastLookbackCount cc), Suc w)"
  "getLatestInvalidBundleStartBlocks (exampleCollaborators a) lookback
     = Inr [(1, 120 - lookback)]"
  by (simp_all add: exampleCollaborators_def)

lemma example_endBlocks:
  "bundleEndBlockMapping (exampleCollaborators a) w = Inr (fromEntries [(1, 50), (10, 60)])"
  by (simp add: bundleEndBlockMapping_def exampleCollaborators_def toNumber_def)

lemma example_insufficient:
  "lookbackInsufficient [(1, b)] (fromEntries [(1, 50), (10, 60)]) = (b > 50)"
  by (simp add: lookbackInsufficient_def fromEntries_def)

lemma example_round:
  "retryRound (exampleCollaborators a) config (fromEntries [(1, 50), (10, 60)]) i cc st =
     (Inr (if 120 - dataworkerFastLookbackCount cc > 50
           then Widened (cc\<lparr>dataworkerFastLookbackCount :=
                  dataworkerFastLookbackCount cc * dataworkerFastLookbackRetryMultiplier config\<rparr>)
                  (dataworkerFastLookbackCount cc) [(1, 120 - dataworkerFastLookbackCount cc)]
           else Break (dataworkerFastLookbackCount cc) [(1, 120 - dataworkerFastLookbackCount cc)]),
      st\<lparr>world := Suc (world st),
         trace := trace st @
           [EvGetEventSearchConfigs i (dataworkerFastLookbackCount cc),
            EvConstructSpokePoolClients i (dataworkerFastLookbackCount cc)
              [(1, 100 - dataworkerFastLookbackCount cc)] [(1, 100)]]\<rparr>)"
  by (simp add: retryRound_def call_def sync_def andThen_Inr example_fetch
        example_insufficient [simplified])

lemma example_loop:
  "retryLoop (exampleCollaborators a) (exampleConfig d) (fromEntries [(1, 50), (10, 60)]) 0
       (exampleConfig d) None [] st
     = (Inr (Some 64, [(1, 56)]),
        st\<lparr>world := Suc (Suc (Suc (world st))),
           trace := trace st @
             [EvGetEventSearchConfigs 0 16,
              EvConstructSpokePoolClients 0 16 [(1, 84)] [(1, 100)],
              EvGetEventSearchConfigs 1 32,
              EvConstructSpokePoolClients 1 32 [(1, 68)] [(1, 100)],
              EvGetEventSearchConfigs 2 64,
              EvConstructSpokePoolClients 2 64 [(1, 36)] [(1, 100)]]\<rparr>)"
  by (simp add: retryLoop.simps [of _ _ _ 0] retryLoop.simps [of _ _ _ "Suc 0"]
        retryLoop.simps [of _ _ _ "Suc (Suc 0)"] retryLoop.simps [of _ _ _ "Suc (Suc (Suc 0))"]
        example_round example_config)

lemma example_afterResolve:
  "afterResolve (exampleCollaborators (Inr ())) (exampleConfig d) (Some c) blocks st
     = (Inr (d = 0),
        st\<lparr>heap := heap st @ [889],
           trace := trace st @ plannedCalls (exampleConfig d) (length (heap st)) blocks\<rparr>)"
  by (simp add: afterResolve_def disputerStep_def proposerStep_def executorStep_def
        allocateBalanceAllocator_def call_def callWithAllocator_def andThen_Inr
        example_calls example_config plannedCalls_def
        disputerCalls_def proposerCalls_def executorCalls_def)

lemma example_afterResolve_rejected:
  "afterResolve (exampleCollaborators (Inl e)) (exampleConfig d) (Some c) blocks st
     = (Inl e,
        st\<lparr>trace := trace st @
             [EvValidatePendingRootBundle False blocks, EvProposeRootBundle 7 True blocks]\<rparr>)"
  by (simp add: afterResolve_def disputerStep_def proposerStep_def
        call_def andThen_Inr andThen_Inl example_calls example_config)

lemma example_iteration:
  "loopIteration (exampleCollaborators (Inr ())) (exampleConfig d) st
     = (Inr (d = 0),
        st\<lparr>world := Suc (Suc (Suc (world st))),
           heap := heap st @ [889],
           trace := trace st @
             [EvUpdateDataworkerClients,
              EvGetEventSearchConfigs 0 16,
              EvConstructSpokePoolClients 0 16 [(1, 84)] [(1, 100)],
              EvGetEventSearchConfigs 1 32,
              EvConstructSpokePoolClients 1 32 [(1, 68)] [(1, 100)],
              EvGetEventSearchConfigs 2 64,
              EvConstructSpokePoolClients 2 64 [(1, 36)] [(1, 100)]]
             @ plannedCalls (exampleConfig d) (length (heap st)) [(1, 56)]\<rparr>)"
  by (simp add: loopIteration_def iterationFromRound_def call_def sync_def andThen_Inr
        example_calls example_endBlocks example_loop example_afterResolve)

lemma example_iteration_rejected:
  "loopIteration (exampleCollaborators (Inl e)) (exampleConfig d) st
     = (Inl e,
        st\<lparr>world := Suc (Suc (Suc (world st))),
           trace := trace st @
             [EvUpdateDataworkerClients,
              EvGetEventSearchConfigs 0 16,
              EvConstructSpokePoolClients 0 16 [(1, 84)] [(1, 100)],
              EvGetEventSearchConfigs 1 32,
              EvConstructSpokePoolClients 1 32 [(1, 68)] [(1, 100)],
              EvGetEventSearchConfigs 2 64,
              EvConstructSpokePoolClients 2 64 [(1, 36)] [(1, 100)],
              EvValidatePendingRootBundle False [(1, 56)],
              EvProposeRootBundle 7 True [(1, 56)]]\<rparr>)"
  by (simp add: loopIteration_def iterationFromRound_def call_def sync_def andThen_Inr
        example_calls example_endBlocks example_loop example_afterResolve_rejected)

lemma example_planned:
  "plannedCalls (exampleConfig d) n blocks =
     [EvValidatePendingRootBundle False blocks,
      EvProposeRootBundle 7 True blocks,
      EvNewBalanceAllocator n,
      EvExecutePoolRebalanceLeaves n True blocks,
      EvExecuteSlowRelayLeaves n True blocks,
      EvExecuteRelayerRefundLeaves n True blocks,
      EvExecuteTransactionQueue,
      EvProcessEndPollingLoop d]"
  by (simp add: plannedCalls_def disputerCalls_def proposerCalls_def executorCalls_def
        example_config)

subsection \<open>Termination of the retry loop\<close>

text \<open>
  Claim C1. The adaptive-retry loop terminates for every input (\<open>retryLoop\<close> is a total
  function: its recursion is justified by the distance of \<open>i\<close> from the retry count), and
  it makes at most \<open>dataworkerFastLookbackRetryCount + 1\<close> fetch rounds, whatever the
  collaborators answer and whether or not the invalid bundle start blocks ever fall below
  the end blocks of the executed bundle. The bound holds for the loop entered from any
  state and for a whole iteration of the top-level loop. (For a retry count below zero
  the loop makes no round at all, and the bound reads zero.)
\<close>

theorem retry_loop_fetch_rounds_bounded:
  "length (filter isFetchRound
       (newEvents st (snd (retryLoop E config endBlocks 0 customConfig spc ivb st))))
     \<le> nat (dataworkerFastLookbackRetryCount config + 1)
   \<and> length (filter isFetchRound (newEvents st (snd (loopIteration E config st))))
     \<le> nat (dataworkerFastLookbackRetryCount config + 1)"
proof
  obtain r st' where loop: "retryLoop E config endBlocks 0 customConfig spc ivb st = (r, st')"
    by (cases "retryLoop E config endBlocks 0 customConfig spc ivb st")
  from retryLoop_trace [OF loop] obtain evs where
    "trace st' = trace st @ evs"
    "length (filter isFetchRound evs) \<le> nat (dataworkerFastLookbackRetryCount config + 1)"
    by auto
  with loop show "length (filter isFetchRound
       (newEvents st (snd (retryLoop E config endBlocks 0 customConfig spc ivb st))))
     \<le> nat (dataworkerFastLookbackRetryCount config + 1)"
    by (simp add: newEvents_append)
next
  obtain r st' where it: "loopIteration E config st = (r, st')"
    by (cases "loopIteration E config st")
  from loopIteration_trace [OF it] obtain evs calls ivb' where
    t: "trace st' = trace st @ EvUpdateDataworkerClients # evs @ calls"
    and f: "length (filter isFetchRound evs) \<le> nat (dataworkerFastLookbackRetryCount config + 1)"
    and p: "prefix calls (plannedCalls config (length (heap st)) ivb')"
    by blast
  have "filter isFetchRound (plannedCalls config n b) = []" for n b
    by (simp add: plannedCalls_def disputerCalls_def proposerCalls_def executorCalls_def)
  with p have "filter isFetchRound calls = []"
    by (metis prefix_def filter_append append_is_Nil_conv)
  with t f it show "length (filter isFetchRound (newEvents st (snd (loopIteration E config st))))
     \<le> nat (dataworkerFastLookbackRetryCount config + 1)"
    by (simp add: newEvents_append)
qed

subsection \<open>The end blocks the retry loop compares with\<close>

lemma bundleEndBlockEntries_spec:
  "bundleEndBlockEntries chainIds ends k = Inr pairs \<Longrightarrow>
     map fst pairs = chainIds
     \<and> (chainIds \<noteq> [] \<longrightarrow> k + length chainIds \<le> length ends)
     \<and> map snd pairs = take (length chainIds) (drop k ends)"
proof (induction chainIds ends k arbitrary: pairs rule: bundleEndBlockEntries.induct)
  case (1 ends index)
  then show ?case by simp
next
  case (2 chainId rest ends index)
  from "2.prems" have inside: "index < length ends"
    by (simp split: if_splits)
  with "2.prems" obtain n where n: "toNumber (ends ! index) = Inr n"
    by (cases "toNumber (ends ! index)") simp_all
  then have n': "n = ends ! index"
    by (simp add: toNumber_def split: if_splits)
  from "2.prems" inside n obtain tl where
    tl: "bundleEndBlockEntries rest ends (Suc index) = Inr tl"
    and pairs: "pairs = (chainId, n) # tl"
    by (cases "bundleEndBlockEntries rest ends (Suc index)") simp_all
  from "2.IH" [OF inside n tl] have
    ih: "map fst tl = rest" "rest \<noteq> [] \<longrightarrow> Suc index + length rest \<le> length ends"
        "map snd tl = take (length rest) (drop (Suc index) ends)" by simp_all
  from inside have "drop index ends = ends ! index # drop (Suc index) ends"
    by (simp add: Cons_nth_drop_Suc)
  with ih pairs n' inside show ?case by (cases rest) simp_all
qed

lemma fromEntries_map_of: "fromEntries pairs = map_of (rev pairs)"
proof -
  let ?f = "\<lambda>(m :: 'a \<rightharpoonup> 'b) (k, v). m(k \<mapsto> v)"
  have "foldl ?f m pairs = m ++ map_of (rev pairs)" for m
  proof (induction pairs arbitrary: m)
    case Nil
    then show ?case by simp
  next
    case (Cons e pairs)
    obtain k v where e: "e = (k, v)" by (cases e)
    have "foldl ?f m (e # pairs) = foldl ?f (m(k \<mapsto> v)) pairs"
      by (simp only: e foldl_Cons prod.case)
    also have "\<dots> = m(k \<mapsto> v) ++ map_of (rev pairs)"
      by (rule Cons.IH)
    also have "\<dots> = m ++ ([k \<mapsto> v] ++ map_of (rev pairs))"
      by (rule ext) (simp add: map_add_def split: option.splits)
    also have "\<dots> = m ++ map_of (rev (e # pairs))"
      by (simp add: e)
    finally show ?case .
  qed
  from this [of Map.empty] show ?thesis by (simp add: fromEntries_def)
qed

text \<open>
  When the chain ids of the dataworker are distinct, the map the retry loop compares
  with gives each chain the bundle evaluation block number that the latest fully
  executed root bundle has at the index of the chain.
\<close>

lemma bundleEndBlockMapping_lookup:
  assumes mapping: "bundleEndBlockMapping E w = Inr endBlocks"
    and ids: "distinct (chainIdListForBundleEvaluationBlockNumbers E)"
    and j: "j < length (chainIdListForBundleEvaluationBlockNumbers E)"
  shows "\<exists>ends. getLatestFullyExecutedRootBundle E w = Inr (Some ends)
           \<and> j < length ends
           \<and> endBlocks (chainIdListForBundleEvaluationBlockNumbers E ! j) = Some (ends ! j)"
proof -
  let ?ids = "chainIdListForBundleEvaluationBlockNumbers E"
  from mapping obtain ends pairs where
    latest: "getLatestFullyExecutedRootBundle E w = Inr (Some ends)"
    and pairs: "bundleEndBlockEntries ?ids ends 0 = Inr pairs"
    and endBlocks: "endBlocks = fromEntries pairs"
    by (auto simp: bundleEndBlockMapping_def split: sum.splits option.splits)
  from bundleEndBlockEntries_spec [OF pairs] have
    keys: "map fst pairs = ?ids" and len: "length ?ids \<le> length ends"
    and vals: "map snd pairs = take (length ?ids) ends" by auto
  from keys have n: "length pairs = length ?ids" by (metis length_map)
  from keys ids have "distinct (map fst (rev pairs))" by (metis distinct_rev rev_map)
  moreover have "(?ids ! j, ends ! j) \<in> set (rev pairs)"
  proof -
    from j n have "pairs ! j \<in> set pairs" by simp
    moreover from j n keys have "fst (pairs ! j) = ?ids ! j" by (metis nth_map)
    moreover from j n vals have "snd (pairs ! j) = ends ! j"
      by (metis nth_map nth_take)
    ultimately show ?thesis by (metis prod.collapse set_rev)
  qed
  ultimately have "map_of (rev pairs) (?ids ! j) = Some (ends ! j)"
    by (rule map_of_is_SomeI)
  with latest len j endBlocks show ?thesis by (simp add: fromEntries_map_of)
qed

lemma loopIteration_enters_loop:
  assumes "updateDataworkerClients E (world st) = (Inr (), w)"
    and "bundleEndBlockMapping E w = Inr endBlocks"
  shows "loopIteration E config st
           = iterationFromRound E config endBlocks 0 config None []
               (st\<lparr>world := w, trace := trace st @ [EvUpdateDataworkerClients]\<rparr>)"
  using assms by (simp add: loopIteration_def call_def sync_def andThen_Inr)

lemma iterationFromRound_widened:
  assumes "int i \<le> dataworkerFastLookbackRetryCount config"
    and "retryRound E config endBlocks i customConfig st
           = (Inr (Widened customConfig' clients invalid), st1)"
  shows "iterationFromRound E config endBlocks i customConfig spc ivb st
           = iterationFromRound E config endBlocks (Suc i) customConfig' (Some clients) invalid st1"
  using assms by (simp add: iterationFromRound_def retryLoop.simps [of _ _ _ i])

subsection \<open>One round of the retry loop\<close>



subsection \<open>The top-level loop\<close>

lemma pollingLoop_add:
  "pollingLoop E config k st = (None, st') \<Longrightarrow>
     pollingLoop E config (k + n) st = pollingLoop E config n st'"
proof (induction k arbitrary: st)
  case 0
  then show ?case by simp
next
  case (Suc k)
  obtain x st1 where it: "loopIteration E config st = (x, st1)"
    by (cases "loopIteration E config st")
  with Suc.prems have x: "x = Inr False" and rest: "pollingLoop E config k st1 = (None, st')"
    by (cases x; auto split: bool.splits)+
  from Suc.IH [OF rest] it x show ?case by simp
qed

subsection \<open>Collaborators that keep a record\<close>

lemma logged_reads:
  "newDataworkerConfig (logged E) = newDataworkerConfig E"
  "chainIdListForBundleEvaluationBlockNumbers (logged E)
     = chainIdListForBundleEvaluationBlockNumbers E"
  "getLatestFullyExecutedRootBundle (logged E) wl = getLatestFullyExecutedRootBundle E (fst wl)"
  "getSpokePoolClientEventSearchConfigsForFastDataworker (logged E) wl config
     = getSpokePoolClientEventSearchConfigsForFastDataworker E (fst wl) config"
  "getLatestInvalidBundleStartBlocks (logged E) = getLatestInvalidBundleStartBlocks E"
  "spokePoolClientsToProviders (logged E) = spokePoolClientsToProviders E"
  "newBalanceAllocator (logged E) = newBalanceAllocator E"
  "redisClientDefined (logged E) wl = redisClientDefined E (fst wl)"
  "redisDisconnect (logged E) wl
     = (redisDisconnect E (fst wl), snd wl @ [(RedisDisconnect, Fulfilled)])"
  by (simp_all add: logged_def)

lemma logged_calls:
  "constructDataworkerClients (logged E) wl config =
     (case constructDataworkerClients E (fst wl) config of
        (r, w) \<Rightarrow> (r, (w, snd wl @ [(ConstructDataworkerClients config, fulfilled r)])))"
  "updateDataworkerClients (logged E) wl =
     (case updateDataworkerClients E (fst wl) of
        (r, w) \<Rightarrow> (r, (w, snd wl @ [(UpdateDataworkerClients, fulfilled r)])))"
  "constructSpokePoolClientsForFastDataworker (logged E) wl config fromB toB =
     (case constructSpokePoolClientsForFastDataworker E (fst wl) config fromB toB of
        (r', w) \<Rightarrow>
          (r', (w, snd wl @ [(ConstructSpokePoolClients config fromB toB, constructed r')])))"
  "validatePendingRootBundle (logged E) wl clients sending blocks =
     (case validatePendingRootBundle E (fst wl) clients sending blocks of
        (r, w) \<Rightarrow>
          (r, (w, snd wl @ [(ValidatePendingRootBundle clients sending blocks, fulfilled r)])))"
  "proposeRootBundle (logged E) wl clients threshold sending blocks =
     (case proposeRootBundle E (fst wl) clients threshold sending blocks of
        (r, w) \<Rightarrow>
          (r, (w, snd wl
                 @ [(ProposeRootBundle clients threshold sending blocks, fulfilled r)])))"
  "executePoolRebalanceLeaves (logged E) wl clients ledger sending blocks =
     (case executePoolRebalanceLeaves E (fst wl) clients ledger sending blocks of
        (r, w, ledger') \<Rightarrow>
          (r, (w, snd wl
                 @ [(ExecutePoolRebalanceLeaves clients ledger sending blocks,
                     executed r ledger')]),
           ledger'))"
  "executeSlowRelayLeaves (logged E) wl clients ledger sending blocks =
     (case executeSlowRelayLeaves E (fst wl) clients ledger sending blocks of
        (r, w, ledger') \<Rightarrow>
          (r, (w, snd wl
                 @ [(ExecuteSlowRelayLeaves clients ledger sending blocks, executed r ledger')]),
           ledger'))"
  "executeRelayerRefundLeaves (logged E) wl clients ledger sending blocks =
     (case executeRelayerRefundLeaves E (fst wl) clients ledger sending blocks of
        (r, w, ledger') \<Rightarrow>
          (r, (w, snd wl
                 @ [(ExecuteRelayerRefundLeaves clients ledger sending blocks,
                     executed r ledger')]),
           ledger'))"
  "executeTransactionQueue (logged E) wl =
     (case executeTransactionQueue E (fst wl) of
        (r, w) \<Rightarrow> (r, (w, snd wl @ [(ExecuteTransactionQueue, fulfilled r)])))"
  "processEndPollingLoop (logged E) wl delay =
     (case processEndPollingLoop E (fst wl) delay of
        (r'', w) \<Rightarrow> (r'', (w, snd wl @ [(ProcessEndPollingLoop delay, answered r'')])))"
  by (simp_all add: logged_def)

lemma bundleEndBlockMapping_logged:
  "bundleEndBlockMapping (logged E) wl = bundleEndBlockMapping E (fst wl)"
  by (simp add: bundleEndBlockMapping_def logged_reads split: sum.splits option.splits)

lemma callsReceived_append:
  "snd (world st') = snd (world st) @ calls \<Longrightarrow> callsReceived st st' = calls"
  by (simp add: callsReceived_def)

lemma replies [simp]:
  "fulfilled (Inl e) = Rejected e" "fulfilled (Inr u) = Fulfilled"
  "constructed (Inl e) = Rejected e" "constructed (Inr clients) = Constructed clients"
  "executed (Inl e) ledger = Rejected e" "executed (Inr u) ledger = Executed ledger"
  "answered (Inl e) = Rejected e" "answered (Inr stop) = Answered stop"
  by (simp_all add: fulfilled_def constructed_def executed_def answered_def)

subsection \<open>What the calls after the retry loop are given\<close>

lemma disputerStep_received:
  assumes "disputerStep (logged E) config spc ivb st = (r, st')"
  shows "heap st' = heap st
     \<and> snd (world st') = snd (world st)
          @ map (\<lambda>q. (q, fulfilled r)) (disputerRequests config spc ivb)
     \<and> (\<not> disputerEnabled config \<longrightarrow> r = Inr ())"
  using assms
  by (auto simp: disputerStep_def disputerRequests_def call_def logged_calls
           split: if_splits prod.splits)

lemma proposerStep_received:
  assumes "proposerStep (logged E) config spc ivb st = (r, st')"
  shows "heap st' = heap st
     \<and> snd (world st') = snd (world st)
          @ map (\<lambda>q. (q, fulfilled r)) (proposerRequests config spc ivb)
     \<and> (\<not> proposerEnabled config \<longrightarrow> r = Inr ())"
  using assms
  by (auto simp: proposerStep_def proposerRequests_def call_def logged_calls
           split: if_splits prod.splits)

lemma callWithAllocator_received:
  assumes "callWithAllocator ev ref f st = (r, st')"
    and "f (world st) (heap st ! ref) = (r0, (w, snd (world st) @ [c]), ledger)"
    and "ref < length (heap st)"
  shows "r = r0 \<and> snd (world st') = snd (world st) @ [c] \<and> heap st' ! ref = ledger
     \<and> length (heap st') = length (heap st)"
  using assms by (auto simp: callWithAllocator_def)

text \<open>
  The calls the executor makes, with the ledgers they are given and leave: \<open>ledger\<close> is
  that of the new allocator.
\<close>

lemma executorStep_received:
  assumes "executorStep (logged E) config spc ivb st = (r, st')"
  obtains
    (disabled) "\<not> executorEnabled config" "r = Inr ()" "snd (world st') = snd (world st)"
  | (noProviders) e where "executorEnabled config"
      "spokePoolClientsToProviders E spc = Inl e" "r = Inl e"
      "snd (world st') = snd (world st)"
  | (poolRejected) providers e where "executorEnabled config"
      "spokePoolClientsToProviders E spc = Inr providers" "r = Inl e"
      "snd (world st') = snd (world st)
         @ [(ExecutePoolRebalanceLeaves spc (newBalanceAllocator E providers)
               (sendingExecutionsEnabled config) ivb, Rejected e)]"
  | (slowRejected) providers ledger' e where "executorEnabled config"
      "spokePoolClientsToProviders E spc = Inr providers" "r = Inl e"
      "snd (world st') = snd (world st)
         @ [(ExecutePoolRebalanceLeaves spc (newBalanceAllocator E providers)
               (sendingExecutionsEnabled config) ivb, Executed ledger'),
            (ExecuteSlowRelayLeaves spc ledger' (sendingExecutionsEnabled config) ivb,
             Rejected e)]"
  | (refundRejected) providers ledger' ledger'' e where "executorEnabled config"
      "spokePoolClientsToProviders E spc = Inr providers" "r = Inl e"
      "snd (world st') = snd (world st)
         @ [(ExecutePoolRebalanceLeaves spc (newBalanceAllocator E providers)
               (sendingExecutionsEnabled config) ivb, Executed ledger'),
            (ExecuteSlowRelayLeaves spc ledger' (sendingExecutionsEnabled config) ivb,
             Executed ledger''),
            (ExecuteRelayerRefundLeaves spc ledger'' (sendingExecutionsEnabled config) ivb,
             Rejected e)]"
  | (executedAll) providers ledger' ledger'' ledger''' where "executorEnabled config"
      "spokePoolClientsToProviders E spc = Inr providers" "r = Inr ()"
      "snd (world st') = snd (world st)
         @ [(ExecutePoolRebalanceLeaves spc (newBalanceAllocator E providers)
               (sendingExecutionsEnabled config) ivb, Executed ledger'),
            (ExecuteSlowRelayLeaves spc ledger' (sendingExecutionsEnabled config) ivb,
             Executed ledger''),
            (ExecuteRelayerRefundLeaves spc ledger'' (sendingExecutionsEnabled config) ivb,
             Executed ledger''')]"
proof (cases "executorEnabled config")
  case False
  with assms have "r = Inr ()" "snd (world st') = snd (world st)"
    by (simp_all add: executorStep_def)
  with False show thesis by (rule disabled)
next
  case True
  let ?sending = "sendingExecutionsEnabled config"
  let ?EL = "logged E"
  from assms True have run:
    "andThen (allocateBalanceAllocator ?EL spc st)
       (\<lambda>balanceAllocator st.
     andThen
       (callWithAllocator (EvExecutePoolRebalanceLeaves balanceAllocator ?sending ivb)
          balanceAllocator (\<lambda>w b. executePoolRebalanceLeaves ?EL w spc b ?sending ivb) st)
       (\<lambda>_ st.
     andThen
       (callWithAllocator (EvExecuteSlowRelayLeaves balanceAllocator ?sending ivb)
          balanceAllocator (\<lambda>w b. executeSlowRelayLeaves ?EL w spc b ?sending ivb) st)
       (\<lambda>_ st.
     callWithAllocator (EvExecuteRelayerRefundLeaves balanceAllocator ?sending ivb)
       balanceAllocator (\<lambda>w b. executeRelayerRefundLeaves ?EL w spc b ?sending ivb) st)))
     = (r, st')"
    by (simp add: executorStep_def)
  show thesis
  proof (cases "spokePoolClientsToProviders E spc")
    case (Inl e)
    with run have "r = Inl e" "snd (world st') = snd (world st)"
      by (simp_all add: allocateBalanceAllocator_def logged_reads andThen_def)
    with True Inl show thesis by (rule noProviders)
  next
    case (Inr providers)
    let ?ref = "length (heap st)"
    let ?b0 = "newBalanceAllocator E providers"
    define st0 where "st0 = st\<lparr>heap := heap st @ [?b0],
        trace := trace st @ [EvNewBalanceAllocator ?ref]\<rparr>"
    have alloc: "allocateBalanceAllocator ?EL spc st = (Inr ?ref, st0)"
      by (simp add: allocateBalanceAllocator_def logged_reads Inr st0_def)
    have w0: "world st0 = world st" and h0: "heap st0 ! ?ref = ?b0"
      and n0: "?ref < length (heap st0)"
      by (simp_all add: st0_def)
    obtain r1 w1 b1 where p: "executePoolRebalanceLeaves E (fst (world st)) spc ?b0 ?sending ivb
        = (r1, w1, b1)" by (metis prod_cases3)
    define st1 where "st1 = st0\<lparr>world := (w1, snd (world st)
          @ [(ExecutePoolRebalanceLeaves spc ?b0 ?sending ivb, executed r1 b1)]),
        heap := (heap st0)[?ref := b1],
        trace := trace st0 @ [EvExecutePoolRebalanceLeaves ?ref ?sending ivb]\<rparr>"
    have pool: "callWithAllocator (EvExecutePoolRebalanceLeaves ?ref ?sending ivb) ?ref
        (\<lambda>w b. executePoolRebalanceLeaves ?EL w spc b ?sending ivb) st0 = (r1, st1)"
      by (simp add: callWithAllocator_def logged_calls w0 h0 p st1_def)
    have w1: "fst (world st1) = w1"
      "snd (world st1) = snd (world st)
          @ [(ExecutePoolRebalanceLeaves spc ?b0 ?sending ivb, executed r1 b1)]"
      and h1: "heap st1 ! ?ref = b1" and n1: "?ref < length (heap st1)"
      using n0 by (simp_all add: st1_def)
    show thesis
    proof (cases r1)
      case (Inl e)
      with run alloc pool have "r = Inl e" "st' = st1" by (simp_all add: andThen_def)
      with w1 Inl have "snd (world st') = snd (world st)
         @ [(ExecutePoolRebalanceLeaves spc ?b0 ?sending ivb, Rejected e)]" by simp
      with True Inr \<open>r = Inl e\<close> show thesis by (rule poolRejected)
    next
      case ok1: (Inr u1)
      obtain r2 w2 b2 where s: "executeSlowRelayLeaves E w1 spc b1 ?sending ivb
          = (r2, w2, b2)" by (metis prod_cases3)
      define st2 where "st2 = st1\<lparr>world := (w2, snd (world st1)
            @ [(ExecuteSlowRelayLeaves spc b1 ?sending ivb, executed r2 b2)]),
          heap := (heap st1)[?ref := b2],
          trace := trace st1 @ [EvExecuteSlowRelayLeaves ?ref ?sending ivb]\<rparr>"
      have slow: "callWithAllocator (EvExecuteSlowRelayLeaves ?ref ?sending ivb) ?ref
          (\<lambda>w b. executeSlowRelayLeaves ?EL w spc b ?sending ivb) st1 = (r2, st2)"
        by (simp add: callWithAllocator_def logged_calls w1 h1 s st2_def)
      have w2: "fst (world st2) = w2"
        "snd (world st2) = snd (world st)
            @ [(ExecutePoolRebalanceLeaves spc ?b0 ?sending ivb, Executed b1),
               (ExecuteSlowRelayLeaves spc b1 ?sending ivb, executed r2 b2)]"
        and h2: "heap st2 ! ?ref = b2"
        using n1 by (simp_all add: st2_def w1 ok1)
      show thesis
      proof (cases r2)
        case (Inl e)
        with run alloc pool slow ok1 have "r = Inl e" "st' = st2"
          by (simp_all add: andThen_def)
        with w2 Inl have "snd (world st') = snd (world st)
            @ [(ExecutePoolRebalanceLeaves spc ?b0 ?sending ivb, Executed b1),
               (ExecuteSlowRelayLeaves spc b1 ?sending ivb, Rejected e)]" by simp
        with True Inr \<open>r = Inl e\<close> show thesis by (rule slowRejected)
      next
        case ok2: (Inr u2)
        obtain r3 w3 b3 where f: "executeRelayerRefundLeaves E w2 spc b2 ?sending ivb
            = (r3, w3, b3)" by (metis prod_cases3)
        from run alloc pool slow ok1 ok2 have
          "callWithAllocator (EvExecuteRelayerRefundLeaves ?ref ?sending ivb) ?ref
             (\<lambda>w b. executeRelayerRefundLeaves ?EL w spc b ?sending ivb) st2 = (r, st')"
          by (simp add: andThen_def)
        then have res: "r = r3" "snd (world st') = snd (world st)
            @ [(ExecutePoolRebalanceLeaves spc ?b0 ?sending ivb, Executed b1),
               (ExecuteSlowRelayLeaves spc b1 ?sending ivb, Executed b2),
               (ExecuteRelayerRefundLeaves spc b2 ?sending ivb, executed r3 b3)]"
          by (auto simp: callWithAllocator_def logged_calls w2 h2 f ok2)
        show thesis
        proof (cases r3)
          case (Inl e)
          with res have "r = Inl e" "snd (world st') = snd (world st)
            @ [(ExecutePoolRebalanceLeaves spc ?b0 ?sending ivb, Executed b1),
               (ExecuteSlowRelayLeaves spc b1 ?sending ivb, Executed b2),
               (ExecuteRelayerRefundLeaves spc b2 ?sending ivb, Rejected e)]" by simp_all
          with True Inr show thesis by (rule refundRejected)
        next
          case (Inr u3)
          with res have "r = Inr ()" "snd (world st') = snd (world st)
            @ [(ExecutePoolRebalanceLeaves spc ?b0 ?sending ivb, Executed b1),
               (ExecuteSlowRelayLeaves spc b1 ?sending ivb, Executed b2),
               (ExecuteRelayerRefundLeaves spc b2 ?sending ivb, Executed b3)]" by simp_all
          with True \<open>spokePoolClientsToProviders E spc = Inr providers\<close>
          show thesis by (rule executedAll)
        qed
      qed
    qed
  qed
qed

lemma call_received:
  assumes "call ev f st = (r, st')" and "f (world st) = (r0, (w, snd (world st) @ calls))"
  shows "r = r0 \<and> world st' = (w, snd (world st) @ calls) \<and> heap st' = heap st"
  using assms by (auto simp: call_def)

text \<open>
  The calls received after the retry loop, by the place where the iteration ends. In
  the last three cases the executor, when enabled, has made its three calls, the first
  on the ledger of a new allocator.
\<close>

lemma afterResolve_received:
  assumes "afterResolve (logged E) config spc ivb st = (r, st')"
  obtains
    (validateRejected) e where "disputerEnabled config" "r = Inl e"
      "snd (world st') = snd (world st)
         @ map (\<lambda>q. (q, Rejected e)) (disputerRequests config spc ivb)"
  | (proposeRejected) e where "proposerEnabled config" "r = Inl e"
      "snd (world st') = snd (world st)
         @ map (\<lambda>q. (q, Fulfilled)) (disputerRequests config spc ivb)
         @ map (\<lambda>q. (q, Rejected e)) (proposerRequests config spc ivb)"
  | (noProviders) e where "executorEnabled config"
      "spokePoolClientsToProviders E spc = Inl e" "r = Inl e"
      "snd (world st') = snd (world st)
         @ map (\<lambda>q. (q, Fulfilled)) (disputerRequests config spc ivb)
         @ map (\<lambda>q. (q, Fulfilled)) (proposerRequests config spc ivb)"
  | (poolRejected) providers e where "executorEnabled config"
      "spokePoolClientsToProviders E spc = Inr providers" "r = Inl e"
      "snd (world st') = snd (world st)
         @ map (\<lambda>q. (q, Fulfilled)) (disputerRequests config spc ivb)
         @ map (\<lambda>q. (q, Fulfilled)) (proposerRequests config spc ivb)
         @ [(ExecutePoolRebalanceLeaves spc (newBalanceAllocator E providers)
               (sendingExecutionsEnabled config) ivb, Rejected e)]"
  | (slowRejected) providers ledger' e where "executorEnabled config"
      "spokePoolClientsToProviders E spc = Inr providers" "r = Inl e"
      "snd (world st') = snd (world st)
         @ map (\<lambda>q. (q, Fulfilled)) (disputerRequests config spc ivb)
         @ map (\<lambda>q. (q, Fulfilled)) (proposerRequests config spc ivb)
         @ [(ExecutePoolRebalanceLeaves spc (newBalanceAllocator E providers)
               (sendingExecutionsEnabled config) ivb, Executed ledger'),
            (ExecuteSlowRelayLeaves spc ledger' (sendingExecutionsEnabled config) ivb,
             Rejected e)]"
  | (refundRejected) providers ledger' ledger'' e where "executorEnabled config"
      "spokePoolClientsToProviders E spc = Inr providers" "r = Inl e"
      "snd (world st') = snd (world st)
         @ map (\<lambda>q. (q, Fulfilled)) (disputerRequests config spc ivb)
         @ map (\<lambda>q. (q, Fulfilled)) (proposerRequests config spc ivb)
         @ [(ExecutePoolRebalanceLeaves spc (newBalanceAllocator E providers)
               (sendingExecutionsEnabled config) ivb, Executed ledger'),
            (ExecuteSlowRelayLeaves spc ledger' (sendingExecutionsEnabled config) ivb,
             Executed ledger''),
            (ExecuteRelayerRefundLeaves spc ledger'' (sendingExecutionsEnabled config) ivb,
             Rejected e)]"
  | (flushRejected) ledger ledger' ledger'' ledger''' e where "r = Inl e"
      "executorEnabled config \<longrightarrow>
         (case spokePoolClientsToProviders E spc of
            Inl e \<Rightarrow> False
          | Inr providers \<Rightarrow> ledger = newBalanceAllocator E providers)"
      "snd (world st') = snd (world st)
         @ map (\<lambda>q. (q, Fulfilled)) (disputerRequests config spc ivb)
         @ map (\<lambda>q. (q, Fulfilled)) (proposerRequests config spc ivb)
         @ zip (executorRequests config spc ivb ledger ledger' ledger'')
             [Executed ledger', Executed ledger'', Executed ledger''']
         @ [(ExecuteTransactionQueue, Rejected e)]"
  | (stopRejected) ledger ledger' ledger'' ledger''' e where "r = Inl e"
      "executorEnabled config \<longrightarrow>
         (case spokePoolClientsToProviders E spc of
            Inl e \<Rightarrow> False
          | Inr providers \<Rightarrow> ledger = newBalanceAllocator E providers)"
      "snd (world st') = snd (world st)
         @ map (\<lambda>q. (q, Fulfilled)) (disputerRequests config spc ivb)
         @ map (\<lambda>q. (q, Fulfilled)) (proposerRequests config spc ivb)
         @ zip (executorRequests config spc ivb ledger ledger' ledger'')
             [Executed ledger', Executed ledger'', Executed ledger''']
         @ [(ExecuteTransactionQueue, Fulfilled),
            (ProcessEndPollingLoop (pollingDelay config), Rejected e)]"
  | (completed) ledger ledger' ledger'' ledger''' stop where "r = Inr stop"
      "executorEnabled config \<longrightarrow>
         (case spokePoolClientsToProviders E spc of
            Inl e \<Rightarrow> False
          | Inr providers \<Rightarrow> ledger = newBalanceAllocator E providers)"
      "snd (world st') = snd (world st)
         @ map (\<lambda>q. (q, Fulfilled)) (disputerRequests config spc ivb)
         @ map (\<lambda>q. (q, Fulfilled)) (proposerRequests config spc ivb)
         @ zip (executorRequests config spc ivb ledger ledger' ledger'')
             [Executed ledger', Executed ledger'', Executed ledger''']
         @ [(ExecuteTransactionQueue, Fulfilled),
            (ProcessEndPollingLoop (pollingDelay config), Answered stop)]"
  using assms unfolding afterResolve_def
proof (cases rule: andThenE)
  case (fails e)
  from disputerStep_received [OF fails(1)] have
    "snd (world st') = snd (world st)
       @ map (\<lambda>q. (q, Rejected e)) (disputerRequests config spc ivb)"
    and "disputerEnabled config" by auto
  with fails(2) show thesis by (intro validateRejected)
next
  case (continues u1 st1)
  note c1 = this
  from disputerStep_received [OF c1(1)] have
    d: "snd (world st1) = snd (world st)
       @ map (\<lambda>q. (q, Fulfilled)) (disputerRequests config spc ivb)" by simp
  from c1(2) show thesis
  proof (cases rule: andThenE)
    case (fails e)
    from proposerStep_received [OF fails(1)] d have
      "snd (world st') = snd (world st)
         @ map (\<lambda>q. (q, Fulfilled)) (disputerRequests config spc ivb)
         @ map (\<lambda>q. (q, Rejected e)) (proposerRequests config spc ivb)"
      and "proposerEnabled config" by auto
    with fails(2) show thesis by (intro proposeRejected)
  next
    case (continues u2 st2)
    note c2 = this
    from proposerStep_received [OF c2(1)] d have
      p: "snd (world st2) = snd (world st)
         @ map (\<lambda>q. (q, Fulfilled)) (disputerRequests config spc ivb)
         @ map (\<lambda>q. (q, Fulfilled)) (proposerRequests config spc ivb)" by simp
    from c2(2) show thesis
    proof (cases rule: andThenE)
      case (fails e)
      from fails(1) show thesis
      proof (cases rule: executorStep_received)
        case disabled
        with fails(1) show ?thesis by simp
      next
        case (noProviders e')
        with fails(2) p show ?thesis by (intro that(3)) simp_all
      next
        case (poolRejected providers e')
        with fails(2) p show ?thesis by (intro that(4)) simp_all
      next
        case (slowRejected providers ledger' e')
        with fails(2) p show ?thesis by (intro that(5)) simp_all
      next
        case (refundRejected providers ledger' ledger'' e')
        with fails(2) p show ?thesis by (intro that(6)) simp_all
      next
        case (executedAll providers ledger' ledger'' ledger''')
        with fails(1) show ?thesis by simp
      qed
    next
      case (continues u3 st3)
      note c3 = this
      have "\<exists>ledger ledger' ledger'' ledger'''.
          (executorEnabled config \<longrightarrow>
             (case spokePoolClientsToProviders E spc of
                Inl e \<Rightarrow> False
              | Inr providers \<Rightarrow> ledger = newBalanceAllocator E providers))
        \<and> snd (world st3) = snd (world st2)
             @ zip (executorRequests config spc ivb ledger ledger' ledger'')
                 [Executed ledger', Executed ledger'', Executed ledger''']"
        using c3(1)
      proof (cases rule: executorStep_received)
        case disabled
        then show ?thesis by (simp add: executorRequests_def)
      next
        case (executedAll providers ledger' ledger'' ledger''')
        then show ?thesis
          by (intro exI [of _ "newBalanceAllocator E providers"] exI [of _ ledger']
                exI [of _ ledger''] exI [of _ ledger'''])
             (simp add: executorRequests_def)
      qed simp_all
      then obtain ledger ledger' ledger'' ledger''' where
        fresh: "executorEnabled config \<longrightarrow>
             (case spokePoolClientsToProviders E spc of
                Inl e \<Rightarrow> False
              | Inr providers \<Rightarrow> ledger = newBalanceAllocator E providers)"
        and x: "snd (world st3) = snd (world st2)
             @ zip (executorRequests config spc ivb ledger ledger' ledger'')
                 [Executed ledger', Executed ledger'', Executed ledger''']" by blast
      from c3(2) show thesis
      proof (cases rule: andThenE)
        case (fails e)
        obtain r0 w where q: "executeTransactionQueue E (fst (world st3)) = (r0, w)"
          by (cases "executeTransactionQueue E (fst (world st3))")
        from call_received [OF fails(1), of r0 w "[(ExecuteTransactionQueue, fulfilled r0)]"] q
        have "r0 = Inl e" "snd (world st') = snd (world st3)
            @ [(ExecuteTransactionQueue, fulfilled r0)]"
          by (simp_all add: logged_calls)
        with fails(2) fresh x p show thesis by (intro flushRejected) simp_all
      next
        case (continues u4 st4)
        obtain r0 w where q: "executeTransactionQueue E (fst (world st3)) = (r0, w)"
          by (cases "executeTransactionQueue E (fst (world st3))")
        from call_received [OF continues(1), of r0 w "[(ExecuteTransactionQueue, fulfilled r0)]"] q
        have f: "snd (world st4) = snd (world st3) @ [(ExecuteTransactionQueue, Fulfilled)]"
          by (auto simp: logged_calls)
        obtain r1 w1 where a: "processEndPollingLoop E (fst (world st4)) (pollingDelay config)
            = (r1, w1)"
          by (cases "processEndPollingLoop E (fst (world st4)) (pollingDelay config)")
        from call_received [OF continues(2), of r1 w1
            "[(ProcessEndPollingLoop (pollingDelay config), answered r1)]"] a
        have s: "r = r1" "snd (world st') = snd (world st4)
            @ [(ProcessEndPollingLoop (pollingDelay config), answered r1)]"
          by (simp_all add: logged_calls)
        show thesis
        proof (cases r1)
          case (Inl e)
          with s f fresh x p show thesis by (intro stopRejected) simp_all
        next
          case (Inr stop)
          with s f fresh x p show thesis by (intro completed) simp_all
        qed
      qed
    qed
  qed
qed

subsection \<open>What the fetches of the retry loop are given\<close>

lemma retryRound_received:
  assumes "retryRound (logged E) config endBlocks i customConfig st = (r, st')"
  obtains
    (searchRaises) e where
      "getSpokePoolClientEventSearchConfigsForFastDataworker E (fst (world st)) customConfig
         = Inl e"
      "r = Inl e" "snd (world st') = snd (world st)"
  | (fetchRejected) searchConfigs e where
      "getSpokePoolClientEventSearchConfigsForFastDataworker E (fst (world st)) customConfig
         = Inr searchConfigs"
      "r = Inl e"
      "snd (world st') = snd (world st)
         @ [(ConstructSpokePoolClients customConfig (fromBlocks searchConfigs)
               (toBlocks searchConfigs), Rejected e)]"
  | (blocksRaise) searchConfigs clients e where
      "getSpokePoolClientEventSearchConfigsForFastDataworker E (fst (world st)) customConfig
         = Inr searchConfigs"
      "getLatestInvalidBundleStartBlocks E clients = Inl e"
      "r = Inl e"
      "snd (world st') = snd (world st)
         @ [(ConstructSpokePoolClients customConfig (fromBlocks searchConfigs)
               (toBlocks searchConfigs), Constructed clients)]"
  | (compared) searchConfigs clients invalid where
      "getSpokePoolClientEventSearchConfigsForFastDataworker E (fst (world st)) customConfig
         = Inr searchConfigs"
      "getLatestInvalidBundleStartBlocks E clients = Inr invalid"
      "r = Inr (if lookbackInsufficient invalid endBlocks
                then Widened
                       (customConfig\<lparr>dataworkerFastLookbackCount :=
                          dataworkerFastLookbackCount customConfig
                            * dataworkerFastLookbackRetryMultiplier config\<rparr>) clients invalid
                else Break clients invalid)"
      "snd (world st') = snd (world st)
         @ [(ConstructSpokePoolClients customConfig (fromBlocks searchConfigs)
               (toBlocks searchConfigs), Constructed clients)]"
proof (cases "getSpokePoolClientEventSearchConfigsForFastDataworker E (fst (world st))
                customConfig")
  case (Inl e)
  with assms have "r = Inl e" "snd (world st') = snd (world st)"
    by (auto simp: retryRound_def andThen_def call_def logged_reads)
  with Inl show thesis by (rule searchRaises)
next
  case search: (Inr searchConfigs)
  obtain x w where fetch:
    "constructSpokePoolClientsForFastDataworker E (fst (world st)) customConfig
       (fromBlocks searchConfigs) (toBlocks searchConfigs) = (x, w)"
    by (cases "constructSpokePoolClientsForFastDataworker E (fst (world st)) customConfig
       (fromBlocks searchConfigs) (toBlocks searchConfigs)")
  show thesis
  proof (cases x)
    case (Inl e)
    with assms search fetch have "r = Inl e"
      "snd (world st') = snd (world st)
         @ [(ConstructSpokePoolClients customConfig (fromBlocks searchConfigs)
               (toBlocks searchConfigs), Rejected e)]"
      by (auto simp: retryRound_def andThen_def call_def logged_reads logged_calls)
    with search show thesis by (rule fetchRejected)
  next
    case built: (Inr clients)
    show thesis
    proof (cases "getLatestInvalidBundleStartBlocks E clients")
      case (Inl e)
      with assms search fetch built have "r = Inl e"
        "snd (world st') = snd (world st)
           @ [(ConstructSpokePoolClients customConfig (fromBlocks searchConfigs)
                 (toBlocks searchConfigs), Constructed clients)]"
        by (auto simp: retryRound_def andThen_def call_def sync_def logged_reads logged_calls)
      with search Inl show thesis by (rule blocksRaise)
    next
      case (Inr invalid)
      with assms search fetch built have
        "r = Inr (if lookbackInsufficient invalid endBlocks
                then Widened
                       (customConfig\<lparr>dataworkerFastLookbackCount :=
                          dataworkerFastLookbackCount customConfig
                            * dataworkerFastLookbackRetryMultiplier config\<rparr>) clients invalid
                else Break clients invalid)"
        "snd (world st') = snd (world st)
           @ [(ConstructSpokePoolClients customConfig (fromBlocks searchConfigs)
                 (toBlocks searchConfigs), Constructed clients)]"
        by (auto simp: retryRound_def andThen_def call_def sync_def logged_reads logged_calls
                 split: if_splits)
      with search Inr show thesis by (rule compared)
    qed
  qed
qed

lemma retryLoop_received:
  "retryLoop (logged E) config endBlocks i customConfig spc ivb st = (r, st') \<Longrightarrow>
     \<exists>calls. snd (world st') = snd (world st) @ calls
        \<and> (\<forall>c \<in> set calls. isFetch (fst c))
        \<and> (\<forall>c \<in> set calls. \<forall>e. snd c = Rejected e \<longrightarrow> r = Inl e)
        \<and> callsAfterRejection calls = []"
proof (induction "logged E" config endBlocks i customConfig spc ivb st arbitrary: r st'
       rule: retryLoop.induct)
  case (1 config endBlocks i customConfig spc ivb st)
  let ?rc = "dataworkerFastLookbackRetryCount config"
  show ?case
  proof (cases "int i \<le> ?rc")
    case False
    with "1.prems" show ?thesis by (simp add: retryLoop.simps)
  next
    case True
    obtain x st1 where rr: "retryRound (logged E) config endBlocks i customConfig st = (x, st1)"
      by (cases "retryRound (logged E) config endBlocks i customConfig st")
    from rr show ?thesis
    proof (cases rule: retryRound_received)
      case (searchRaises e)
      with "1.prems" True rr have "st' = st1" by (simp add: retryLoop.simps [of _ _ _ i])
      with searchRaises show ?thesis by simp
    next
      case (fetchRejected searchConfigs e)
      with "1.prems" True rr have "st' = st1" "r = Inl e"
        by (simp_all add: retryLoop.simps [of _ _ _ i])
      with fetchRejected show ?thesis by simp
    next
      case (blocksRaise searchConfigs clients e)
      with "1.prems" True rr have "st' = st1" "r = Inl e"
        by (simp_all add: retryLoop.simps [of _ _ _ i])
      with blocksRaise show ?thesis by simp
    next
      case (compared searchConfigs clients invalid)
      show ?thesis
      proof (cases "lookbackInsufficient invalid endBlocks")
        case False
        with compared "1.prems" True rr have "st' = st1"
          "r = Inr (Some clients, invalid)"
          by (simp_all add: retryLoop.simps [of _ _ _ i])
        with compared show ?thesis by simp
      next
        case wider: True
        let ?cc = "customConfig\<lparr>dataworkerFastLookbackCount :=
                          dataworkerFastLookbackCount customConfig
                            * dataworkerFastLookbackRetryMultiplier config\<rparr>"
        from wider compared have x: "x = Inr (Widened ?cc clients invalid)" by simp
        with "1.prems" True rr have
          rec: "retryLoop (logged E) config endBlocks (Suc i) ?cc (Some clients) invalid st1
                  = (r, st')"
          by (simp add: retryLoop.simps [of _ _ _ i])
        from "1.hyps" [OF True rr [symmetric] x refl rec] obtain calls where
          c: "snd (world st') = snd (world st1) @ calls"
             "\<forall>c \<in> set calls. isFetch (fst c)"
             "\<forall>c \<in> set calls. \<forall>e. snd c = Rejected e \<longrightarrow> r = Inl e"
             "callsAfterRejection calls = []" by blast
        let ?first = "(ConstructSpokePoolClients customConfig (fromBlocks searchConfigs)
               (toBlocks searchConfigs), Constructed clients)"
        from c compared(4) show ?thesis
          by (intro exI [of _ "?first # calls"]) auto
      qed
    qed
  qed
qed

lemma resolverMonitor_append:
  "resolverMonitor E config s (xs @ ys) = resolverMonitor E config (resolverMonitor E config s xs) ys"
  by (simp add: resolverMonitor_def)

lemma retryLoop_resolver:
  assumes "retryLoop (logged E) config endBlocks i customConfig spc ivb st = (r, st')"
    and "fromLastFetch E current spc ivb"
    and "current = None \<longrightarrow> customConfig = config"
  shows "\<exists>calls current'. snd (world st') = snd (world st) @ calls
           \<and> resolverMonitor E config (Some current) calls = Some current'
           \<and> (\<forall>spc' ivb'. r = Inr (spc', ivb') \<longrightarrow> fromLastFetch E current' spc' ivb')"
  using assms
proof (induction "logged E" config endBlocks i customConfig spc ivb st arbitrary: r st' current
       rule: retryLoop.induct)
  case (1 config endBlocks i customConfig spc ivb st)
  let ?rc = "dataworkerFastLookbackRetryCount config"
  note first = \<open>current = None \<longrightarrow> customConfig = config\<close>
  note given = \<open>fromLastFetch E current spc ivb\<close>
  note run = \<open>retryLoop (logged E) config endBlocks i customConfig spc ivb st = (r, st')\<close>
  have empty: "resolverMonitor E config (Some current) [] = Some current"
    by (simp add: resolverMonitor_def)
  show ?case
  proof (cases "int i \<le> ?rc")
    case False
    with run have "st' = st" "r = Inr (spc, ivb)" by (simp_all add: retryLoop.simps)
    with given empty show ?thesis by (intro exI [of _ "[]"] exI [of _ current]) simp
  next
    case True
    obtain x st1 where rr: "retryRound (logged E) config endBlocks i customConfig st = (x, st1)"
      by (cases "retryRound (logged E) config endBlocks i customConfig st")
    from rr show ?thesis
    proof (cases rule: retryRound_received)
      case (searchRaises e)
      with run True rr have "st' = st1" "r = Inl e"
        by (simp_all add: retryLoop.simps [of _ _ _ i])
      with searchRaises empty show ?thesis
        by (intro exI [of _ "[]"] exI [of _ current]) simp
    next
      case (fetchRejected searchConfigs e)
      with run True rr have "st' = st1" "r = Inl e"
        by (simp_all add: retryLoop.simps [of _ _ _ i])
      with fetchRejected first show ?thesis
        by (intro exI [of _ "[(ConstructSpokePoolClients customConfig (fromBlocks searchConfigs)
               (toBlocks searchConfigs), Rejected e)]"] exI [of _ current])
           (auto simp: resolverMonitor_def)
    next
      case (blocksRaise searchConfigs clients e)
      with run True rr have "st' = st1" "r = Inl e"
        by (simp_all add: retryLoop.simps [of _ _ _ i])
      with blocksRaise first show ?thesis
        by (intro exI [of _ "[(ConstructSpokePoolClients customConfig (fromBlocks searchConfigs)
               (toBlocks searchConfigs), Constructed clients)]"] exI [of _ "Some clients"])
           (auto simp: resolverMonitor_def)
    next
      case (compared searchConfigs clients invalid)
      let ?first = "(ConstructSpokePoolClients customConfig (fromBlocks searchConfigs)
               (toBlocks searchConfigs), Constructed clients)"
      from first have m1: "resolverMonitor E config (Some current) [?first]
          = Some (Some clients)"
        by (auto simp: resolverMonitor_def)
      from compared(2) have g: "fromLastFetch E (Some clients) (Some clients) invalid"
        by (simp add: fromLastFetch_def)
      show ?thesis
      proof (cases "lookbackInsufficient invalid endBlocks")
        case False
        with compared run True rr have "st' = st1"
          "r = Inr (Some clients, invalid)"
          by (simp_all add: retryLoop.simps [of _ _ _ i])
        with compared(4) m1 g show ?thesis
          by (intro exI [of _ "[?first]"] exI [of _ "Some clients"]) simp
      next
        case wider: True
        let ?cc = "customConfig\<lparr>dataworkerFastLookbackCount :=
                          dataworkerFastLookbackCount customConfig
                            * dataworkerFastLookbackRetryMultiplier config\<rparr>"
        from wider compared have x: "x = Inr (Widened ?cc clients invalid)" by simp
        with run True rr have
          rec: "retryLoop (logged E) config endBlocks (Suc i) ?cc (Some clients) invalid st1
                  = (r, st')"
          by (simp add: retryLoop.simps [of _ _ _ i])
        have later: "Some clients = None \<longrightarrow> ?cc = config" by simp
        from "1.hyps" [OF True rr [symmetric] x refl rec g later] obtain calls current' where
          c: "snd (world st') = snd (world st1) @ calls"
             "resolverMonitor E config (Some (Some clients)) calls = Some current'"
             "\<forall>spc' ivb'. r = Inr (spc', ivb') \<longrightarrow> fromLastFetch E current' spc' ivb'"
          by blast
        from m1 c(2) have "resolverMonitor E config (Some current) ([?first] @ calls)
            = Some current'"
          by (simp only: resolverMonitor_append)
        with c compared(4) show ?thesis
          by (intro exI [of _ "[?first] @ calls"] exI [of _ current']) simp
      qed
    qed
  qed
qed

subsection \<open>What the calls of an iteration are given\<close>

lemma loopIteration_received:
  assumes "loopIteration (logged E) config st = (r, st')"
  obtains
    (refreshRejected) e where "r = Inl e"
      "snd (world st') = snd (world st) @ [(UpdateDataworkerClients, Rejected e)]"
  | (endBlocksRaise) e where "r = Inl e"
      "snd (world st') = snd (world st) @ [(UpdateDataworkerClients, Fulfilled)]"
  | (resolverRaises) endBlocks st1 e where "r = Inl e"
      "snd (world st1) = snd (world st) @ [(UpdateDataworkerClients, Fulfilled)]"
      "retryLoop (logged E) config endBlocks 0 config None [] st1 = (Inl e, st')"
  | (resolved) endBlocks st1 spc ivb st2 where
      "snd (world st1) = snd (world st) @ [(UpdateDataworkerClients, Fulfilled)]"
      "retryLoop (logged E) config endBlocks 0 config None [] st1 = (Inr (spc, ivb), st2)"
      "afterResolve (logged E) config spc ivb st2 = (r, st')"
  using assms unfolding loopIteration_def
proof (cases rule: andThenE)
  case (fails e)
  obtain r0 w where u: "updateDataworkerClients E (fst (world st)) = (r0, w)"
    by (cases "updateDataworkerClients E (fst (world st))")
  from call_received [OF fails(1), of r0 w "[(UpdateDataworkerClients, fulfilled r0)]"] u
  have "snd (world st') = snd (world st) @ [(UpdateDataworkerClients, Rejected e)]"
    by (auto simp: logged_calls)
  with fails(2) show thesis by (rule refreshRejected)
next
  case (continues u0 st1)
  obtain r0 w where u: "updateDataworkerClients E (fst (world st)) = (r0, w)"
    by (cases "updateDataworkerClients E (fst (world st))")
  from call_received [OF continues(1), of r0 w "[(UpdateDataworkerClients, fulfilled r0)]"] u
  have w1: "snd (world st1) = snd (world st) @ [(UpdateDataworkerClients, Fulfilled)]"
    by (auto simp: logged_calls)
  from continues(2) show thesis
  proof (cases rule: andThenE)
    case (fails e)
    then have "st' = st1" by (simp add: sync_def)
    with w1 fails(2) show thesis by (intro endBlocksRaise) simp_all
  next
    case (continues endBlocks st1')
    then have same: "st1' = st1" by (simp add: sync_def)
    from continues(2) [unfolded iterationFromRound_def same] show thesis
    proof (cases rule: andThenE)
      case (fails e)
      with w1 show thesis by (intro resolverRaises)
    next
      case (continues a st2)
      obtain spc ivb where a: "a = (spc, ivb)" by (cases a)
      with continues w1 show thesis by (intro resolved [of st1 endBlocks spc ivb st2]) simp_all
    qed
  qed
qed

subsection \<open>The order of the calls after the retry loop\<close>

lemma afterResolve_requests:
  assumes "afterResolve (logged E) config spc ivb st = (r, st')"
  shows "\<exists>calls ledger ledger' ledger''.
      snd (world st') = snd (world st) @ calls
    \<and> prefix (map fst calls) (plannedRequests config spc ivb ledger ledger' ledger'')
    \<and> (\<forall>stop. r = Inr stop \<longrightarrow>
          map fst calls = plannedRequests config spc ivb ledger ledger' ledger'')"
  using assms
proof (cases rule: afterResolve_received)
  case (validateRejected e)
  then show ?thesis
    by (auto simp: plannedRequests_def disputerRequests_def)
next
  case (proposeRejected e)
  then show ?thesis
    by (auto simp: plannedRequests_def disputerRequests_def proposerRequests_def comp_def)
next
  case (noProviders e)
  then show ?thesis
    by (auto simp: plannedRequests_def disputerRequests_def proposerRequests_def comp_def)
next
  case (poolRejected providers e)
  then show ?thesis
    by (auto simp: plannedRequests_def disputerRequests_def proposerRequests_def
          executorRequests_def comp_def)
next
  case (slowRejected providers ledger' e)
  then show ?thesis
    by (auto simp: plannedRequests_def disputerRequests_def proposerRequests_def
          executorRequests_def comp_def)
next
  case (refundRejected providers ledger' ledger'' e)
  then show ?thesis
    by (auto simp: plannedRequests_def disputerRequests_def proposerRequests_def
          executorRequests_def comp_def)
next
  case (flushRejected ledger ledger' ledger'' ledger''' e)
  then show ?thesis
    by (auto simp: plannedRequests_def disputerRequests_def proposerRequests_def
          executorRequests_def comp_def)
next
  case (stopRejected ledger ledger' ledger'' ledger''' e)
  then show ?thesis
    by (auto simp: plannedRequests_def disputerRequests_def proposerRequests_def
          executorRequests_def comp_def)
next
  case (completed ledger ledger' ledger'' ledger''' stop)
  then show ?thesis
    by (auto simp: plannedRequests_def disputerRequests_def proposerRequests_def
          executorRequests_def comp_def)
qed

lemma afterResolve_sorted:
  assumes "afterResolve (logged E) config spc ivb st = (r, st')"
  shows "\<exists>calls. snd (world st') = snd (world st) @ calls
    \<and> sorted (map (stepOrder \<circ> fst) calls)
    \<and> (\<forall>c \<in> set calls. 3 \<le> stepOrder (fst c))"
  using assms
  by (cases rule: afterResolve_received)
     (auto simp: disputerRequests_def proposerRequests_def executorRequests_def)

subsection \<open>Rejections after the retry loop\<close>

lemma afterResolve_rejections:
  assumes "afterResolve (logged E) config spc ivb st = (r, st')"
  shows "\<exists>calls. snd (world st') = snd (world st) @ calls
    \<and> (\<forall>c \<in> set calls. \<forall>e. snd c = Rejected e \<longrightarrow> r = Inl e)
    \<and> callsAfterRejection calls = []
    \<and> (\<forall>e. r = Inl e \<longrightarrow>
          (calls \<noteq> [] \<and> snd (last calls) = Rejected e)
        \<or> (executorEnabled config \<and> spokePoolClientsToProviders E spc = Inl e))"
  using assms
  by (cases rule: afterResolve_received)
     (auto simp: disputerRequests_def proposerRequests_def executorRequests_def)

subsection \<open>The stop check\<close>

lemma afterResolve_stop:
  assumes "afterResolve (logged E) config spc ivb st = (r, st')"
  shows "\<exists>calls. snd (world st') = snd (world st) @ calls
    \<and> (\<forall>c \<in> set calls. 3 \<le> stepOrder (fst c))
    \<and> (\<forall>stop. r = Inr stop \<longrightarrow>
          (\<exists>before. calls = before @ [(ExecuteTransactionQueue, Fulfilled),
                        (ProcessEndPollingLoop (pollingDelay config), Answered stop)]
             \<and> (\<forall>c \<in> set before. \<not> isStopCheck (fst c))))
    \<and> (\<forall>e. r = Inl e \<longrightarrow>
          (\<exists>before. calls = before @ [(ExecuteTransactionQueue, Fulfilled),
                        (ProcessEndPollingLoop (pollingDelay config), Rejected e)]
             \<and> (\<forall>c \<in> set before. \<not> isStopCheck (fst c)))
        \<or> (\<forall>c \<in> set calls. \<not> isStopCheck (fst c)))"
  using assms
  by (cases rule: afterResolve_received)
     (auto simp: disputerRequests_def proposerRequests_def executorRequests_def)

subsection \<open>The ledgers and the clients given after the retry loop\<close>

lemma ledgerMonitor_append:
  "ledgerMonitor E s (xs @ ys) = ledgerMonitor E (ledgerMonitor E s xs) ys"
  by (simp add: ledgerMonitor_def)

lemma afterResolve_ledger:
  assumes "afterResolve (logged E) config spc ivb st = (r, st')"
  shows "\<exists>calls current'. snd (world st') = snd (world st) @ calls
    \<and> ledgerMonitor E (Some None) calls = Some current'"
  using assms
  by (cases rule: afterResolve_received)
     (auto simp: disputerRequests_def proposerRequests_def executorRequests_def
        ledgerMonitor_def)

lemma afterResolve_resolver:
  assumes "afterResolve (logged E) config spc ivb st = (r, st')"
    and "fromLastFetch E current spc ivb"
  shows "\<exists>calls. snd (world st') = snd (world st) @ calls
    \<and> resolverMonitor E config (Some current) calls = Some current"
  using assms
  by (cases rule: afterResolve_received)
     (auto simp: disputerRequests_def proposerRequests_def executorRequests_def
        resolverMonitor_def)

subsection \<open>One iteration, as the collaborators see it\<close>

lemma isRejected_iff: "isRejected rep = (\<exists>e. rep = Rejected e)"
  by (cases rep) simp_all

lemma callsAfterRejection_append:
  "\<forall>c \<in> set xs. \<not> isRejected (snd c) \<Longrightarrow>
     callsAfterRejection (xs @ ys) = callsAfterRejection ys"
  by (induction xs) simp_all

lemma callsAfterRejection_append_empty:
  "callsAfterRejection ys = [] \<Longrightarrow> \<forall>c \<in> set xs. \<not> isRejected (snd c) \<Longrightarrow>
     callsAfterRejection (xs @ ys) = []"
  by (simp add: callsAfterRejection_append)

lemma fetches_keep_ledger:
  "\<forall>c \<in> set calls. isFetch (fst c) \<Longrightarrow> ledgerMonitor E (Some current) calls = Some current"
proof (induction calls)
  case Nil
  show ?case by (simp add: ledgerMonitor_def)
next
  case (Cons c calls)
  obtain q rep where c: "c = (q, rep)" by (cases c)
  with Cons.prems have "isFetch q" by simp
  then have "ledgerStep E (Some current) (q, rep) = Some current" by (cases q) simp_all
  with Cons c show ?case by (simp add: ledgerMonitor_def)
qed

lemma fetches_order:
  "\<forall>c \<in> set calls. isFetch (fst c) \<Longrightarrow>
     (\<forall>c \<in> set calls. stepOrder (fst c) = 2 \<and> \<not> isStopCheck (fst c))"
proof
  fix c
  assume a: "\<forall>c \<in> set calls. isFetch (fst c)" and c: "c \<in> set calls"
  then have "isFetch (fst c)" by simp
  then show "stepOrder (fst c) = 2 \<and> \<not> isStopCheck (fst c)" by (cases "fst c") simp_all
qed

lemma fetches_sorted:
  "\<forall>c \<in> set calls. stepOrder (fst c) = 2 \<Longrightarrow> sorted (map (stepOrder \<circ> fst) calls)"
  by (induction calls) simp_all

lemma loopIteration_rejections:
  assumes "loopIteration (logged E) config st = (r, st')"
  shows "\<exists>calls. snd (world st') = snd (world st) @ calls
    \<and> (\<forall>c \<in> set calls. \<forall>e. snd c = Rejected e \<longrightarrow> r = Inl e)
    \<and> callsAfterRejection calls = []"
  using assms
proof (cases rule: loopIteration_received)
  case (refreshRejected e)
  then show ?thesis by simp
next
  case (endBlocksRaise e)
  then show ?thesis by simp
next
  case (resolverRaises endBlocks st1 e)
  from retryLoop_received [OF resolverRaises(3)] obtain fetches where
    f: "snd (world st') = snd (world st1) @ fetches"
       "\<forall>c \<in> set fetches. \<forall>e'. snd c = Rejected e' \<longrightarrow> e = e'"
       "callsAfterRejection fetches = []" by auto
  with resolverRaises(1,2) show ?thesis
    by (intro exI [of _ "(UpdateDataworkerClients, Fulfilled) # fetches"]) auto
next
  case (resolved endBlocks st1 spc ivb st2)
  from retryLoop_received [OF resolved(2)] obtain fetches where
    f: "snd (world st2) = snd (world st1) @ fetches"
       "\<forall>c \<in> set fetches. \<not> isRejected (snd c)"
    by (auto simp: isRejected_iff)
  from afterResolve_rejections [OF resolved(3)] obtain after where
    a: "snd (world st') = snd (world st2) @ after"
       "\<forall>c \<in> set after. \<forall>e. snd c = Rejected e \<longrightarrow> r = Inl e"
       "callsAfterRejection after = []" by blast
  from f a resolved(1) show ?thesis
    by (intro exI [of _ "(UpdateDataworkerClients, Fulfilled) # fetches @ after"])
       (auto simp: isRejected_iff callsAfterRejection_append)
qed

lemma loopIteration_stop:
  assumes "loopIteration (logged E) config st = (r, st')"
  shows "\<exists>calls. snd (world st') = snd (world st) @ calls
    \<and> (\<forall>stop. r = Inr stop \<longrightarrow>
          (\<exists>before. calls = before @ [(ExecuteTransactionQueue, Fulfilled),
                        (ProcessEndPollingLoop (pollingDelay config), Answered stop)]
             \<and> (\<forall>c \<in> set before. \<not> isStopCheck (fst c))))
    \<and> (\<forall>e. r = Inl e \<longrightarrow>
          (\<exists>before. calls = before @ [(ExecuteTransactionQueue, Fulfilled),
                        (ProcessEndPollingLoop (pollingDelay config), Rejected e)]
             \<and> (\<forall>c \<in> set before. \<not> isStopCheck (fst c)))
        \<or> (\<forall>c \<in> set calls. \<not> isStopCheck (fst c)))"
  using assms
proof (cases rule: loopIteration_received)
  case (refreshRejected e)
  then show ?thesis by simp
next
  case (endBlocksRaise e)
  then show ?thesis by simp
next
  case (resolverRaises endBlocks st1 e)
  from retryLoop_received [OF resolverRaises(3)] obtain fetches where
    f: "snd (world st') = snd (world st1) @ fetches"
       "\<forall>c \<in> set fetches. isFetch (fst c)" by auto
  from fetches_order [OF f(2)] f(1) resolverRaises(1,2) show ?thesis
    by (intro exI [of _ "(UpdateDataworkerClients, Fulfilled) # fetches"]) auto
next
  case (resolved endBlocks st1 spc ivb st2)
  from retryLoop_received [OF resolved(2)] obtain fetches where
    f: "snd (world st2) = snd (world st1) @ fetches"
       "\<forall>c \<in> set fetches. isFetch (fst c)" by auto
  note quiet = fetches_order [OF f(2)]
  from afterResolve_stop [OF resolved(3)] obtain after where
    a: "snd (world st') = snd (world st2) @ after"
    and finished: "\<forall>stop. r = Inr stop \<longrightarrow>
          (\<exists>before. after = before @ [(ExecuteTransactionQueue, Fulfilled),
                        (ProcessEndPollingLoop (pollingDelay config), Answered stop)]
             \<and> (\<forall>c \<in> set before. \<not> isStopCheck (fst c)))"
    and raised: "\<forall>e. r = Inl e \<longrightarrow>
          (\<exists>before. after = before @ [(ExecuteTransactionQueue, Fulfilled),
                        (ProcessEndPollingLoop (pollingDelay config), Rejected e)]
             \<and> (\<forall>c \<in> set before. \<not> isStopCheck (fst c)))
        \<or> (\<forall>c \<in> set after. \<not> isStopCheck (fst c))" by blast
  let ?head = "(UpdateDataworkerClients, Fulfilled) # fetches"
  have head: "\<forall>c \<in> set ?head. \<not> isStopCheck (fst c)" using quiet by simp
  have "\<forall>stop. r = Inr stop \<longrightarrow>
          (\<exists>before. ?head @ after = before @ [(ExecuteTransactionQueue, Fulfilled),
                        (ProcessEndPollingLoop (pollingDelay config), Answered stop)]
             \<and> (\<forall>c \<in> set before. \<not> isStopCheck (fst c)))"
  proof (intro allI impI)
    fix stop assume "r = Inr stop"
    with finished obtain before where
      b: "after = before @ [(ExecuteTransactionQueue, Fulfilled),
                        (ProcessEndPollingLoop (pollingDelay config), Answered stop)]"
         "\<forall>c \<in> set before. \<not> isStopCheck (fst c)" by blast
    with head show "\<exists>before. ?head @ after = before @ [(ExecuteTransactionQueue, Fulfilled),
                        (ProcessEndPollingLoop (pollingDelay config), Answered stop)]
             \<and> (\<forall>c \<in> set before. \<not> isStopCheck (fst c))"
      by (intro exI [of _ "?head @ before"]) auto
  qed
  moreover have "\<forall>e. r = Inl e \<longrightarrow>
          (\<exists>before. ?head @ after = before @ [(ExecuteTransactionQueue, Fulfilled),
                        (ProcessEndPollingLoop (pollingDelay config), Rejected e)]
             \<and> (\<forall>c \<in> set before. \<not> isStopCheck (fst c)))
        \<or> (\<forall>c \<in> set (?head @ after). \<not> isStopCheck (fst c))"
  proof (intro allI impI)
    fix e assume "r = Inl e"
    with raised consider
      (stopRejected) before where
        "after = before @ [(ExecuteTransactionQueue, Fulfilled),
                        (ProcessEndPollingLoop (pollingDelay config), Rejected e)]"
        "\<forall>c \<in> set before. \<not> isStopCheck (fst c)"
    | (noStopCheck) "\<forall>c \<in> set after. \<not> isStopCheck (fst c)" by blast
    then show "(\<exists>before. ?head @ after = before @ [(ExecuteTransactionQueue, Fulfilled),
                        (ProcessEndPollingLoop (pollingDelay config), Rejected e)]
             \<and> (\<forall>c \<in> set before. \<not> isStopCheck (fst c)))
        \<or> (\<forall>c \<in> set (?head @ after). \<not> isStopCheck (fst c))"
    proof cases
      case stopRejected
      with head have "\<exists>before. ?head @ after = before @ [(ExecuteTransactionQueue, Fulfilled),
                        (ProcessEndPollingLoop (pollingDelay config), Rejected e)]
             \<and> (\<forall>c \<in> set before. \<not> isStopCheck (fst c))"
        by (intro exI [of _ "?head @ before"]) auto
      then show ?thesis ..
    next
      case noStopCheck
      with head have "\<forall>c \<in> set (?head @ after). \<not> isStopCheck (fst c)" by auto
      then show ?thesis ..
    qed
  qed
  moreover from a f(1) resolved(1) have "snd (world st') = snd (world st) @ ?head @ after"
    by simp
  ultimately show ?thesis by (intro exI [of _ "?head @ after"]) blast
qed

lemma loopIteration_ledger:
  assumes "loopIteration (logged E) config st = (r, st')"
  shows "\<exists>calls current'. snd (world st') = snd (world st) @ calls
    \<and> ledgerMonitor E (Some current) calls = Some current'"
  using assms
proof (cases rule: loopIteration_received)
  case (refreshRejected e)
  then show ?thesis by (simp add: ledgerMonitor_def)
next
  case (endBlocksRaise e)
  then show ?thesis by (simp add: ledgerMonitor_def)
next
  case (resolverRaises endBlocks st1 e)
  from retryLoop_received [OF resolverRaises(3)] obtain fetches where
    f: "snd (world st') = snd (world st1) @ fetches"
       "\<forall>c \<in> set fetches. isFetch (fst c)" by auto
  have kept: "ledgerMonitor E (Some None) fetches = Some None"
    by (rule fetches_keep_ledger [OF f(2)])
  have "ledgerMonitor E (Some current) [(UpdateDataworkerClients, Fulfilled)] = Some None"
    by (simp add: ledgerMonitor_def)
  with kept
  have "ledgerMonitor E (Some current) ([(UpdateDataworkerClients, Fulfilled)] @ fetches)
      = Some None"
    by (simp only: ledgerMonitor_append)
  with f(1) resolverRaises(2) show ?thesis
    by (intro exI [of _ "[(UpdateDataworkerClients, Fulfilled)] @ fetches"] exI [of _ None])
       simp
next
  case (resolved endBlocks st1 spc ivb st2)
  from retryLoop_received [OF resolved(2)] obtain fetches where
    f: "snd (world st2) = snd (world st1) @ fetches"
       "\<forall>c \<in> set fetches. isFetch (fst c)" by auto
  from afterResolve_ledger [OF resolved(3)] obtain after current' where
    a: "snd (world st') = snd (world st2) @ after"
       "ledgerMonitor E (Some None) after = Some current'" by blast
  have kept: "ledgerMonitor E (Some None) fetches = Some None"
    by (rule fetches_keep_ledger [OF f(2)])
  have "ledgerMonitor E (Some current) [(UpdateDataworkerClients, Fulfilled)] = Some None"
    by (simp add: ledgerMonitor_def)
  with kept a(2)
  have "ledgerMonitor E (Some current)
          ([(UpdateDataworkerClients, Fulfilled)] @ fetches @ after) = Some current'"
    by (simp only: ledgerMonitor_append)
  with f(1) a(1) resolved(1) show ?thesis
    by (intro exI [of _ "[(UpdateDataworkerClients, Fulfilled)] @ fetches @ after"]
          exI [of _ current']) simp
qed

lemma loopIteration_resolver:
  assumes "loopIteration (logged E) config st = (r, st')"
  shows "\<exists>calls current'. snd (world st') = snd (world st) @ calls
    \<and> resolverMonitor E config (Some current) calls = Some current'"
  using assms
proof (cases rule: loopIteration_received)
  case (refreshRejected e)
  then show ?thesis by (simp add: resolverMonitor_def)
next
  case (endBlocksRaise e)
  then show ?thesis by (simp add: resolverMonitor_def)
next
  case (resolverRaises endBlocks st1 e)
  have none: "fromLastFetch E None None []" by (simp add: fromLastFetch_def)
  from retryLoop_resolver [OF resolverRaises(3) none] obtain fetches current' where
    f: "snd (world st') = snd (world st1) @ fetches"
       "resolverMonitor E config (Some None) fetches = Some current'" by auto
  have "resolverMonitor E config (Some current) [(UpdateDataworkerClients, Fulfilled)]
      = Some None"
    by (simp add: resolverMonitor_def)
  with f(2)
  have "resolverMonitor E config (Some current)
          ([(UpdateDataworkerClients, Fulfilled)] @ fetches) = Some current'"
    by (simp only: resolverMonitor_append)
  with f(1) resolverRaises(2) show ?thesis
    by (intro exI [of _ "[(UpdateDataworkerClients, Fulfilled)] @ fetches"]
          exI [of _ current']) simp
next
  case (resolved endBlocks st1 spc ivb st2)
  have none: "fromLastFetch E None None []" by (simp add: fromLastFetch_def)
  from retryLoop_resolver [OF resolved(2) none] obtain fetches current' where
    f: "snd (world st2) = snd (world st1) @ fetches"
       "resolverMonitor E config (Some None) fetches = Some current'"
       "fromLastFetch E current' spc ivb" by auto
  from afterResolve_resolver [OF resolved(3) f(3)] obtain after where
    a: "snd (world st') = snd (world st2) @ after"
       "resolverMonitor E config (Some current') after = Some current'" by blast
  have "resolverMonitor E config (Some current) [(UpdateDataworkerClients, Fulfilled)]
      = Some None"
    by (simp add: resolverMonitor_def)
  with f(2) a(2)
  have "resolverMonitor E config (Some current)
          ([(UpdateDataworkerClients, Fulfilled)] @ fetches @ after) = Some current'"
    by (simp only: resolverMonitor_append)
  with f(1) a(1) resolved(1) show ?thesis
    by (intro exI [of _ "[(UpdateDataworkerClients, Fulfilled)] @ fetches @ after"]
          exI [of _ current']) simp
qed

lemma loopIteration_requests:
  assumes "loopIteration (logged E) config st = (r, st')"
  shows "\<exists>calls fetches spc ivb ledger ledger' ledger''.
      snd (world st') = snd (world st) @ calls
    \<and> (\<forall>q \<in> set fetches. isFetch q)
    \<and> prefix (map fst calls)
        (UpdateDataworkerClients # fetches
           @ plannedRequests config spc ivb ledger ledger' ledger'')
    \<and> (\<forall>stop. r = Inr stop \<longrightarrow>
          map fst calls = UpdateDataworkerClients # fetches
             @ plannedRequests config spc ivb ledger ledger' ledger'')
    \<and> sorted (map (stepOrder \<circ> fst) calls)"
  using assms
proof (cases rule: loopIteration_received)
  case (refreshRejected e)
  then show ?thesis
    by (intro exI [of _ "[(UpdateDataworkerClients, Rejected e)]"] exI [of _ "[]"]) simp
next
  case (endBlocksRaise e)
  then show ?thesis
    by (intro exI [of _ "[(UpdateDataworkerClients, Fulfilled)]"] exI [of _ "[]"]) simp
next
  case (resolverRaises endBlocks st1 e)
  from retryLoop_received [OF resolverRaises(3)] obtain fetches where
    f: "snd (world st') = snd (world st1) @ fetches"
       "\<forall>c \<in> set fetches. isFetch (fst c)" by auto
  from fetches_order [OF f(2)] have two: "\<forall>c \<in> set fetches. stepOrder (fst c) = 2" by simp
  from fetches_sorted [OF two] two
  have "sorted (map (stepOrder \<circ> fst) ((UpdateDataworkerClients, Fulfilled) # fetches))"
    by simp
  with f resolverRaises(1,2) show ?thesis
    by (intro exI [of _ "(UpdateDataworkerClients, Fulfilled) # fetches"]
          exI [of _ "map fst fetches"]) simp
next
  case (resolved endBlocks st1 spc ivb st2)
  from retryLoop_received [OF resolved(2)] obtain fetches where
    f: "snd (world st2) = snd (world st1) @ fetches"
       "\<forall>c \<in> set fetches. isFetch (fst c)" by auto
  from fetches_order [OF f(2)] have two: "\<forall>c \<in> set fetches. stepOrder (fst c) = 2" by simp
  from afterResolve_requests [OF resolved(3)] obtain after ledger ledger' ledger'' where
    a: "snd (world st') = snd (world st2) @ after"
       "prefix (map fst after) (plannedRequests config spc ivb ledger ledger' ledger'')"
       "\<forall>stop. r = Inr stop \<longrightarrow>
          map fst after = plannedRequests config spc ivb ledger ledger' ledger''" by blast
  from afterResolve_sorted [OF resolved(3)] a(1) have
    s: "sorted (map (stepOrder \<circ> fst) after)" "\<forall>c \<in> set after. 3 \<le> stepOrder (fst c)"
    by auto
  from fetches_sorted [OF two] two s
  have "sorted (map (stepOrder \<circ> fst)
          ((UpdateDataworkerClients, Fulfilled) # fetches @ after))"
    by (auto simp: sorted_append)
  with f a resolved(1) show ?thesis
    by (intro exI [of _ "(UpdateDataworkerClients, Fulfilled) # fetches @ after"]
          exI [of _ "map fst fetches"] exI [of _ spc] exI [of _ ivb] exI [of _ ledger]
          exI [of _ ledger'] exI [of _ ledger'']) simp
qed

subsection \<open>A run, as the collaborators see it\<close>

lemma callsAfterRejection_rejected:
  "\<exists>c \<in> set calls. isRejected (snd c) \<Longrightarrow>
     callsAfterRejection (calls @ xs) = callsAfterRejection calls @ xs"
  by (induction calls) auto

lemma pollingLoop_step:
  assumes "pollingLoop E config (Suc fuel) st = (r, st')"
    and "loopIteration E config st = (x, st1)"
  obtains (again) "x = Inr False" "pollingLoop E config fuel st1 = (r, st')"
  | (stops) "x = Inr True" "r = Some (Inr ())" "st' = st1"
  | (raises) e where "x = Inl e" "r = Some (Inl e)" "st' = st1"
proof (cases x)
  case (Inl e)
  with assms show thesis by (intro raises [of e]) simp_all
next
  case (Inr stop)
  with assms show thesis by (cases stop) (auto intro: again stops)
qed

lemma pollingLoop_ledger:
  "pollingLoop (logged E) config fuel st = (r, st') \<Longrightarrow>
     \<exists>calls current'. snd (world st') = snd (world st) @ calls
        \<and> ledgerMonitor E (Some current) calls = Some current'"
proof (induction fuel arbitrary: st current)
  case 0
  then show ?case by (simp add: ledgerMonitor_def)
next
  case (Suc fuel)
  obtain x st1 where it: "loopIteration (logged E) config st = (x, st1)"
    by (cases "loopIteration (logged E) config st")
  from loopIteration_ledger [OF it, where current = current] obtain calls1 current1 where
    c1: "snd (world st1) = snd (world st) @ calls1"
        "ledgerMonitor E (Some current) calls1 = Some current1" by blast
  from Suc.prems it show ?case
  proof (cases rule: pollingLoop_step)
    case again
    from Suc.IH [OF again(2), where current = current1] obtain calls2 current2 where
      c2: "snd (world st') = snd (world st1) @ calls2"
          "ledgerMonitor E (Some current1) calls2 = Some current2" by blast
    from c1(2) c2(2) have "ledgerMonitor E (Some current) (calls1 @ calls2) = Some current2"
      by (simp only: ledgerMonitor_append)
    with c1(1) c2(1) show ?thesis
      by (intro exI [of _ "calls1 @ calls2"] exI [of _ current2]) simp
  next
    case stops
    with c1 show ?thesis by blast
  next
    case (raises e)
    with c1 show ?thesis by blast
  qed
qed

lemma pollingLoop_resolver:
  "pollingLoop (logged E) config fuel st = (r, st') \<Longrightarrow>
     \<exists>calls current'. snd (world st') = snd (world st) @ calls
        \<and> resolverMonitor E config (Some current) calls = Some current'"
proof (induction fuel arbitrary: st current)
  case 0
  then show ?case by (simp add: resolverMonitor_def)
next
  case (Suc fuel)
  obtain x st1 where it: "loopIteration (logged E) config st = (x, st1)"
    by (cases "loopIteration (logged E) config st")
  from loopIteration_resolver [OF it, where current = current] obtain calls1 current1 where
    c1: "snd (world st1) = snd (world st) @ calls1"
        "resolverMonitor E config (Some current) calls1 = Some current1" by blast
  from Suc.prems it show ?case
  proof (cases rule: pollingLoop_step)
    case again
    from Suc.IH [OF again(2), where current = current1] obtain calls2 current2 where
      c2: "snd (world st') = snd (world st1) @ calls2"
          "resolverMonitor E config (Some current1) calls2 = Some current2" by blast
    from c1(2) c2(2)
    have "resolverMonitor E config (Some current) (calls1 @ calls2) = Some current2"
      by (simp only: resolverMonitor_append)
    with c1(1) c2(1) show ?thesis
      by (intro exI [of _ "calls1 @ calls2"] exI [of _ current2]) simp
  next
    case stops
    with c1 show ?thesis by blast
  next
    case (raises e)
    with c1 show ?thesis by blast
  qed
qed

lemma pollingLoop_rejections:
  "pollingLoop (logged E) config fuel st = (r, st') \<Longrightarrow>
     \<exists>calls. snd (world st') = snd (world st) @ calls
        \<and> (\<forall>c \<in> set calls. \<forall>e. snd c = Rejected e \<longrightarrow> r = Some (Inl e))
        \<and> callsAfterRejection calls = []"
proof (induction fuel arbitrary: st)
  case 0
  then show ?case by simp
next
  case (Suc fuel)
  obtain x st1 where it: "loopIteration (logged E) config st = (x, st1)"
    by (cases "loopIteration (logged E) config st")
  from loopIteration_rejections [OF it] obtain calls1 where
    c1: "snd (world st1) = snd (world st) @ calls1"
        "\<forall>c \<in> set calls1. \<forall>e. snd c = Rejected e \<longrightarrow> x = Inl e"
        "callsAfterRejection calls1 = []" by blast
  from Suc.prems it show ?case
  proof (cases rule: pollingLoop_step)
    case again
    from Suc.IH [OF again(2)] obtain calls2 where
      c2: "snd (world st') = snd (world st1) @ calls2"
          "\<forall>c \<in> set calls2. \<forall>e. snd c = Rejected e \<longrightarrow> r = Some (Inl e)"
          "callsAfterRejection calls2 = []" by blast
    from c1(2) again(1) have quiet: "\<forall>c \<in> set calls1. \<not> isRejected (snd c)"
      by (auto simp: isRejected_iff)
    with c1(1) c2 show ?thesis
      by (intro exI [of _ "calls1 @ calls2"])
         (auto simp: callsAfterRejection_append isRejected_iff)
  next
    case stops
    with c1 show ?thesis by (intro exI [of _ calls1]) auto
  next
    case (raises e)
    with c1 show ?thesis by (intro exI [of _ calls1]) auto
  qed
qed

lemma createDataworker_received:
  assumes "createDataworker (logged E) st = (r, st')"
  obtains
    (configRaises) e where "newDataworkerConfig E = Inl e" "r = Inl e"
      "snd (world st') = snd (world st)"
  | (clientsRejected) config e where "newDataworkerConfig E = Inr config" "r = Inl e"
      "snd (world st') = snd (world st) @ [(ConstructDataworkerClients config, Rejected e)]"
  | (created) config where "newDataworkerConfig E = Inr config" "r = Inr config"
      "snd (world st') = snd (world st) @ [(ConstructDataworkerClients config, Fulfilled)]"
proof (cases "newDataworkerConfig E")
  case (Inl e)
  with assms have "r = Inl e" "snd (world st') = snd (world st)"
    by (auto simp: createDataworker_def sync_def andThen_def logged_reads)
  with Inl show thesis by (rule configRaises)
next
  case (Inr config)
  obtain r0 w where c: "constructDataworkerClients E (fst (world st)) config = (r0, w)"
    by (cases "constructDataworkerClients E (fst (world st)) config")
  show thesis
  proof (cases r0)
    case (Inl e)
    with assms Inr c have "r = Inl e"
      "snd (world st') = snd (world st) @ [(ConstructDataworkerClients config, Rejected e)]"
      by (auto simp: createDataworker_def sync_def andThen_def call_def logged_reads
            logged_calls)
    with Inr show thesis by (rule clientsRejected)
  next
    case ok: (Inr u)
    with assms Inr c have "r = Inr config"
      "snd (world st') = snd (world st) @ [(ConstructDataworkerClients config, Fulfilled)]"
      by (auto simp: createDataworker_def sync_def andThen_def call_def logged_reads
            logged_calls)
    with Inr show thesis by (rule created)
  qed
qed

lemma catchBlock_received:
  "catchBlock (logged E) err st = (r, st') \<Longrightarrow>
     r = Some (Inl err)
     \<and> snd (world st') = snd (world st)
          @ (if redisClientDefined E (fst (world st)) then [(RedisDisconnect, Fulfilled)]
             else [])"
  by (auto simp: catchBlock_def logged_reads logged_calls split: if_splits)

lemma runDataworker_rejections:
  assumes "runDataworker (logged E) fuel st = (r, st')"
  shows "\<exists>calls. snd (world st') = snd (world st) @ calls
    \<and> (\<forall>c \<in> set calls. \<forall>e. snd c = Rejected e \<longrightarrow> r = Some (Inl e))
    \<and> (callsAfterRejection calls = []
        \<or> callsAfterRejection calls = [(RedisDisconnect, Fulfilled)])"
proof -
  obtain x st1 where cd: "createDataworker (logged E) st = (x, st1)"
    by (cases "createDataworker (logged E) st")
  from cd show ?thesis
  proof (cases rule: createDataworker_received)
    case (configRaises e)
    with assms cd show ?thesis by (simp add: runDataworker_def)
  next
    case (clientsRejected config e)
    with assms cd have "r = Some (Inl e)" "st' = st1" by (simp_all add: runDataworker_def)
    with clientsRejected show ?thesis by simp
  next
    case (created config)
    obtain y st2 where pl: "pollingLoop (logged E) config fuel st1 = (y, st2)"
      by (cases "pollingLoop (logged E) config fuel st1")
    from pollingLoop_rejections [OF pl] obtain calls where
      c: "snd (world st2) = snd (world st1) @ calls"
         "\<forall>c \<in> set calls. \<forall>e. snd c = Rejected e \<longrightarrow> y = Some (Inl e)"
         "callsAfterRejection calls = []" by blast
    let ?first = "(ConstructDataworkerClients config, Fulfilled)"
    show ?thesis
    proof (cases "\<exists>err. y = Some (Inl err)")
      case True
      then obtain err where y: "y = Some (Inl err)" ..
      with assms cd created(2) pl have cb: "catchBlock (logged E) err st2 = (r, st')"
        by (simp add: runDataworker_def)
      let ?last = "if redisClientDefined E (fst (world st2))
                   then [(RedisDisconnect, Fulfilled)] else []"
      from catchBlock_received [OF cb] have
        r: "r = Some (Inl err)" and w: "snd (world st') = snd (world st2) @ ?last" by simp_all
      have after: "callsAfterRejection (calls @ ?last) = []
          \<or> callsAfterRejection (calls @ ?last) = [(RedisDisconnect, Fulfilled)]"
      proof (cases "\<forall>c \<in> set calls. \<not> isRejected (snd c)")
        case True
        then show ?thesis by (simp add: callsAfterRejection_append)
      next
        case False
        then have "\<exists>c \<in> set calls. isRejected (snd c)" by simp
        from callsAfterRejection_rejected [OF this, of ?last] c(3) show ?thesis by simp
      qed
      from c(2) y r have "\<forall>c \<in> set (?first # calls @ ?last).
          \<forall>e. snd c = Rejected e \<longrightarrow> r = Some (Inl e)" by auto
      with after w c(1) created(3) show ?thesis
        by (intro exI [of _ "?first # calls @ ?last"]) simp
    next
      case False
      with assms cd created(2) pl have "r = y" "st' = st2"
        by (auto simp: runDataworker_def split: option.splits sum.splits)
      with c created(3) show ?thesis
        by (intro exI [of _ "?first # calls"]) simp
    qed
  qed
qed

lemma iteration_error_ends_run:
  assumes "createDataworker (logged E) st0 = (Inr config, st1)"
    and "pollingLoop (logged E) config k st1 = (None, st2)"
    and "loopIteration (logged E) config st2 = (Inl err, st3)"
  shows "pollingLoop (logged E) config (k + Suc fuel) st1 = (Some (Inl err), st3)"
    and "\<exists>st4. runDataworker (logged E) (k + Suc fuel) st0 = (Some (Inl err), st4)
           \<and> snd (world st4) = snd (world st3)
                @ (if redisClientDefined E (fst (world st3))
                   then [(RedisDisconnect, Fulfilled)] else [])"
proof -
  from pollingLoop_add [OF assms(2), of "Suc fuel"] assms(3)
  show loop: "pollingLoop (logged E) config (k + Suc fuel) st1 = (Some (Inl err), st3)"
    by simp
  obtain r st4 where cb: "catchBlock (logged E) err st3 = (r, st4)"
    by (cases "catchBlock (logged E) err st3")
  from catchBlock_received [OF cb] cb assms(1) loop
  show "\<exists>st4. runDataworker (logged E) (k + Suc fuel) st0 = (Some (Inl err), st4)
           \<and> snd (world st4) = snd (world st3)
                @ (if redisClientDefined E (fst (world st3))
                   then [(RedisDisconnect, Fulfilled)] else [])"
    by (intro exI [of _ st4]) (simp add: runDataworker_def)
qed

subsection \<open>Keeping a record changes nothing else\<close>

lemma withoutRecord_simps [simp]:
  "world (withoutRecord st) = fst (world st)"
  "heap (withoutRecord st) = heap st"
  "trace (withoutRecord st) = trace st"
  by (simp_all add: withoutRecord_def)

lemma call_logged:
  assumes "\<And>wl. apsnd fst (f' wl) = f (fst wl)"
  shows "apsnd withoutRecord (call ev f' st) = call ev f (withoutRecord st)"
proof -
  obtain r w l where f': "f' (world st) = (r, (w, l))" by (cases "f' (world st)") auto
  with assms [of "world st"] have "f (fst (world st)) = (r, w)" by simp
  with f' show ?thesis by (simp add: call_def withoutRecord_def)
qed

lemma callWithAllocator_logged:
  assumes "\<And>wl b. (case f' wl b of (r, w, b') \<Rightarrow> (r, fst w, b')) = f (fst wl) b"
  shows "apsnd withoutRecord (callWithAllocator ev ref f' st)
       = callWithAllocator ev ref f (withoutRecord st)"
proof -
  obtain r w l b' where f': "f' (world st) (heap st ! ref) = (r, (w, l), b')"
    by (cases "f' (world st) (heap st ! ref)") auto
  with assms [of "world st" "heap st ! ref"] have "f (fst (world st)) (heap st ! ref) = (r, w, b')"
    by simp
  with f' show ?thesis by (simp add: callWithAllocator_def withoutRecord_def)
qed

lemma andThen_logged:
  assumes "apsnd withoutRecord m' = m"
    and "\<And>a s. apsnd withoutRecord (k' a s) = k a (withoutRecord s)"
  shows "apsnd withoutRecord (andThen m' k') = andThen m k"
proof -
  obtain r s where m': "m' = (r, s)" by (cases m')
  with assms(1) have m: "m = (r, withoutRecord s)" by auto
  show ?thesis
  proof (cases r)
    case (Inl e)
    with m m' show ?thesis by (simp add: andThen_def)
  next
    case (Inr a)
    with m m' assms(2) [of a s] show ?thesis by (simp add: andThen_def)
  qed
qed

lemma sync_logged: "apsnd withoutRecord (sync r st) = sync r (withoutRecord st)"
  by (simp add: sync_def)

lemma retryRound_logged:
  "apsnd withoutRecord (retryRound (logged E) config endBlocks i customConfig st)
     = retryRound E config endBlocks i customConfig (withoutRecord st)"
  unfolding retryRound_def
  by (intro andThen_logged call_logged)
     (simp_all add: sync_def logged_reads logged_calls split: prod.splits)

lemma retryLoop_logged:
  "apsnd withoutRecord (retryLoop (logged E) config endBlocks i customConfig spc ivb st)
     = retryLoop E config endBlocks i customConfig spc ivb (withoutRecord st)"
proof (induction "logged E" config endBlocks i customConfig spc ivb st rule: retryLoop.induct)
  case (1 config endBlocks i customConfig spc ivb st)
  show ?case
  proof (cases "int i \<le> dataworkerFastLookbackRetryCount config")
    case False
    then show ?thesis by (simp add: retryLoop.simps)
  next
    case True
    obtain x st1 where rr: "retryRound (logged E) config endBlocks i customConfig st = (x, st1)"
      by (cases "retryRound (logged E) config endBlocks i customConfig st")
    with retryRound_logged [of E config endBlocks i customConfig st]
    have plain: "retryRound E config endBlocks i customConfig (withoutRecord st)
        = (x, withoutRecord st1)" by simp
    show ?thesis
    proof (cases x)
      case (Inl e)
      with True rr plain show ?thesis
        by (simp add: retryLoop.simps [of _ _ _ i])
    next
      case (Inr res)
      show ?thesis
      proof (cases res)
        case (Widened customConfig' clients invalid)
        with Inr have x: "x = Inr (Widened customConfig' clients invalid)" by simp
        from "1.hyps" [OF True rr [symmetric] x refl] True rr plain x show ?thesis
          by (simp add: retryLoop.simps [of _ _ _ i])
      next
        case (Break clients invalid)
        with Inr True rr plain show ?thesis
          by (simp add: retryLoop.simps [of _ _ _ i])
      qed
    qed
  qed
qed

lemma disputerStep_logged:
  "apsnd withoutRecord (disputerStep (logged E) config spc ivb st)
     = disputerStep E config spc ivb (withoutRecord st)"
proof (cases "disputerEnabled config")
  case True
  have "apsnd withoutRecord
          (call (EvValidatePendingRootBundle (sendingDisputesEnabled config) ivb)
             (\<lambda>w. validatePendingRootBundle (logged E) w spc (sendingDisputesEnabled config) ivb)
             st)
      = call (EvValidatePendingRootBundle (sendingDisputesEnabled config) ivb)
          (\<lambda>w. validatePendingRootBundle E w spc (sendingDisputesEnabled config) ivb)
          (withoutRecord st)"
    by (rule call_logged) (simp add: logged_calls split: prod.splits)
  with True show ?thesis by (simp add: disputerStep_def)
next
  case False
  then show ?thesis by (simp add: disputerStep_def)
qed

lemma proposerStep_logged:
  "apsnd withoutRecord (proposerStep (logged E) config spc ivb st)
     = proposerStep E config spc ivb (withoutRecord st)"
proof (cases "proposerEnabled config")
  case True
  have "apsnd withoutRecord
          (call (EvProposeRootBundle (rootBundleExecutionThreshold config)
                   (sendingProposalsEnabled config) ivb)
             (\<lambda>w. proposeRootBundle (logged E) w spc (rootBundleExecutionThreshold config)
                     (sendingProposalsEnabled config) ivb) st)
      = call (EvProposeRootBundle (rootBundleExecutionThreshold config)
                   (sendingProposalsEnabled config) ivb)
          (\<lambda>w. proposeRootBundle E w spc (rootBundleExecutionThreshold config)
                  (sendingProposalsEnabled config) ivb) (withoutRecord st)"
    by (rule call_logged) (simp add: logged_calls split: prod.splits)
  with True show ?thesis by (simp add: proposerStep_def)
next
  case False
  then show ?thesis by (simp add: proposerStep_def)
qed

lemma allocateBalanceAllocator_logged:
  "apsnd withoutRecord (allocateBalanceAllocator (logged E) spc st)
     = allocateBalanceAllocator E spc (withoutRecord st)"
  by (cases "spokePoolClientsToProviders E spc")
     (simp_all add: allocateBalanceAllocator_def logged_reads withoutRecord_def)

lemma executorStep_logged:
  "apsnd withoutRecord (executorStep (logged E) config spc ivb st)
     = executorStep E config spc ivb (withoutRecord st)"
proof (cases "executorEnabled config")
  case True
  have "apsnd withoutRecord
     (andThen (allocateBalanceAllocator (logged E) spc st)
          (\<lambda>balanceAllocator st.
        andThen
          (callWithAllocator
             (EvExecutePoolRebalanceLeaves balanceAllocator (sendingExecutionsEnabled config) ivb)
             balanceAllocator
             (\<lambda>w b. executePoolRebalanceLeaves (logged E) w spc b
                      (sendingExecutionsEnabled config) ivb) st)
          (\<lambda>_ st.
        andThen
          (callWithAllocator
             (EvExecuteSlowRelayLeaves balanceAllocator (sendingExecutionsEnabled config) ivb)
             balanceAllocator
             (\<lambda>w b. executeSlowRelayLeaves (logged E) w spc b
                      (sendingExecutionsEnabled config) ivb) st)
          (\<lambda>_ st.
        callWithAllocator
          (EvExecuteRelayerRefundLeaves balanceAllocator (sendingExecutionsEnabled config) ivb)
          balanceAllocator
          (\<lambda>w b. executeRelayerRefundLeaves (logged E) w spc b
                   (sendingExecutionsEnabled config) ivb) st))))
   = andThen (allocateBalanceAllocator E spc (withoutRecord st))
          (\<lambda>balanceAllocator st.
        andThen
          (callWithAllocator
             (EvExecutePoolRebalanceLeaves balanceAllocator (sendingExecutionsEnabled config) ivb)
             balanceAllocator
             (\<lambda>w b. executePoolRebalanceLeaves E w spc b
                      (sendingExecutionsEnabled config) ivb) st)
          (\<lambda>_ st.
        andThen
          (callWithAllocator
             (EvExecuteSlowRelayLeaves balanceAllocator (sendingExecutionsEnabled config) ivb)
             balanceAllocator
             (\<lambda>w b. executeSlowRelayLeaves E w spc b
                      (sendingExecutionsEnabled config) ivb) st)
          (\<lambda>_ st.
        callWithAllocator
          (EvExecuteRelayerRefundLeaves balanceAllocator (sendingExecutionsEnabled config) ivb)
          balanceAllocator
          (\<lambda>w b. executeRelayerRefundLeaves E w spc b
                   (sendingExecutionsEnabled config) ivb) st)))"
    by (intro andThen_logged callWithAllocator_logged allocateBalanceAllocator_logged)
       (simp_all add: logged_calls split: prod.splits)
  with True show ?thesis by (simp add: executorStep_def)
next
  case False
  then show ?thesis by (simp add: executorStep_def)
qed

lemma afterResolve_logged:
  "apsnd withoutRecord (afterResolve (logged E) config spc ivb st)
     = afterResolve E config spc ivb (withoutRecord st)"
  unfolding afterResolve_def
  by (intro andThen_logged call_logged disputerStep_logged proposerStep_logged
        executorStep_logged)
     (simp_all add: logged_calls split: prod.splits)

lemma iterationFromRound_logged:
  "apsnd withoutRecord (iterationFromRound (logged E) config endBlocks i customConfig spc ivb st)
     = iterationFromRound E config endBlocks i customConfig spc ivb (withoutRecord st)"
  unfolding iterationFromRound_def
  by (intro andThen_logged retryLoop_logged) (simp add: afterResolve_logged split: prod.splits)

lemma loopIteration_logged:
  "apsnd withoutRecord (loopIteration (logged E) config st)
     = loopIteration E config (withoutRecord st)"
  unfolding loopIteration_def
proof (intro andThen_logged call_logged)
  show "\<And>wl. apsnd fst (updateDataworkerClients (logged E) wl)
      = updateDataworkerClients E (fst wl)"
    by (simp add: logged_calls split: prod.splits)
  show "\<And>a s. apsnd withoutRecord (sync (bundleEndBlockMapping (logged E) (world s)) s)
      = sync (bundleEndBlockMapping E (world (withoutRecord s))) (withoutRecord s)"
    by (simp add: sync_def bundleEndBlockMapping_logged)
  show "\<And>a s aa sa. apsnd withoutRecord (iterationFromRound (logged E) config aa 0 config None [] sa)
      = iterationFromRound E config aa 0 config None [] (withoutRecord sa)"
    by (rule iterationFromRound_logged)
qed

lemma pollingLoop_logged:
  "apsnd withoutRecord (pollingLoop (logged E) config fuel st)
     = pollingLoop E config fuel (withoutRecord st)"
proof (induction fuel arbitrary: st)
  case 0
  show ?case by simp
next
  case (Suc fuel)
  obtain x st1 where it: "loopIteration (logged E) config st = (x, st1)"
    by (cases "loopIteration (logged E) config st")
  with loopIteration_logged [of E config st]
  have plain: "loopIteration E config (withoutRecord st) = (x, withoutRecord st1)" by simp
  show ?case
  proof (cases x)
    case (Inl e)
    with it plain show ?thesis by simp
  next
    case (Inr stop)
    with it plain Suc.IH [of st1] show ?thesis by (cases stop) simp_all
  qed
qed

lemma createDataworker_logged:
  "apsnd withoutRecord (createDataworker (logged E) st) = createDataworker E (withoutRecord st)"
  unfolding createDataworker_def
  by (intro andThen_logged call_logged)
     (simp_all add: sync_def logged_reads logged_calls split: prod.splits)

lemma catchBlock_logged:
  "apsnd withoutRecord (catchBlock (logged E) err st) = catchBlock E err (withoutRecord st)"
  by (simp add: catchBlock_def logged_reads withoutRecord_def)

lemma runDataworker_logged:
  "apsnd withoutRecord (runDataworker (logged E) fuel st)
     = runDataworker E fuel (withoutRecord st)"
proof -
  obtain x st1 where cd: "createDataworker (logged E) st = (x, st1)"
    by (cases "createDataworker (logged E) st")
  with createDataworker_logged [of E st]
  have plain: "createDataworker E (withoutRecord st) = (x, withoutRecord st1)" by simp
  show ?thesis
  proof (cases x)
    case (Inl e)
    with cd plain show ?thesis by (simp add: runDataworker_def)
  next
    case (Inr config)
    obtain y st2 where pl: "pollingLoop (logged E) config fuel st1 = (y, st2)"
      by (cases "pollingLoop (logged E) config fuel st1")
    with pollingLoop_logged [of E config fuel st1]
    have plain': "pollingLoop E config fuel (withoutRecord st1) = (y, withoutRecord st2)"
      by simp
    from Inr cd plain pl plain' catchBlock_logged [of E _ st2] show ?thesis
      by (simp add: runDataworker_def split: option.splits sum.splits)
  qed
qed

subsection \<open>The example collaborators keeping a record, evaluated\<close>

lemma example_logged_calls:
  "constructDataworkerClients (logged (exampleCollaborators a)) wl config
     = (Inr (), (fst wl, snd wl @ [(ConstructDataworkerClients config, Fulfilled)]))"
  "updateDataworkerClients (logged (exampleCollaborators a)) wl
     = (Inr (), (fst wl, snd wl @ [(UpdateDataworkerClients, Fulfilled)]))"
  "constructSpokePoolClientsForFastDataworker (logged (exampleCollaborators a)) wl cc fromB toB
     = (Inr (dataworkerFastLookbackCount cc),
        (Suc (fst wl), snd wl @ [(ConstructSpokePoolClients cc fromB toB,
                                  Constructed (dataworkerFastLookbackCount cc))]))"
  "validatePendingRootBundle (logged (exampleCollaborators a)) wl clients sending blocks
     = (Inr (), (fst wl, snd wl
          @ [(ValidatePendingRootBundle clients sending blocks, Fulfilled)]))"
  "proposeRootBundle (logged (exampleCollaborators a)) wl clients threshold sending blocks
     = (a, (fst wl, snd wl
          @ [(ProposeRootBundle clients threshold sending blocks, fulfilled a)]))"
  "executePoolRebalanceLeaves (logged (exampleCollaborators a)) wl clients b sending blocks
     = (Inr (), (fst wl, snd wl
          @ [(ExecutePoolRebalanceLeaves clients b sending blocks, Executed (b - 100))]),
        b - 100)"
  "executeSlowRelayLeaves (logged (exampleCollaborators a)) wl clients b sending blocks
     = (Inr (), (fst wl, snd wl
          @ [(ExecuteSlowRelayLeaves clients b sending blocks, Executed (b - 10))]),
        b - 10)"
  "executeRelayerRefundLeaves (logged (exampleCollaborators a)) wl clients b sending blocks
     = (Inr (), (fst wl, snd wl
          @ [(ExecuteRelayerRefundLeaves clients b sending blocks, Executed (b - 1))]),
        b - 1)"
  "executeTransactionQueue (logged (exampleCollaborators a)) wl
     = (Inr (), (fst wl, snd wl @ [(ExecuteTransactionQueue, Fulfilled)]))"
  "processEndPollingLoop (logged (exampleCollaborators a)) wl delay
     = (Inr (delay = 0), (fst wl, snd wl @ [(ProcessEndPollingLoop delay, Answered (delay = 0))]))"
  by (simp_all add: logged_calls example_calls example_fetch)

lemma example_logged_round:
  "retryRound (logged (exampleCollaborators a)) config (fromEntries [(1, 50), (10, 60)]) i cc st =
     (Inr (if 120 - dataworkerFastLookbackCount cc > 50
           then Widened (cc\<lparr>dataworkerFastLookbackCount :=
                  dataworkerFastLookbackCount cc * dataworkerFastLookbackRetryMultiplier config\<rparr>)
                  (dataworkerFastLookbackCount cc) [(1, 120 - dataworkerFastLookbackCount cc)]
           else Break (dataworkerFastLookbackCount cc) [(1, 120 - dataworkerFastLookbackCount cc)]),
      st\<lparr>world := (Suc (fst (world st)),
                   snd (world st)
                   @ [(ConstructSpokePoolClients cc [(1, 100 - dataworkerFastLookbackCount cc)]
                         [(1, 100)], Constructed (dataworkerFastLookbackCount cc))]),
         trace := trace st @
           [EvGetEventSearchConfigs i (dataworkerFastLookbackCount cc),
            EvConstructSpokePoolClients i (dataworkerFastLookbackCount cc)
              [(1, 100 - dataworkerFastLookbackCount cc)] [(1, 100)]]\<rparr>)"
  by (simp add: retryRound_def call_def sync_def andThen_Inr logged_reads example_fetch
        example_logged_calls example_insufficient [simplified])

lemma example_logged_last_round:
  "retryLoop (logged (exampleCollaborators a)) (exampleConfig d)
       (fromEntries [(1, 50), (10, 60)]) (Suc (Suc 0))
       ((exampleConfig d)\<lparr>dataworkerFastLookbackCount := 64\<rparr>) spc ivb st
     = (Inr (Some 64, [(1, 56)]),
        st\<lparr>world := (Suc (fst (world st)),
                     snd (world st)
                     @ [(ConstructSpokePoolClients
                           ((exampleConfig d)\<lparr>dataworkerFastLookbackCount := 64\<rparr>)
                           [(1, 36)] [(1, 100)], Constructed 64)]),
           trace := trace st @
             [EvGetEventSearchConfigs 2 64,
              EvConstructSpokePoolClients 2 64 [(1, 36)] [(1, 100)]]\<rparr>)"
  by (simp add: retryLoop.simps [of _ _ _ "Suc (Suc 0)"]
        retryLoop.simps [of _ _ _ "Suc (Suc (Suc 0))"] example_logged_round example_config)

lemma example_logged_loop:
  "retryLoop (logged (exampleCollaborators a)) (exampleConfig d)
       (fromEntries [(1, 50), (10, 60)]) 0 (exampleConfig d) None [] st
     = (Inr (Some 64, [(1, 56)]),
        st\<lparr>world := (Suc (Suc (Suc (fst (world st)))), snd (world st) @ exampleFetches d),
           trace := trace st @
             [EvGetEventSearchConfigs 0 16,
              EvConstructSpokePoolClients 0 16 [(1, 84)] [(1, 100)],
              EvGetEventSearchConfigs 1 32,
              EvConstructSpokePoolClients 1 32 [(1, 68)] [(1, 100)],
              EvGetEventSearchConfigs 2 64,
              EvConstructSpokePoolClients 2 64 [(1, 36)] [(1, 100)]]\<rparr>)"
  by (simp add: retryLoop.simps [of _ _ _ 0] retryLoop.simps [of _ _ _ "Suc 0"]
        example_logged_last_round example_logged_round example_config exampleFetches_def)

lemma example_logged_afterResolve:
  "afterResolve (logged (exampleCollaborators (Inr ()))) (exampleConfig d) (Some c) blocks st
     = (Inr (d = 0),
        st\<lparr>world := (fst (world st),
                     snd (world st)
                     @ [(ValidatePendingRootBundle (Some c) False blocks, Fulfilled),
                        (ProposeRootBundle (Some c) 7 True blocks, Fulfilled),
                        (ExecutePoolRebalanceLeaves (Some c) 1000 True blocks, Executed 900),
                        (ExecuteSlowRelayLeaves (Some c) 900 True blocks, Executed 890),
                        (ExecuteRelayerRefundLeaves (Some c) 890 True blocks, Executed 889),
                        (ExecuteTransactionQueue, Fulfilled),
                        (ProcessEndPollingLoop d, Answered (d = 0))]),
           heap := heap st @ [889],
           trace := trace st @ plannedCalls (exampleConfig d) (length (heap st)) blocks\<rparr>)"
  by (simp add: afterResolve_def disputerStep_def proposerStep_def executorStep_def
        allocateBalanceAllocator_def call_def callWithAllocator_def andThen_Inr
        logged_reads example_calls example_logged_calls example_config plannedCalls_def
        disputerCalls_def proposerCalls_def executorCalls_def)

lemma example_logged_afterResolve_rejected:
  "afterResolve (logged (exampleCollaborators (Inl e))) (exampleConfig d) (Some c) blocks st
     = (Inl e,
        st\<lparr>world := (fst (world st),
                     snd (world st)
                     @ [(ValidatePendingRootBundle (Some c) False blocks, Fulfilled),
                        (ProposeRootBundle (Some c) 7 True blocks, Rejected e)]),
           trace := trace st @
             [EvValidatePendingRootBundle False blocks, EvProposeRootBundle 7 True blocks]\<rparr>)"
  by (simp add: afterResolve_def disputerStep_def proposerStep_def
        call_def andThen_Inr andThen_Inl example_logged_calls example_config)

lemma example_logged_iteration:
  "loopIteration (logged (exampleCollaborators (Inr ()))) (exampleConfig d) st
     = (Inr (d = 0),
        st\<lparr>world := (Suc (Suc (Suc (fst (world st)))),
                     snd (world st) @ exampleIterationCalls d),
           heap := heap st @ [889],
           trace := trace st @
             [EvUpdateDataworkerClients,
              EvGetEventSearchConfigs 0 16,
              EvConstructSpokePoolClients 0 16 [(1, 84)] [(1, 100)],
              EvGetEventSearchConfigs 1 32,
              EvConstructSpokePoolClients 1 32 [(1, 68)] [(1, 100)],
              EvGetEventSearchConfigs 2 64,
              EvConstructSpokePoolClients 2 64 [(1, 36)] [(1, 100)]]
             @ plannedCalls (exampleConfig d) (length (heap st)) [(1, 56)]\<rparr>)"
  by (simp add: loopIteration_def iterationFromRound_def call_def sync_def andThen_Inr
        bundleEndBlockMapping_logged example_logged_calls example_endBlocks
        example_logged_loop example_logged_afterResolve exampleIterationCalls_def)

lemma example_logged_iteration_rejected:
  "loopIteration (logged (exampleCollaborators (Inl e))) (exampleConfig d) st
     = (Inl e,
        st\<lparr>world := (Suc (Suc (Suc (fst (world st)))),
                     snd (world st) @ exampleRejectedCalls e d),
           trace := trace st @
             [EvUpdateDataworkerClients,
              EvGetEventSearchConfigs 0 16,
              EvConstructSpokePoolClients 0 16 [(1, 84)] [(1, 100)],
              EvGetEventSearchConfigs 1 32,
              EvConstructSpokePoolClients 1 32 [(1, 68)] [(1, 100)],
              EvGetEventSearchConfigs 2 64,
              EvConstructSpokePoolClients 2 64 [(1, 36)] [(1, 100)],
              EvValidatePendingRootBundle False [(1, 56)],
              EvProposeRootBundle 7 True [(1, 56)]]\<rparr>)"
  by (simp add: loopIteration_def iterationFromRound_def call_def sync_def andThen_Inr
        bundleEndBlockMapping_logged example_logged_calls example_endBlocks
        example_logged_loop example_logged_afterResolve_rejected exampleRejectedCalls_def)

lemma example_requests:
  "plannedRequests (exampleConfig d) spc blocks ledger ledger' ledger'' =
     [ValidatePendingRootBundle spc False blocks,
      ProposeRootBundle spc 7 True blocks,
      ExecutePoolRebalanceLeaves spc ledger True blocks,
      ExecuteSlowRelayLeaves spc ledger' True blocks,
      ExecuteRelayerRefundLeaves spc ledger'' True blocks,
      ExecuteTransactionQueue,
      ProcessEndPollingLoop d]"
  by (simp add: plannedRequests_def disputerRequests_def proposerRequests_def
        executorRequests_def example_config)

subsection \<open>Retries exhausted without convergence\<close>

text \<open>
  Claim C3. Let round \<open>i\<close> be the last round the retry count allows, and let it end with
  the lookback still insufficient: it has constructed \<open>clients\<close>, read their invalid
  bundle start blocks \<open>invalid\<close>, found some start block above the end block of its
  chain, and widened the lookback count. Then the retry loop does not raise: it returns
  with \<open>clients\<close> and \<open>invalid\<close>, and the iteration goes on with the calls after the
  loop. What the collaborators receive from there on is an initial part of the planned
  calls with exactly these clients and exactly these start blocks as arguments --
  \<open>validatePendingRootBundle\<close>, \<open>proposeRootBundle\<close> and the three executions, each
  when enabled, then the flush and the stop check -- and all of them when the iteration
  completes. The iteration raises only an error that one of these calls rejected with
  or that \<open>spokePoolClientsToProviders\<close> threw on these clients.
\<close>

theorem exhausted_retries_surface_invalid_start_blocks:
  assumes last: "int i = dataworkerFastLookbackRetryCount config"
    and round: "retryRound (logged E) config endBlocks i customConfig st
                  = (Inr (Widened customConfig' clients invalid), st1)"
    and rest: "iterationFromRound (logged E) config endBlocks i customConfig spc ivb st
                  = (r, st2)"
  shows "(\<exists>fromB toB. callsReceived st st1
            = [(ConstructSpokePoolClients customConfig fromB toB, Constructed clients)])
    \<and> getLatestInvalidBundleStartBlocks E clients = Inr invalid
    \<and> lookbackInsufficient invalid endBlocks
    \<and> retryLoop (logged E) config endBlocks i customConfig spc ivb st
          = (Inr (Some clients, invalid), st1)
    \<and> afterResolve (logged E) config (Some clients) invalid st1 = (r, st2)
    \<and> (\<exists>ledger ledger' ledger''.
          prefix (map fst (callsReceived st1 st2))
            (plannedRequests config (Some clients) invalid ledger ledger' ledger'')
        \<and> (\<forall>stop. r = Inr stop \<longrightarrow>
              map fst (callsReceived st1 st2)
                = plannedRequests config (Some clients) invalid ledger ledger' ledger''))
    \<and> (\<forall>e. r = Inl e \<longrightarrow>
          (callsReceived st1 st2 \<noteq> [] \<and> snd (last (callsReceived st1 st2)) = Rejected e)
        \<or> (executorEnabled config \<and> spokePoolClientsToProviders E (Some clients) = Inl e))"
proof -
  from round have fetched: "\<exists>fromB toB. callsReceived st st1
            = [(ConstructSpokePoolClients customConfig fromB toB, Constructed clients)]"
    and blocks: "getLatestInvalidBundleStartBlocks E clients = Inr invalid"
    and insufficient: "lookbackInsufficient invalid endBlocks"
    by (cases rule: retryRound_received; auto simp: callsReceived_append split: if_splits)+
  from last round have loop:
    "retryLoop (logged E) config endBlocks i customConfig spc ivb st
       = (Inr (Some clients, invalid), st1)"
    by (simp add: retryLoop.simps [of _ _ _ i] retryLoop.simps [of _ _ _ "Suc i"])
  with rest have after: "afterResolve (logged E) config (Some clients) invalid st1 = (r, st2)"
    by (simp add: iterationFromRound_def andThen_Inr)
  from afterResolve_requests [OF after] obtain calls ledger ledger' ledger'' where
    c: "snd (world st2) = snd (world st1) @ calls"
       "prefix (map fst calls)
          (plannedRequests config (Some clients) invalid ledger ledger' ledger'')"
       "\<forall>stop. r = Inr stop \<longrightarrow>
          map fst calls = plannedRequests config (Some clients) invalid ledger ledger' ledger''"
    by blast
  from callsReceived_append [OF c(1)] have received: "callsReceived st1 st2 = calls" .
  from c(2,3) have planned:
    "\<exists>ledger ledger' ledger''.
          prefix (map fst (callsReceived st1 st2))
            (plannedRequests config (Some clients) invalid ledger ledger' ledger'')
        \<and> (\<forall>stop. r = Inr stop \<longrightarrow>
              map fst (callsReceived st1 st2)
                = plannedRequests config (Some clients) invalid ledger ledger' ledger'')"
    unfolding received by blast
  from afterResolve_rejections [OF after] c(1) have raised:
    "\<forall>e. r = Inl e \<longrightarrow>
          (callsReceived st1 st2 \<noteq> [] \<and> snd (last (callsReceived st1 st2)) = Rejected e)
        \<or> (executorEnabled config \<and> spokePoolClientsToProviders E (Some clients) = Inl e)"
    unfolding received by auto
  from fetched blocks insufficient loop after planned raised show ?thesis by blast
qed

theorem exhausted_retries_surface_invalid_start_blocks_witness:
  "\<exists>st1 st2.
      int (Suc (Suc 0)) = dataworkerFastLookbackRetryCount (exampleConfig 0)
    \<and> retryRound (logged (exampleCollaborators (Inr ()))) (exampleConfig 0)
        (fromEntries [(1, 50), (10, 60)]) (Suc (Suc 0))
        ((exampleConfig 0)\<lparr>dataworkerFastLookbackCount := 64\<rparr>) recordingState
        = (Inr (Widened ((exampleConfig 0)\<lparr>dataworkerFastLookbackCount := 128\<rparr>) 64 [(1, 56)]),
           st1)
    \<and> iterationFromRound (logged (exampleCollaborators (Inr ()))) (exampleConfig 0)
        (fromEntries [(1, 50), (10, 60)]) (Suc (Suc 0))
        ((exampleConfig 0)\<lparr>dataworkerFastLookbackCount := 64\<rparr>) (Some 32) [(1, 88)]
        recordingState
        = (Inr True, st2)
    \<and> callsReceived recordingState st1
        = [(ConstructSpokePoolClients ((exampleConfig 0)\<lparr>dataworkerFastLookbackCount := 64\<rparr>)
              [(1, 36)] [(1, 100)], Constructed 64)]
    \<and> callsReceived st1 st2
        = [(ValidatePendingRootBundle (Some 64) False [(1, 56)], Fulfilled),
           (ProposeRootBundle (Some 64) 7 True [(1, 56)], Fulfilled),
           (ExecutePoolRebalanceLeaves (Some 64) 1000 True [(1, 56)], Executed 900),
           (ExecuteSlowRelayLeaves (Some 64) 900 True [(1, 56)], Executed 890),
           (ExecuteRelayerRefundLeaves (Some 64) 890 True [(1, 56)], Executed 889),
           (ExecuteTransactionQueue, Fulfilled),
           (ProcessEndPollingLoop 0, Answered True)]
    \<and> (\<exists>ledger ledger' ledger''.
          map fst (callsReceived st1 st2)
            = plannedRequests (exampleConfig 0) (Some 64) [(1, 56)] ledger ledger' ledger'')"
proof -
  let ?E = "exampleCollaborators (Inr ())"
  let ?eb = "fromEntries [(1, 50), (10, 60)]"
  let ?cc = "(exampleConfig 0)\<lparr>dataworkerFastLookbackCount := 64\<rparr>"
  let ?fetch = "(ConstructSpokePoolClients ?cc [(1, 36)] [(1, 100)], Constructed 64)"
  let ?st1 = "recordingState\<lparr>world := (Suc 0, [?fetch]),
                trace := [EvGetEventSearchConfigs 2 64,
                          EvConstructSpokePoolClients 2 64 [(1, 36)] [(1, 100)]]\<rparr>"
  obtain st2 where st2:
    "afterResolve (logged ?E) (exampleConfig 0) (Some 64) [(1, 56)] ?st1 = (Inr True, st2)"
    by (simp add: example_logged_afterResolve)
  have last: "int (Suc (Suc 0)) = dataworkerFastLookbackRetryCount (exampleConfig 0)"
    by (simp add: example_config)
  have round: "retryRound (logged ?E) (exampleConfig 0) ?eb (Suc (Suc 0)) ?cc recordingState
      = (Inr (Widened ((exampleConfig 0)\<lparr>dataworkerFastLookbackCount := 128\<rparr>) 64 [(1, 56)]),
         ?st1)"
    by (simp add: example_logged_round example_config recordingState_def)
  have rest: "iterationFromRound (logged ?E) (exampleConfig 0) ?eb (Suc (Suc 0)) ?cc
      (Some 32) [(1, 88)] recordingState = (Inr True, st2)"
    using st2
    by (simp add: iterationFromRound_def example_logged_last_round andThen_Inr
          recordingState_def)
  have received: "callsReceived ?st1 st2
        = [(ValidatePendingRootBundle (Some 64) False [(1, 56)], Fulfilled),
           (ProposeRootBundle (Some 64) 7 True [(1, 56)], Fulfilled),
           (ExecutePoolRebalanceLeaves (Some 64) 1000 True [(1, 56)], Executed 900),
           (ExecuteSlowRelayLeaves (Some 64) 900 True [(1, 56)], Executed 890),
           (ExecuteRelayerRefundLeaves (Some 64) 890 True [(1, 56)], Executed 889),
           (ExecuteTransactionQueue, Fulfilled),
           (ProcessEndPollingLoop 0, Answered True)]"
    using st2 by (auto simp: example_logged_afterResolve callsReceived_def)
  have first: "callsReceived recordingState ?st1 = [?fetch]"
    by (simp add: callsReceived_def recordingState_def)
  from exhausted_retries_surface_invalid_start_blocks [OF last round rest]
  have "\<exists>ledger ledger' ledger''.
          map fst (callsReceived ?st1 st2)
            = plannedRequests (exampleConfig 0) (Some 64) [(1, 56)] ledger ledger' ledger''"
    by blast
  with last round rest first received show ?thesis
    by (intro exI [of _ ?st1] exI [of _ st2] conjI)
qed

subsection \<open>The order of the steps of an iteration\<close>

text \<open>
  Claim C4. What the collaborators receive in an iteration is an initial part of: the
  refresh of the clients, then fetches of the retry loop, then the planned calls after
  the loop -- \<open>validatePendingRootBundle\<close> when the disputer is enabled,
  \<open>proposeRootBundle\<close> when the proposer is enabled, the executions of the pool
  rebalance leaves, the slow relay leaves and the relayer refund leaves, in this order,
  when the executor is enabled, the flush of the transaction queue and the stop check.
  When the iteration completes they receive all of it. So the places of the callees in
  the order of the steps never decrease along an iteration, and a completed iteration
  of an enabled executor has made the slow relay execution before the relayer refund
  execution and both before the flush.
\<close>

theorem iteration_steps_in_fixed_order:
  assumes "loopIteration (logged E) config st = (r, st')"
  shows "\<exists>fetches spc ivb ledger ledger' ledger''.
      (\<forall>q \<in> set fetches. isFetch q)
    \<and> prefix (map fst (callsReceived st st'))
        (UpdateDataworkerClients # fetches
           @ plannedRequests config spc ivb ledger ledger' ledger'')
    \<and> (\<forall>stop. r = Inr stop \<longrightarrow>
          map fst (callsReceived st st') = UpdateDataworkerClients # fetches
             @ plannedRequests config spc ivb ledger ledger' ledger'')
    \<and> sorted (map (stepOrder \<circ> fst) (callsReceived st st'))"
proof -
  from loopIteration_requests [OF assms] obtain calls fetches spc ivb ledger ledger' ledger''
    where c: "snd (world st') = snd (world st) @ calls"
      "\<forall>q \<in> set fetches. isFetch q"
      "prefix (map fst calls)
        (UpdateDataworkerClients # fetches
           @ plannedRequests config spc ivb ledger ledger' ledger'')"
      "\<forall>stop. r = Inr stop \<longrightarrow>
          map fst calls = UpdateDataworkerClients # fetches
             @ plannedRequests config spc ivb ledger ledger' ledger''"
      "sorted (map (stepOrder \<circ> fst) calls)" by (elim exE conjE) (rule that)
  from callsReceived_append [OF c(1)] have received: "callsReceived st st' = calls" .
  from c(2-5) show ?thesis unfolding received
    by (intro exI conjI)
qed

theorem iteration_steps_in_fixed_order_witness:
  "\<exists>st'.
      loopIteration (logged (exampleCollaborators (Inr ()))) (exampleConfig 0) recordingState
        = (Inr True, st')
    \<and> callsReceived recordingState st' = exampleIterationCalls 0
    \<and> map (stepOrder \<circ> fst) (callsReceived recordingState st')
        = [1, 2, 2, 2, 3, 4, 5, 6, 7, 8, 9]
    \<and> (\<exists>fetches spc ivb ledger ledger' ledger''.
          map fst (callsReceived recordingState st')
            = UpdateDataworkerClients # fetches
                @ plannedRequests (exampleConfig 0) spc ivb ledger ledger' ledger'')
    \<and> sorted (map (stepOrder \<circ> fst) (callsReceived recordingState st'))"
proof -
  let ?E = "exampleCollaborators (Inr ())"
  obtain st' where run:
    "loopIteration (logged ?E) (exampleConfig 0) recordingState = (Inr True, st')"
    by (simp add: example_logged_iteration)
  then have received: "callsReceived recordingState st' = exampleIterationCalls 0"
    by (auto simp: example_logged_iteration callsReceived_def recordingState_def)
  have places: "map (stepOrder \<circ> fst) (exampleIterationCalls 0)
      = [1, 2, 2, 2, 3, 4, 5, 6, 7, 8, 9]"
    by (simp add: exampleIterationCalls_def exampleFetches_def)
  from iteration_steps_in_fixed_order [OF run]
  obtain fetches spc ivb ledger ledger' ledger'' where
    o: "\<forall>q \<in> set fetches. isFetch q"
       "prefix (map fst (callsReceived recordingState st'))
          (UpdateDataworkerClients # fetches
             @ plannedRequests (exampleConfig 0) spc ivb ledger ledger' ledger'')"
       "\<forall>stop. (Inr True :: error + bool) = Inr stop \<longrightarrow>
          map fst (callsReceived recordingState st') = UpdateDataworkerClients # fetches
             @ plannedRequests (exampleConfig 0) spc ivb ledger ledger' ledger''"
       "sorted (map (stepOrder \<circ> fst) (callsReceived recordingState st'))"
    by (elim exE conjE) (rule that)
  from spec [OF o(3), of True] have eq: "map fst (callsReceived recordingState st')
            = UpdateDataworkerClients # fetches
                @ plannedRequests (exampleConfig 0) spc ivb ledger ledger' ledger''"
    by simp
  have all: "\<exists>fetches spc ivb ledger ledger' ledger''.
          map fst (callsReceived recordingState st')
            = UpdateDataworkerClients # fetches
                @ plannedRequests (exampleConfig 0) spc ivb ledger ledger' ledger''"
    by (intro exI) (rule eq)
  from places received have places':
    "map (stepOrder \<circ> fst) (callsReceived recordingState st')
       = [1, 2, 2, 2, 3, 4, 5, 6, 7, 8, 9]" by simp
  from run received places' all o(4) show ?thesis
    by (intro exI [of _ st'] conjI)
qed

subsection \<open>The balance allocator of an iteration\<close>

text \<open>
  Claim C5. Over any number of iterations of the top-level loop, from any state, the
  calls the collaborators receive pass the monitor of the ledgers. In every iteration
  the pool rebalance execution is given the ledger of a new balance allocator, made from
  the providers of the spoke pool clients of that iteration, whatever ledger an earlier
  iteration left; the slow relay execution is given the ledger the pool rebalance
  execution left in that allocator, and the relayer refund execution the ledger the
  slow relay execution left. No execution is given a ledger of an earlier iteration.
\<close>

theorem balance_allocator_fresh_and_shared:
  assumes "pollingLoop (logged E) config fuel st = (r, st')"
  shows "\<exists>current'. ledgerMonitor E (Some current) (callsReceived st st') = Some current'"
proof -
  from pollingLoop_ledger [OF assms, where current = current] obtain calls current' where
    c: "snd (world st') = snd (world st) @ calls"
       "ledgerMonitor E (Some current) calls = Some current'" by blast
  from callsReceived_append [OF c(1)] c(2) show ?thesis by simp
qed

theorem balance_allocator_fresh_and_shared_witness:
  "\<exists>st'.
      pollingLoop (logged (exampleCollaborators (Inr ()))) (exampleConfig 5) (Suc (Suc 0))
        recordingState = (None, st')
    \<and> callsReceived recordingState st' = exampleIterationCalls 5 @ exampleIterationCalls 5
    \<and> filter (\<lambda>c. 5 \<le> stepOrder (fst c) \<and> stepOrder (fst c) \<le> 7)
        (callsReceived recordingState st')
        = [(ExecutePoolRebalanceLeaves (Some 64) 1000 True [(1, 56)], Executed 900),
           (ExecuteSlowRelayLeaves (Some 64) 900 True [(1, 56)], Executed 890),
           (ExecuteRelayerRefundLeaves (Some 64) 890 True [(1, 56)], Executed 889),
           (ExecutePoolRebalanceLeaves (Some 64) 1000 True [(1, 56)], Executed 900),
           (ExecuteSlowRelayLeaves (Some 64) 900 True [(1, 56)], Executed 890),
           (ExecuteRelayerRefundLeaves (Some 64) 890 True [(1, 56)], Executed 889)]
    \<and> (\<exists>current'. ledgerMonitor (exampleCollaborators (Inr ())) (Some (Some 0))
          (callsReceived recordingState st') = Some current')"
proof -
  let ?E = "exampleCollaborators (Inr ())"
  obtain st' where run:
    "pollingLoop (logged ?E) (exampleConfig 5) (Suc (Suc 0)) recordingState = (None, st')"
    by (simp add: example_logged_iteration)
  then have received:
    "callsReceived recordingState st' = exampleIterationCalls 5 @ exampleIterationCalls 5"
    by (auto simp: example_logged_iteration callsReceived_def recordingState_def)
  have executions:
    "filter (\<lambda>c. 5 \<le> stepOrder (fst c) \<and> stepOrder (fst c) \<le> 7)
        (exampleIterationCalls 5 @ exampleIterationCalls 5)
        = [(ExecutePoolRebalanceLeaves (Some 64) 1000 True [(1, 56)], Executed 900),
           (ExecuteSlowRelayLeaves (Some 64) 900 True [(1, 56)], Executed 890),
           (ExecuteRelayerRefundLeaves (Some 64) 890 True [(1, 56)], Executed 889),
           (ExecutePoolRebalanceLeaves (Some 64) 1000 True [(1, 56)], Executed 900),
           (ExecuteSlowRelayLeaves (Some 64) 900 True [(1, 56)], Executed 890),
           (ExecuteRelayerRefundLeaves (Some 64) 890 True [(1, 56)], Executed 889)]"
    by (simp add: exampleIterationCalls_def exampleFetches_def)
  from balance_allocator_fresh_and_shared [OF run, of "Some 0"]
  have passes:
    "\<exists>current'. ledgerMonitor ?E (Some (Some 0)) (callsReceived recordingState st')
      = Some current'" .
  from executions received have executions':
    "filter (\<lambda>c. 5 \<le> stepOrder (fst c) \<and> stepOrder (fst c) \<le> 7)
        (callsReceived recordingState st')
        = [(ExecutePoolRebalanceLeaves (Some 64) 1000 True [(1, 56)], Executed 900),
           (ExecuteSlowRelayLeaves (Some 64) 900 True [(1, 56)], Executed 890),
           (ExecuteRelayerRefundLeaves (Some 64) 890 True [(1, 56)], Executed 889),
           (ExecutePoolRebalanceLeaves (Some 64) 1000 True [(1, 56)], Executed 900),
           (ExecuteSlowRelayLeaves (Some 64) 900 True [(1, 56)], Executed 890),
           (ExecuteRelayerRefundLeaves (Some 64) 890 True [(1, 56)], Executed 889)]"
    by simp
  from run received executions' passes show ?thesis
    by (intro exI [of _ st'] conjI)
qed

subsection \<open>Errors of an iteration\<close>

lemma bundleEndBlockMapping_raises:
  assumes "updateDataworkerClients E (world s) = (Inr (), w)"
    and "bundleEndBlockMapping E w = Inl e"
  shows "fst (loopIteration E config s) = Inl e"
  using assms by (simp add: loopIteration_def call_def sync_def andThen_def)

lemma searchConfigs_raise:
  assumes "int i \<le> dataworkerFastLookbackRetryCount config"
    and "getSpokePoolClientEventSearchConfigsForFastDataworker E (world s) customConfig = Inl e"
  shows "fst (iterationFromRound E config endBlocks i customConfig spc ivb s) = Inl e"
  using assms
  by (simp add: iterationFromRound_def retryLoop.simps [of _ _ _ i] retryRound_def call_def
        andThen_def)

lemma invalidStartBlocks_raise:
  assumes "int i \<le> dataworkerFastLookbackRetryCount config"
    and "getSpokePoolClientEventSearchConfigsForFastDataworker E (world s) customConfig
           = Inr searchConfigs"
    and "constructSpokePoolClientsForFastDataworker E (world s) customConfig
           (fromBlocks searchConfigs) (toBlocks searchConfigs) = (Inr clients, w)"
    and "getLatestInvalidBundleStartBlocks E clients = Inl e"
  shows "fst (iterationFromRound E config endBlocks i customConfig spc ivb s) = Inl e"
  using assms
  by (simp add: iterationFromRound_def retryLoop.simps [of _ _ _ i] retryRound_def call_def
        sync_def andThen_def)

lemma providers_raise:
  assumes "executorEnabled config"
    and "disputerStep E config spc ivb s = (Inr (), s1)"
    and "proposerStep E config spc ivb s1 = (Inr (), s2)"
    and "spokePoolClientsToProviders E spc = Inl e"
  shows "afterResolve E config spc ivb s = (Inl e, s2)"
  using assms
  by (simp add: afterResolve_def executorStep_def allocateBalanceAllocator_def andThen_def)

text \<open>
  Claim C6. No error of a collaborator is swallowed, and nothing goes on after one.
  In a whole run of \<open>runDataworker\<close>, and in each iteration, a call that a
  collaborator rejects with an error makes that error the result; after the rejected
  call the collaborators receive nothing more in the iteration, and in the run nothing
  but the disconnection of the redis client. An iteration that raises, after any number
  of completed iterations, ends the top-level loop with its error in the state it left,
  whatever fuel remains, and \<open>runDataworker\<close> raises the same error after the redis
  client, if there is one, has been told to disconnect and nothing else. The
  synchronous reads, which leave no record, raise what they throw: the end blocks of
  the latest fully executed bundle, the search configurations and the invalid bundle
  start blocks in a round of the retry loop, and the providers of the spoke pool clients.
\<close>

theorem iteration_error_is_terminal:
  "(runDataworker (logged E) fuel st = (r, st') \<longrightarrow>
       (\<forall>c \<in> set (callsReceived st st'). \<forall>e. snd c = Rejected e \<longrightarrow> r = Some (Inl e))
     \<and> (callsAfterRejection (callsReceived st st') = []
         \<or> callsAfterRejection (callsReceived st st') = [(RedisDisconnect, Fulfilled)]))
   \<and> (loopIteration (logged E) config sa = (x, sb) \<longrightarrow>
       (\<forall>c \<in> set (callsReceived sa sb). \<forall>e. snd c = Rejected e \<longrightarrow> x = Inl e)
     \<and> callsAfterRejection (callsReceived sa sb) = [])
   \<and> (createDataworker (logged E) st0 = (Inr config, st1)
       \<and> pollingLoop (logged E) config k st1 = (None, st2)
       \<and> loopIteration (logged E) config st2 = (Inl err, st3) \<longrightarrow>
       pollingLoop (logged E) config (k + Suc n) st1 = (Some (Inl err), st3)
     \<and> (\<exists>st4. runDataworker (logged E) (k + Suc n) st0 = (Some (Inl err), st4)
          \<and> callsReceived st3 st4
              = (if redisClientDefined E (fst (world st3)) then [(RedisDisconnect, Fulfilled)]
                 else [])))
   \<and> (updateDataworkerClients E (world s) = (Inr (), w)
       \<and> bundleEndBlockMapping E w = Inl e \<longrightarrow>
       fst (loopIteration E config s) = Inl e)
   \<and> (int i \<le> dataworkerFastLookbackRetryCount config
       \<and> getSpokePoolClientEventSearchConfigsForFastDataworker E (world s) customConfig
           = Inl e \<longrightarrow>
       fst (iterationFromRound E config endBlocks i customConfig spc ivb s) = Inl e)
   \<and> (int i \<le> dataworkerFastLookbackRetryCount config
       \<and> getSpokePoolClientEventSearchConfigsForFastDataworker E (world s) customConfig
           = Inr searchConfigs
       \<and> constructSpokePoolClientsForFastDataworker E (world s) customConfig
           (fromBlocks searchConfigs) (toBlocks searchConfigs) = (Inr clients, w)
       \<and> getLatestInvalidBundleStartBlocks E clients = Inl e \<longrightarrow>
       fst (iterationFromRound E config endBlocks i customConfig spc ivb s) = Inl e)
   \<and> (executorEnabled config
       \<and> disputerStep E config spc ivb s = (Inr (), s1)
       \<and> proposerStep E config spc ivb s1 = (Inr (), s2)
       \<and> spokePoolClientsToProviders E spc = Inl e \<longrightarrow>
       afterResolve E config spc ivb s = (Inl e, s2))"
proof (intro conjI impI; (elim conjE)?)
  assume run: "runDataworker (logged E) fuel st = (r, st')"
  from runDataworker_rejections [OF run] obtain calls where
    c: "snd (world st') = snd (world st) @ calls"
       "\<forall>c \<in> set calls. \<forall>e. snd c = Rejected e \<longrightarrow> r = Some (Inl e)"
       "callsAfterRejection calls = [] \<or> callsAfterRejection calls = [(RedisDisconnect, Fulfilled)]"
    by (elim exE conjE) (rule that)
  from callsReceived_append [OF c(1)] have received: "callsReceived st st' = calls" .
  from c(2) show "\<forall>c \<in> set (callsReceived st st'). \<forall>e. snd c = Rejected e \<longrightarrow> r = Some (Inl e)"
    unfolding received .
  from c(3) show "callsAfterRejection (callsReceived st st') = []
         \<or> callsAfterRejection (callsReceived st st') = [(RedisDisconnect, Fulfilled)]"
    unfolding received .
next
  assume it: "loopIteration (logged E) config sa = (x, sb)"
  from loopIteration_rejections [OF it] obtain calls where
    c: "snd (world sb) = snd (world sa) @ calls"
       "\<forall>c \<in> set calls. \<forall>e. snd c = Rejected e \<longrightarrow> x = Inl e"
       "callsAfterRejection calls = []"
    by (elim exE conjE) (rule that)
  from callsReceived_append [OF c(1)] have received: "callsReceived sa sb = calls" .
  from c(2) show "\<forall>c \<in> set (callsReceived sa sb). \<forall>e. snd c = Rejected e \<longrightarrow> x = Inl e"
    unfolding received .
  from c(3) show "callsAfterRejection (callsReceived sa sb) = []"
    unfolding received .
next
  assume a: "createDataworker (logged E) st0 = (Inr config, st1)"
    "pollingLoop (logged E) config k st1 = (None, st2)"
    "loopIteration (logged E) config st2 = (Inl err, st3)"
  from iteration_error_ends_run(1) [OF a]
  show "pollingLoop (logged E) config (k + Suc n) st1 = (Some (Inl err), st3)" .
  from iteration_error_ends_run(2) [OF a, of n] obtain st4 where
    r: "runDataworker (logged E) (k + Suc n) st0 = (Some (Inl err), st4)"
       "snd (world st4) = snd (world st3)
          @ (if redisClientDefined E (fst (world st3)) then [(RedisDisconnect, Fulfilled)]
             else [])"
    by (elim exE conjE) (rule that)
  from r(1) callsReceived_append [OF r(2)]
  show "\<exists>st4. runDataworker (logged E) (k + Suc n) st0 = (Some (Inl err), st4)
          \<and> callsReceived st3 st4
              = (if redisClientDefined E (fst (world st3)) then [(RedisDisconnect, Fulfilled)]
                 else [])"
    by (intro exI [of _ st4] conjI)
next
  assume "updateDataworkerClients E (world s) = (Inr (), w)" "bundleEndBlockMapping E w = Inl e"
  then show "fst (loopIteration E config s) = Inl e" by (rule bundleEndBlockMapping_raises)
next
  assume "int i \<le> dataworkerFastLookbackRetryCount config"
    "getSpokePoolClientEventSearchConfigsForFastDataworker E (world s) customConfig = Inl e"
  then show "fst (iterationFromRound E config endBlocks i customConfig spc ivb s) = Inl e"
    by (rule searchConfigs_raise)
next
  assume "int i \<le> dataworkerFastLookbackRetryCount config"
    "getSpokePoolClientEventSearchConfigsForFastDataworker E (world s) customConfig
       = Inr searchConfigs"
    "constructSpokePoolClientsForFastDataworker E (world s) customConfig
       (fromBlocks searchConfigs) (toBlocks searchConfigs) = (Inr clients, w)"
    "getLatestInvalidBundleStartBlocks E clients = Inl e"
  then show "fst (iterationFromRound E config endBlocks i customConfig spc ivb s) = Inl e"
    by (rule invalidStartBlocks_raise)
next
  assume "executorEnabled config"
    "disputerStep E config spc ivb s = (Inr (), s1)"
    "proposerStep E config spc ivb s1 = (Inr (), s2)"
    "spokePoolClientsToProviders E spc = Inl e"
  then show "afterResolve E config spc ivb s = (Inl e, s2)" by (rule providers_raise)
qed

lemma faulty_reads:
  "updateDataworkerClients (faultyCollaborators e) w = (Inr (), w)"
  "bundleEndBlockMapping (faultyCollaborators e) w = Inl e"
  "getSpokePoolClientEventSearchConfigsForFastDataworker (faultyCollaborators e) w cc
     = (if dataworkerFastLookbackCount cc = 0 then Inl e
        else Inr \<lparr>fromBlocks = [(1, 100 - dataworkerFastLookbackCount cc)],
                  toBlocks = [(1, 100)]\<rparr>)"
  "constructSpokePoolClientsForFastDataworker (faultyCollaborators e) w cc fromB toB
     = (Inr (dataworkerFastLookbackCount cc), Suc w)"
  "getLatestInvalidBundleStartBlocks (faultyCollaborators e) lookback = Inl e"
  by (simp_all add: faultyCollaborators_def exampleCollaborators_def bundleEndBlockMapping_def)

theorem iteration_error_is_terminal_witness:
  "\<exists>st1 st3 st4 s1 s2.
      createDataworker (logged (exampleCollaborators (Inl (Thrown ''rejected'')))) recordingState
        = (Inr (exampleConfig 0), st1)
    \<and> pollingLoop (logged (exampleCollaborators (Inl (Thrown ''rejected'')))) (exampleConfig 0)
        0 st1 = (None, st1)
    \<and> loopIteration (logged (exampleCollaborators (Inl (Thrown ''rejected''))))
        (exampleConfig 0) st1 = (Inl (Thrown ''rejected''), st3)
    \<and> callsReceived st1 st3 = exampleRejectedCalls (Thrown ''rejected'') 0
    \<and> callsAfterRejection (callsReceived st1 st3) = []
    \<and> pollingLoop (logged (exampleCollaborators (Inl (Thrown ''rejected'')))) (exampleConfig 0)
        (0 + Suc 2) st1 = (Some (Inl (Thrown ''rejected'')), st3)
    \<and> runDataworker (logged (exampleCollaborators (Inl (Thrown ''rejected'')))) (0 + Suc 2)
        recordingState = (Some (Inl (Thrown ''rejected'')), st4)
    \<and> callsReceived st3 st4 = [(RedisDisconnect, Fulfilled)]
    \<and> callsReceived recordingState st4
        = (ConstructDataworkerClients (exampleConfig 0), Fulfilled)
            # exampleRejectedCalls (Thrown ''rejected'') 0 @ [(RedisDisconnect, Fulfilled)]
    \<and> callsAfterRejection (callsReceived recordingState st4) = [(RedisDisconnect, Fulfilled)]
    \<and> fst (loopIteration (faultyCollaborators TypeError) (exampleConfig 0) initialState)
        = Inl TypeError
    \<and> fst (iterationFromRound (faultyCollaborators TypeError) (exampleConfig 0)
             (fromEntries [(1, 50), (10, 60)]) 0
             ((exampleConfig 0)\<lparr>dataworkerFastLookbackCount := 0\<rparr>) None [] initialState)
        = Inl TypeError
    \<and> fst (iterationFromRound (faultyCollaborators TypeError) (exampleConfig 0)
             (fromEntries [(1, 50), (10, 60)]) 0 (exampleConfig 0) None [] initialState)
        = Inl TypeError
    \<and> disputerStep (exampleCollaborators (Inr ())) (exampleConfig 0) None [] initialState
        = (Inr (), s1)
    \<and> proposerStep (exampleCollaborators (Inr ())) (exampleConfig 0) None [] s1 = (Inr (), s2)
    \<and> afterResolve (exampleCollaborators (Inr ())) (exampleConfig 0) None [] initialState
        = (Inl TypeError, s2)"
proof -
  let ?e = "Thrown ''rejected''"
  let ?E = "exampleCollaborators (Inl ?e)"
  let ?F = "faultyCollaborators TypeError"
  let ?G = "exampleCollaborators (Inr ())"
  let ?eb = "fromEntries [(1, 50), (10, 60)]"
  obtain st1 where cd: "createDataworker (logged ?E) recordingState = (Inr (exampleConfig 0), st1)"
    and w1: "snd (world st1) = [(ConstructDataworkerClients (exampleConfig 0), Fulfilled)]"
    by (simp add: createDataworker_def sync_def andThen_Inr call_def logged_reads
          example_calls example_logged_calls recordingState_def)
  have idle: "pollingLoop (logged ?E) (exampleConfig 0) 0 st1 = (None, st1)" by simp
  obtain st3 where it: "loopIteration (logged ?E) (exampleConfig 0) st1 = (Inl ?e, st3)"
    and w3: "snd (world st3) = snd (world st1) @ exampleRejectedCalls ?e 0"
    by (simp add: example_logged_iteration_rejected)
  from callsReceived_append [OF w3]
  have received: "callsReceived st1 st3 = exampleRejectedCalls ?e 0" .
  note logged = iteration_error_is_terminal
    [where E = ?E and config = "exampleConfig 0" and sa = st1 and x = "Inl ?e" and sb = st3
       and ?st0.0 = recordingState and ?st1.0 = st1 and k = 0 and ?st2.0 = st1 and err = ?e
       and ?st3.0 = st3 and n = 2 and fuel = "0 + Suc 2" and st = recordingState]
  from logged [THEN conjunct2, THEN conjunct1, rule_format, OF it, THEN conjunct2]
  have quiet: "callsAfterRejection (callsReceived st1 st3) = []" .
  note ends = logged [THEN conjunct2, THEN conjunct2, THEN conjunct1, rule_format,
    OF conjI [OF cd conjI [OF idle it]]]
  from ends [THEN conjunct1]
  have loop: "pollingLoop (logged ?E) (exampleConfig 0) (0 + Suc 2) st1 = (Some (Inl ?e), st3)" .
  from ends [THEN conjunct2] obtain st4 where
    run: "runDataworker (logged ?E) (0 + Suc 2) recordingState = (Some (Inl ?e), st4)"
    and w4: "callsReceived st3 st4 = [(RedisDisconnect, Fulfilled)]"
    by (auto simp: logged_reads example_calls)
  from cd loop run have w4': "snd (world st4) = snd (world st3) @ [(RedisDisconnect, Fulfilled)]"
    by (auto simp: runDataworker_def catchBlock_def logged_reads example_calls
          simp del: pollingLoop.simps)
  with w3 w1 have whole: "callsReceived recordingState st4
        = (ConstructDataworkerClients (exampleConfig 0), Fulfilled)
            # exampleRejectedCalls ?e 0 @ [(RedisDisconnect, Fulfilled)]"
    by (simp add: callsReceived_def recordingState_def)
  note result = logged [where r = "Some (Inl ?e)" and st' = st4,
    THEN conjunct1, rule_format, OF run]
  from result [THEN conjunct2] whole
  have "callsAfterRejection (callsReceived recordingState st4) = [(RedisDisconnect, Fulfilled)]"
    by (simp add: exampleRejectedCalls_def exampleFetches_def)
  moreover note reads = iteration_error_is_terminal
    [where E = ?F and config = "exampleConfig 0" and s = initialState
       and e = TypeError and i = 0 and endBlocks = ?eb and spc = None and ivb = "[]"]
  from reads [where w = 0,
    THEN conjunct2, THEN conjunct2, THEN conjunct2, THEN conjunct1, rule_format]
  have "fst (loopIteration ?F (exampleConfig 0) initialState) = Inl TypeError"
    by (simp add: faulty_reads initialState_def)
  moreover
  from reads [where customConfig = "(exampleConfig 0)\<lparr>dataworkerFastLookbackCount := 0\<rparr>",
    THEN conjunct2, THEN conjunct2, THEN conjunct2, THEN conjunct2, THEN conjunct1, rule_format]
  have "fst (iterationFromRound ?F (exampleConfig 0) ?eb 0
             ((exampleConfig 0)\<lparr>dataworkerFastLookbackCount := 0\<rparr>) None [] initialState)
        = Inl TypeError"
    by (simp add: faulty_reads example_config)
  moreover
  from reads [where customConfig = "exampleConfig 0"
      and searchConfigs = "\<lparr>fromBlocks = [(1, 84)], toBlocks = [(1, 100)]\<rparr>"
      and clients = 16 and w = "Suc 0",
    THEN conjunct2, THEN conjunct2, THEN conjunct2, THEN conjunct2, THEN conjunct2,
    THEN conjunct1, rule_format]
  have "fst (iterationFromRound ?F (exampleConfig 0) ?eb 0 (exampleConfig 0) None []
             initialState) = Inl TypeError"
    by (simp add: faulty_reads example_config initialState_def)
  moreover
  obtain s1 where d: "disputerStep ?G (exampleConfig 0) None [] initialState = (Inr (), s1)"
    by (simp add: disputerStep_def call_def example_calls example_config)
  obtain s2 where p: "proposerStep ?G (exampleConfig 0) None [] s1 = (Inr (), s2)"
    by (simp add: proposerStep_def call_def example_calls example_config)
  have none: "spokePoolClientsToProviders ?G None = Inl TypeError"
    by (simp add: exampleCollaborators_def)
  from iteration_error_is_terminal
    [where E = ?G and config = "exampleConfig 0" and s = initialState and ?s1.0 = s1
       and ?s2.0 = s2 and e = TypeError and spc = None and ivb = "[]",
     THEN conjunct2, THEN conjunct2, THEN conjunct2, THEN conjunct2, THEN conjunct2,
     THEN conjunct2, rule_format, OF conjI [OF _ conjI [OF d conjI [OF p none]]]]
  have "afterResolve ?G (exampleConfig 0) None [] initialState = (Inl TypeError, s2)"
    by (simp add: example_config)
  ultimately show ?thesis using cd idle it received quiet loop run w4 whole d p
    by (intro exI [of _ st1] exI [of _ st3] exI [of _ st4] exI [of _ s1] exI [of _ s2] conjI)
qed

subsection \<open>The stop signal\<close>

text \<open>
  Claim C7. An iteration of the top-level loop either completes or raises. When it
  completes, \<open>processEndPollingLoop\<close> has been called exactly once in it, as the last
  call and right after the fulfilled flush of the transaction queue, with the polling
  delay of the configuration; the value of the iteration is the answer that call gave,
  and the loop stops if the answer is true and starts the next iteration if it is
  false. When the iteration raises, either the stop check itself was rejected -- it was
  the last call, right after the flush, and the only stop check -- or no stop check was
  made at all; the loop ends with the error.
\<close>

theorem stop_signal_checked_once_after_flush:
  assumes "loopIteration (logged E) config st = (r, st')"
  shows "(\<forall>stop. r = Inr stop \<longrightarrow>
            (\<exists>before. callsReceived st st'
                 = before @ [(ExecuteTransactionQueue, Fulfilled),
                             (ProcessEndPollingLoop (pollingDelay config), Answered stop)]
               \<and> (\<forall>c \<in> set before. \<not> isStopCheck (fst c)))
          \<and> pollingLoop (logged E) config (Suc fuel) st
              = (if stop then (Some (Inr ()), st') else pollingLoop (logged E) config fuel st'))
    \<and> (\<forall>e. r = Inl e \<longrightarrow>
            ((\<exists>before. callsReceived st st'
                 = before @ [(ExecuteTransactionQueue, Fulfilled),
                             (ProcessEndPollingLoop (pollingDelay config), Rejected e)]
               \<and> (\<forall>c \<in> set before. \<not> isStopCheck (fst c)))
             \<or> (\<forall>c \<in> set (callsReceived st st'). \<not> isStopCheck (fst c)))
          \<and> pollingLoop (logged E) config (Suc fuel) st = (Some (Inl e), st'))"
proof -
  from loopIteration_stop [OF assms] obtain calls where
    c: "snd (world st') = snd (world st) @ calls"
    and completed: "\<forall>stop. r = Inr stop \<longrightarrow>
          (\<exists>before. calls = before @ [(ExecuteTransactionQueue, Fulfilled),
                        (ProcessEndPollingLoop (pollingDelay config), Answered stop)]
             \<and> (\<forall>c \<in> set before. \<not> isStopCheck (fst c)))"
    and raised: "\<forall>e. r = Inl e \<longrightarrow>
          (\<exists>before. calls = before @ [(ExecuteTransactionQueue, Fulfilled),
                        (ProcessEndPollingLoop (pollingDelay config), Rejected e)]
             \<and> (\<forall>c \<in> set before. \<not> isStopCheck (fst c)))
        \<or> (\<forall>c \<in> set calls. \<not> isStopCheck (fst c))"
    by (elim exE conjE) (rule that)
  from callsReceived_append [OF c] have received: "callsReceived st st' = calls" .
  have loop: "\<forall>stop. r = Inr stop \<longrightarrow>
      pollingLoop (logged E) config (Suc fuel) st
        = (if stop then (Some (Inr ()), st') else pollingLoop (logged E) config fuel st')"
    using assms by simp
  have ends: "\<forall>e. r = Inl e \<longrightarrow>
      pollingLoop (logged E) config (Suc fuel) st = (Some (Inl e), st')"
    using assms by simp
  from completed raised loop ends show ?thesis unfolding received by simp
qed

theorem stop_signal_checked_once_after_flush_witness:
  "\<exists>st1 st2.
      loopIteration (logged (exampleCollaborators (Inr ()))) (exampleConfig 5) recordingState
        = (Inr False, st1)
    \<and> loopIteration (logged (exampleCollaborators (Inr ()))) (exampleConfig 0) st1
        = (Inr True, st2)
    \<and> callsReceived recordingState st1 = exampleIterationCalls 5
    \<and> map (isStopCheck \<circ> fst) (callsReceived recordingState st1)
        = [False, False, False, False, False, False, False, False, False, False, True]
    \<and> pollingLoop (logged (exampleCollaborators (Inr ()))) (exampleConfig 5) (Suc 0)
        recordingState
        = pollingLoop (logged (exampleCollaborators (Inr ()))) (exampleConfig 5) 0 st1
    \<and> (\<exists>before. callsReceived st1 st2
          = before @ [(ExecuteTransactionQueue, Fulfilled),
                      (ProcessEndPollingLoop 0, Answered True)])
    \<and> pollingLoop (logged (exampleCollaborators (Inr ()))) (exampleConfig 0) (Suc 7) st1
        = (Some (Inr ()), st2)"
proof -
  let ?E = "exampleCollaborators (Inr ())"
  obtain st1 where first:
    "loopIteration (logged ?E) (exampleConfig 5) recordingState = (Inr False, st1)"
    by (simp add: example_logged_iteration)
  obtain st2 where second:
    "loopIteration (logged ?E) (exampleConfig 0) st1 = (Inr True, st2)"
    by (simp add: example_logged_iteration)
  from first have received: "callsReceived recordingState st1 = exampleIterationCalls 5"
    by (auto simp: example_logged_iteration callsReceived_def recordingState_def)
  have checks: "map (isStopCheck \<circ> fst) (exampleIterationCalls 5)
      = [False, False, False, False, False, False, False, False, False, False, True]"
    by (simp add: exampleIterationCalls_def exampleFetches_def)
  with received have checks': "map (isStopCheck \<circ> fst) (callsReceived recordingState st1)
      = [False, False, False, False, False, False, False, False, False, False, True]"
    by simp
  from stop_signal_checked_once_after_flush
         [OF first, of 0, THEN conjunct1, rule_format, OF refl, THEN conjunct2]
  have again: "pollingLoop (logged ?E) (exampleConfig 5) (Suc 0) recordingState
      = pollingLoop (logged ?E) (exampleConfig 5) 0 st1"
    by (simp del: pollingLoop.simps)
  note completed = stop_signal_checked_once_after_flush
         [OF second, of 7, THEN conjunct1, rule_format, OF refl]
  from completed [THEN conjunct1]
  have stops: "(\<exists>before. callsReceived st1 st2
          = before @ [(ExecuteTransactionQueue, Fulfilled),
                      (ProcessEndPollingLoop 0, Answered True)])"
    by (auto simp: example_config)
  from completed [THEN conjunct2]
  have ended: "pollingLoop (logged ?E) (exampleConfig 0) (Suc 7) st1 = (Some (Inr ()), st2)"
    by (simp del: pollingLoop.simps)
  from first second received checks' again stops ended show ?thesis
    by (intro exI [of _ st1] exI [of _ st2] conjI)
qed

subsection \<open>The clients and start blocks of an iteration\<close>

lemma resolveBlockRanges_resolver:
  assumes "resolveBlockRanges (logged E) config st = (Inr (spc, ivb), st1)"
  shows "\<exists>calls current'. snd (world st1) = snd (world st) @ calls
    \<and> resolverMonitor E config (Some current) calls = Some current'
    \<and> fromLastFetch E current' spc ivb"
  using assms unfolding resolveBlockRanges_def
proof (cases rule: andThenE)
  case (fails e)
  then show ?thesis by simp
next
  case (continues u0 st0)
  obtain r0 w where u: "updateDataworkerClients E (fst (world st)) = (r0, w)"
    by (cases "updateDataworkerClients E (fst (world st))")
  from call_received [OF continues(1), of r0 w "[(UpdateDataworkerClients, fulfilled r0)]"] u
  have w0: "snd (world st0) = snd (world st) @ [(UpdateDataworkerClients, Fulfilled)]"
    by (auto simp: logged_calls)
  from continues(2) show ?thesis
  proof (cases rule: andThenE)
    case (fails e)
    then show ?thesis by simp
  next
    case (continues endBlocks st0')
    then have same: "st0' = st0" by (simp add: sync_def)
    have none: "fromLastFetch E None None []" by (simp add: fromLastFetch_def)
    from retryLoop_resolver [OF continues(2) [unfolded same] none] obtain fetches current'
      where f: "snd (world st1) = snd (world st0) @ fetches"
        "resolverMonitor E config (Some None) fetches = Some current'"
        "fromLastFetch E current' spc ivb" by auto
    have "resolverMonitor E config (Some current) [(UpdateDataworkerClients, Fulfilled)]
        = Some None"
      by (simp add: resolverMonitor_def)
    with f(2)
    have "resolverMonitor E config (Some current)
            ([(UpdateDataworkerClients, Fulfilled)] @ fetches) = Some current'"
      by (simp only: resolverMonitor_append)
    with f(1,3) w0 show ?thesis
      by (intro exI [of _ "[(UpdateDataworkerClients, Fulfilled)] @ fetches"]
            exI [of _ current']) simp
  qed
qed

text \<open>
  Claim C8. Over any number of iterations of the top-level loop, from any state, the
  calls the collaborators receive pass the monitor of the clients and start blocks. In
  every iteration the first fetch is given the configuration itself, with the lookback
  count as configured, whatever an earlier iteration widened it to; and every call that
  takes spoke pool clients and invalid bundle start blocks is given the clients that the
  last fetch of its own iteration constructed and the value of
  \<open>getLatestInvalidBundleStartBlocks\<close> on those clients -- or no clients and the empty
  map if its iteration made no fetch -- never the clients or the blocks of an earlier
  round or of an earlier iteration. The same holds of what the resolver part of an
  iteration returns. And a round of the retry loop that does not raise has made one
  fetch and ends with the clients this fetch constructed and the value of
  \<open>getLatestInvalidBundleStartBlocks\<close> on them, whatever the rounds before it left.
  Nothing here depends on the value of the widened lookback count.
\<close>

theorem invalid_start_blocks_never_persisted:
  "(pollingLoop (logged E) config fuel st = (r, st') \<longrightarrow>
      (\<exists>current'. resolverMonitor E config (Some current) (callsReceived st st')
         = Some current'))
   \<and> (resolveBlockRanges (logged E) config st = (Inr (spc, ivb), st1) \<longrightarrow>
      (\<exists>current'. resolverMonitor E config (Some current) (callsReceived st st1)
         = Some current'
       \<and> fromLastFetch E current' spc ivb))
   \<and> (retryRound (logged E) config endBlocks i customConfig st = (Inr res, st2) \<longrightarrow>
      (\<exists>fromB toB clients invalid.
          callsReceived st st2
            = [(ConstructSpokePoolClients customConfig fromB toB, Constructed clients)]
        \<and> getLatestInvalidBundleStartBlocks E clients = Inr invalid
        \<and> ((\<exists>customConfig'. res = Widened customConfig' clients invalid)
             \<or> res = Break clients invalid)))"
proof (intro conjI impI)
  assume round: "retryRound (logged E) config endBlocks i customConfig st = (Inr res, st2)"
  then show "\<exists>fromB toB clients invalid.
          callsReceived st st2
            = [(ConstructSpokePoolClients customConfig fromB toB, Constructed clients)]
        \<and> getLatestInvalidBundleStartBlocks E clients = Inr invalid
        \<and> ((\<exists>customConfig'. res = Widened customConfig' clients invalid)
             \<or> res = Break clients invalid)"
  proof (cases rule: retryRound_received)
    case (compared searchConfigs clients invalid)
    from callsReceived_append [OF compared(4)] compared(2,3) show ?thesis
      by (intro exI [of _ "fromBlocks searchConfigs"] exI [of _ "toBlocks searchConfigs"]
            exI [of _ clients] exI [of _ invalid]) (simp split: if_splits)
  qed simp_all
next
  assume run: "pollingLoop (logged E) config fuel st = (r, st')"
  from pollingLoop_resolver [OF run, where current = current] obtain calls current' where
    c: "snd (world st') = snd (world st) @ calls"
       "resolverMonitor E config (Some current) calls = Some current'" by blast
  from callsReceived_append [OF c(1)] c(2)
  show "\<exists>current'. resolverMonitor E config (Some current) (callsReceived st st')
         = Some current'" by simp
next
  assume res: "resolveBlockRanges (logged E) config st = (Inr (spc, ivb), st1)"
  from resolveBlockRanges_resolver [OF res, where current = current] obtain calls current'
    where c: "snd (world st1) = snd (world st) @ calls"
       "resolverMonitor E config (Some current) calls = Some current'"
       "fromLastFetch E current' spc ivb" by blast
  from callsReceived_append [OF c(1)] c(2,3)
  show "\<exists>current'. resolverMonitor E config (Some current) (callsReceived st st1)
         = Some current' \<and> fromLastFetch E current' spc ivb" by simp
qed

theorem invalid_start_blocks_never_persisted_witness:
  "\<exists>st' st1 st2.
      pollingLoop (logged (exampleCollaborators (Inr ()))) (exampleConfig 5) (Suc (Suc 0))
        recordingState = (None, st')
    \<and> resolveBlockRanges (logged (exampleCollaborators (Inr ()))) (exampleConfig 5)
        recordingState = (Inr (Some 64, [(1, 56)]), st1)
    \<and> callsReceived recordingState st' = exampleIterationCalls 5 @ exampleIterationCalls 5
    \<and> callsReceived recordingState st1
        = (UpdateDataworkerClients, Fulfilled) # exampleFetches 5
    \<and> (\<exists>current'. resolverMonitor (exampleCollaborators (Inr ())) (exampleConfig 5)
          (Some (Some 16)) (callsReceived recordingState st') = Some current')
    \<and> (\<exists>current'. resolverMonitor (exampleCollaborators (Inr ())) (exampleConfig 5)
          (Some (Some 16)) (callsReceived recordingState st1) = Some current'
        \<and> fromLastFetch (exampleCollaborators (Inr ())) current' (Some 64) [(1, 56)])
    \<and> retryRound (logged (exampleCollaborators (Inr ()))) (exampleConfig 5)
        (fromEntries [(1, 50), (10, 60)]) (Suc 0)
        ((exampleConfig 5)\<lparr>dataworkerFastLookbackCount := 32\<rparr>) recordingState
        = (Inr (Widened ((exampleConfig 5)\<lparr>dataworkerFastLookbackCount := 64\<rparr>) 32
                  [(1, 88)]), st2)
    \<and> (\<exists>fromB toB clients invalid.
          callsReceived recordingState st2
            = [(ConstructSpokePoolClients
                  ((exampleConfig 5)\<lparr>dataworkerFastLookbackCount := 32\<rparr>) fromB toB,
                Constructed clients)]
        \<and> getLatestInvalidBundleStartBlocks (exampleCollaborators (Inr ())) clients
            = Inr invalid
        \<and> Widened ((exampleConfig 5)\<lparr>dataworkerFastLookbackCount := 64\<rparr>) 32 [(1, 88)]
            = Widened ((exampleConfig 5)\<lparr>dataworkerFastLookbackCount := 64\<rparr>)
                clients invalid)"
proof -
  let ?E = "exampleCollaborators (Inr ())"
  obtain st' where run:
    "pollingLoop (logged ?E) (exampleConfig 5) (Suc (Suc 0)) recordingState = (None, st')"
    by (simp add: example_logged_iteration)
  then have received:
    "callsReceived recordingState st' = exampleIterationCalls 5 @ exampleIterationCalls 5"
    by (auto simp: example_logged_iteration callsReceived_def recordingState_def)
  obtain st1 where res:
    "resolveBlockRanges (logged ?E) (exampleConfig 5) recordingState
       = (Inr (Some 64, [(1, 56)]), st1)"
    by (simp add: resolveBlockRanges_def call_def sync_def andThen_Inr
          bundleEndBlockMapping_logged example_logged_calls example_endBlocks
          example_logged_loop)
  then have fetched:
    "callsReceived recordingState st1 = (UpdateDataworkerClients, Fulfilled) # exampleFetches 5"
    by (auto simp: resolveBlockRanges_def call_def sync_def andThen_Inr
          bundleEndBlockMapping_logged example_logged_calls example_endBlocks
          example_logged_loop callsReceived_def recordingState_def)
  let ?cc = "(exampleConfig 5)\<lparr>dataworkerFastLookbackCount := 32\<rparr>"
  let ?res = "Widened ((exampleConfig 5)\<lparr>dataworkerFastLookbackCount := 64\<rparr>) 32
                [(1, 88 :: int)]"
  obtain st2 where round:
    "retryRound (logged ?E) (exampleConfig 5) (fromEntries [(1, 50), (10, 60)]) (Suc 0) ?cc
       recordingState = (Inr ?res, st2)"
    by (simp add: example_logged_round example_config)
  note both = invalid_start_blocks_never_persisted
    [where E = ?E and config = "exampleConfig 5" and fuel = "Suc (Suc 0)"
       and st = recordingState and r = None and st' = st' and current = "Some 16"
       and spc = "Some 64" and ivb = "[(1, 56)]" and ?st1.0 = st1
       and endBlocks = "fromEntries [(1, 50), (10, 60)]" and i = "Suc 0"
       and customConfig = ?cc and res = ?res and ?st2.0 = st2]
  from both [THEN conjunct2, THEN conjunct2, rule_format, OF round]
  have fresh: "\<exists>fromB toB clients invalid.
          callsReceived recordingState st2
            = [(ConstructSpokePoolClients ?cc fromB toB, Constructed clients)]
        \<and> getLatestInvalidBundleStartBlocks ?E clients = Inr invalid
        \<and> ?res = Widened ((exampleConfig 5)\<lparr>dataworkerFastLookbackCount := 64\<rparr>)
                   clients invalid"
    by (elim exE conjE) (intro exI conjI, assumption+, auto)
  from both [THEN conjunct1, rule_format, OF run]
  have passes: "\<exists>current'. resolverMonitor ?E (exampleConfig 5) (Some (Some 16))
      (callsReceived recordingState st') = Some current'" .
  from both [THEN conjunct2, THEN conjunct1, rule_format, OF res]
  have last: "\<exists>current'. resolverMonitor ?E (exampleConfig 5) (Some (Some 16))
      (callsReceived recordingState st1) = Some current'
        \<and> fromLastFetch ?E current' (Some 64) [(1, 56)]" .
  from run res received fetched passes last round fresh show ?thesis
    by (intro exI [of _ st'] exI [of _ st1] exI [of _ st2] conjI)
qed

subsection \<open>The Scroll WETH bridge adapter\<close>

text \<open>
  Claim C9. For a bridge adapter made by the constructor, \<open>constructL1ToL2Txn\<close> always
  gives the transaction on the atomic depositor contract (the contract made from the
  \<open>atomicDepositor\<close> entry of the hub chain) with method \<open>bridgeWethToScroll\<close> and
  arguments the recipient, the amount and the gas limit \<open>20000\<close>; the two token
  arguments do not change it.
\<close>

theorem scroll_weth_bridge_deposit_transaction:
  assumes "newScrollWethBridge CONTRACT_ADDRESSES l2chain hubChain l1Signer
             l2SignerOrProvider token = Inr bridge"
  shows "constructL1ToL2Txn bridge toAddress l1Token l2Token amount
           = \<lparr>contract = atomicDepositor bridge,
              methodName = ''bridgeWethToScroll'',
              args = [ArgAddress toAddress, ArgAmount amount, ArgNumber 20000]\<rparr>
     \<and> (\<exists>entry. lookupContract CONTRACT_ADDRESSES hubChain ''atomicDepositor'' = Inr entry
           \<and> atomicDepositor bridge = newContract entry l1Signer)
     \<and> constructL1ToL2Txn bridge toAddress l1Token' l2Token' amount
           = constructL1ToL2Txn bridge toAddress l1Token l2Token amount"
  using assms
  by (auto simp: newScrollWethBridge_def constructL1ToL2Txn_def split: sum.splits)

theorem scroll_weth_bridge_deposit_transaction_witness:
  "newScrollWethBridge exampleContracts 534352 1 ''l1'' ''l2'' ''0xC02a''
     = Inr \<lparr>l2chainId = 534352, hubChainId = 1, l1Gateways = [''0xA70d''],
            l1Bridge = \<lparr>contractAddress = ''0xF8B1'', contractAbi = ''router'',
                         signerOrProvider = ''l1''\<rparr>,
            l2Bridge = \<lparr>contractAddress = ''0x4C0a'', contractAbi = ''router'',
                         signerOrProvider = ''l2''\<rparr>,
            atomicDepositor = \<lparr>contractAddress = ''0xA70d'', contractAbi = ''depositor'',
                                signerOrProvider = ''l1''\<rparr>,
            l2Gas = 20000\<rparr>
   \<and> constructL1ToL2Txn
        \<lparr>l2chainId = 534352, hubChainId = 1, l1Gateways = [''0xA70d''],
            l1Bridge = \<lparr>contractAddress = ''0xF8B1'', contractAbi = ''router'',
                         signerOrProvider = ''l1''\<rparr>,
            l2Bridge = \<lparr>contractAddress = ''0x4C0a'', contractAbi = ''router'',
                         signerOrProvider = ''l2''\<rparr>,
            atomicDepositor = \<lparr>contractAddress = ''0xA70d'', contractAbi = ''depositor'',
                                signerOrProvider = ''l1''\<rparr>,
            l2Gas = 20000\<rparr>
        ''0xBEEF'' ''0xC02a'' ''0x5300'' 1000000
     = \<lparr>contract = \<lparr>contractAddress = ''0xA70d'', contractAbi = ''depositor'',
                      signerOrProvider = ''l1''\<rparr>,
        methodName = ''bridgeWethToScroll'',
        args = [ArgAddress ''0xBEEF'', ArgAmount 1000000, ArgNumber 20000]\<rparr>"
proof -
  have made: "newScrollWethBridge exampleContracts 534352 1 ''l1'' ''l2'' ''0xC02a''
     = Inr \<lparr>l2chainId = 534352, hubChainId = 1, l1Gateways = [''0xA70d''],
            l1Bridge = \<lparr>contractAddress = ''0xF8B1'', contractAbi = ''router'',
                         signerOrProvider = ''l1''\<rparr>,
            l2Bridge = \<lparr>contractAddress = ''0x4C0a'', contractAbi = ''router'',
                         signerOrProvider = ''l2''\<rparr>,
            atomicDepositor = \<lparr>contractAddress = ''0xA70d'', contractAbi = ''depositor'',
                                signerOrProvider = ''l1''\<rparr>,
            l2Gas = 20000\<rparr>"
    by (simp add: newScrollWethBridge_def lookupContract_def exampleContracts_def
          newContract_def)
  from scroll_weth_bridge_deposit_transaction
    [OF made, of "''0xBEEF''" "''0xC02a''" "''0x5300''" 1000000]
  show ?thesis by (simp add: made)
qed

subsection \<open>The relayer configuration\<close>

text \<open>
  Claim C10. In a relayer configuration made by the constructor from an environment,
  \<open>sendingRelaysEnabled\<close> is true exactly when \<open>SEND_RELAYS\<close> is the string \<open>true\<close>,
  and \<open>maxRelayerLookBack\<close> and \<open>repaymentChainIdForToken\<close> are the empty object
  whenever \<open>MAX_RELAYER_DEPOSIT_LOOK_BACK\<close> and \<open>REPAYMENT_CHAIN_FOR_TOKEN\<close>, each for
  its own field, are absent or empty.
\<close>

theorem relayer_config_from_environment:
  assumes "newRelayerConfig newCommonConfig JSON_parse env = Inr config"
  shows "(sendingRelaysEnabled config \<longleftrightarrow> env ''SEND_RELAYS'' = Some ''true'')
     \<and> (env ''MAX_RELAYER_DEPOSIT_LOOK_BACK'' = None
          \<or> env ''MAX_RELAYER_DEPOSIT_LOOK_BACK'' = Some ''''
        \<longrightarrow> maxRelayerLookBack config = JObject [])
     \<and> (env ''REPAYMENT_CHAIN_FOR_TOKEN'' = None
          \<or> env ''REPAYMENT_CHAIN_FOR_TOKEN'' = Some ''''
        \<longrightarrow> repaymentChainIdForToken config = JObject [])"
  using assms
  by (auto simp: newRelayerConfig_def parseOrEmpty_def split: sum.splits)

theorem relayer_config_from_environment_witness:
  "newRelayerConfig (\<lambda>env. Inr ()) (\<lambda>text. Inl (Thrown ''SyntaxError'')) exampleEnv
     = Inr \<lparr>commonConfig = (), maxRelayerLookBack = JObject [],
            repaymentChainIdForToken = JObject [], sendingRelaysEnabled = True\<rparr>
   \<and> exampleEnv ''SEND_RELAYS'' = Some ''true''
   \<and> exampleEnv ''MAX_RELAYER_DEPOSIT_LOOK_BACK'' = Some ''''
   \<and> exampleEnv ''REPAYMENT_CHAIN_FOR_TOKEN'' = None"
proof -
  have made: "newRelayerConfig (\<lambda>env. Inr ()) (\<lambda>text. Inl (Thrown ''SyntaxError'')) exampleEnv
     = Inr \<lparr>commonConfig = (), maxRelayerLookBack = JObject [],
            repaymentChainIdForToken = JObject [], sendingRelaysEnabled = True\<rparr>"
    by (simp add: newRelayerConfig_def parseOrEmpty_def exampleEnv_def)
  from relayer_config_from_environment [OF made] made
  show ?thesis by (simp add: exampleEnv_def)
qed

end
